(* ===== verification/Prelude.thy ===== *)
theory Prelude
  imports Main "HOL-Library.AList" "HOL-Library.Word"
begin

text \<open>
  Shared vocabulary of the development: the machine types of the Rust sources, the
  association-list model of the standard library's hash maps and its contract, and the
  generic facts on lists, options and strings that the components use.

  \<^item> A Rust \<^verbatim>\<open>String\<close> is its sequence of UTF-8 bytes, a HOL \<^typ>\<open>string\<close>; the source only
    searches for the ASCII byte \<^verbatim>\<open>/\<close>, compares and concatenates, all of which work bytewise.
  \<^item> A \<^verbatim>\<open>HashMap\<close> or \<^verbatim>\<open>BTreeMap\<close> is an association list with distinct keys. Its order is
    the iteration order, about which no theorem assumes anything.
  \<^item> \<^verbatim>\<open>Result<T, E>\<close> is the sum type \<open>'e + 'a\<close>, \<open>Inl\<close> being the error.
\<close>

section \<open>Machine types\<close>

type_synonym u8 = "8 word"
type_synonym u32 = "32 word"
type_synonym i32 = "32 word"
type_synonym u64 = "64 word"
type_synonym bytes = "u8 list"
type_synonym ('k, 'v) hmap = "('k \<times> 'v) list"

text \<open>Bytes of a string (\<^verbatim>\<open>str::as_bytes\<close>).\<close>

definition as_bytes :: "string \<Rightarrow> bytes" where
  "as_bytes s = map (\<lambda>c. of_nat (of_char c)) s"

text \<open>The character of a byte; the inverse of \<^const>\<open>as_bytes\<close> on one byte.\<close>

definition byte_char :: "u8 \<Rightarrow> char" where
  "byte_char b = char_of (unat b)"

text \<open>The kinds of \<^verbatim>\<open>std::io::Error\<close> the sources tell apart; every other one is \<open>OtherKind\<close>.\<close>

datatype io_error_kind =
    ConnectionReset | NotFound | ConnectionRefused | AddrInUse | AlreadyExists
  | PermissionDenied | OtherKind

named_theorems router_defs "definitions of the router's operations"
named_theorems conn_defs "definitions of the router-side connection's operations"
named_theorems client_defs "definitions of the client-side connection's operations"

section \<open>Hash maps\<close>

definition hm_get :: "('k, 'v) hmap \<Rightarrow> 'k \<Rightarrow> 'v option" where
  "hm_get m k = map_of m k"

text \<open>\<^verbatim>\<open>insert\<close> returns the value that was there, \<^verbatim>\<open>remove\<close> the one it took out.\<close>

definition hm_insert :: "'k \<Rightarrow> 'v \<Rightarrow> ('k, 'v) hmap \<Rightarrow> 'v option \<times> ('k, 'v) hmap" where
  "hm_insert k v m = (map_of m k, AList.update k v m)"

definition hm_remove :: "'k \<Rightarrow> ('k, 'v) hmap \<Rightarrow> 'v option \<times> ('k, 'v) hmap" where
  "hm_remove k m = (map_of m k, AList.delete k m)"

definition hm_keys :: "('k, 'v) hmap \<Rightarrow> 'k list" where
  "hm_keys m = map fst m"

definition hm_values :: "('k, 'v) hmap \<Rightarrow> 'v list" where
  "hm_values m = map snd m"

definition hm_len :: "('k, 'v) hmap \<Rightarrow> nat" where
  "hm_len m = length m"

definition hm_contains :: "('k, 'v) hmap \<Rightarrow> 'k \<Rightarrow> bool" where
  "hm_contains m k = (map_of m k \<noteq> None)"

definition hm_ok :: "('k, 'v) hmap \<Rightarrow> bool" where
  "hm_ok m = distinct (map fst m)"

text \<open>
  The contract of \<^verbatim>\<open>std::collections::HashMap\<close> that the sources rely on, over the
  abstraction \<open>get\<close>. The three restore laws are the pattern \<^verbatim>\<open>insert\<close> (or \<^verbatim>\<open>remove\<close>),
  look at the previous value, put it back, which the router uses for its conflict checks.
\<close>

locale hash_map =
  fixes get :: "'m \<Rightarrow> 'k \<Rightarrow> 'v option"
    and ins :: "'k \<Rightarrow> 'v \<Rightarrow> 'm \<Rightarrow> 'v option \<times> 'm"
    and rem :: "'k \<Rightarrow> 'm \<Rightarrow> 'v option \<times> 'm"
    and keys :: "'m \<Rightarrow> 'k list"
    and ok :: "'m \<Rightarrow> bool"
  assumes ins_old: "fst (ins k v m) = get m k"
    and ins_get: "get (snd (ins k v m)) = (get m)(k \<mapsto> v)"
    and rem_old: "fst (rem k m) = get m k"
    and rem_get: "get (snd (rem k m)) = (get m)(k := None)"
    and ok_ins: "ok m \<Longrightarrow> ok (snd (ins k v m))"
    and ok_rem: "ok m \<Longrightarrow> ok (snd (rem k m))"
    and keys_dom: "set (keys m) = dom (get m)"
    and keys_distinct: "ok m \<Longrightarrow> distinct (keys m)"
begin

lemma ins_restore:
  assumes "get m k = Some old"
  shows "get (snd (ins k old (snd (ins k v m)))) = get m"
  using assms by (auto simp: ins_get)

lemma rem_restore:
  assumes "get m k = Some old"
  shows "get (snd (ins k old (snd (rem k m)))) = get m"
  using assms by (auto simp: ins_get rem_get)

lemma rem_absent:
  assumes "get m k = None"
  shows "get (snd (rem k m)) = get m"
  using assms by (auto simp: rem_get)

lemma rem_same: "get (snd (rem k m)) k = None"
  by (simp add: rem_get)

lemma len_card: "ok m \<Longrightarrow> length (keys m) = card (dom (get m))"
  using keys_distinct keys_dom distinct_card by metis

end

lemma map_of_alist_update [simp]: "map_of (AList.update k v m) = (map_of m)(k \<mapsto> v)"
  by (rule update_conv')

lemma map_of_alist_delete [simp]: "map_of (AList.delete k m) = (map_of m)(k := None)"
  by (rule delete_conv')

lemma hm_get_map_of: "hm_get m = map_of m"
  by (simp add: hm_get_def fun_eq_iff)

interpretation hm: hash_map hm_get hm_insert hm_remove hm_keys hm_ok
proof unfold_locales
  fix m :: "('a, 'b) hmap"
  show "set (hm_keys m) = dom (hm_get m)"
    by (simp add: hm_keys_def hm_get_map_of dom_map_of_conv_image_fst)
qed (auto simp: hm_get_def hm_insert_def hm_remove_def hm_keys_def hm_ok_def fun_eq_iff
       distinct_update distinct_delete)

lemma hm_insert_fst [simp]: "fst (hm_insert k v m) = hm_get m k"
  by (rule hm.ins_old)

lemma hm_insert_snd [simp]: "hm_get (snd (hm_insert k v m)) = (hm_get m)(k \<mapsto> v)"
  by (rule hm.ins_get)

lemma hm_remove_fst [simp]: "fst (hm_remove k m) = hm_get m k"
  by (rule hm.rem_old)

lemma hm_remove_snd [simp]: "hm_get (snd (hm_remove k m)) = (hm_get m)(k := None)"
  by (rule hm.rem_get)

lemma hm_get_Nil [simp]: "hm_get [] k = None"
  by (simp add: hm_get_def)

lemma hm_ok_Nil [simp]: "hm_ok []"
  by (simp add: hm_ok_def)

lemma hm_contains_iff [simp]: "hm_contains m k \<longleftrightarrow> hm_get m k \<noteq> None"
  by (simp add: hm_contains_def hm_get_def)

lemma hm_len_card: "hm_ok m \<Longrightarrow> hm_len m = card (dom (hm_get m))"
  using hm.len_card [of m] by (simp add: hm_len_def hm_keys_def)

lemma hm_get_entry: "hm_ok m \<Longrightarrow> (k, v) \<in> set m \<longleftrightarrow> hm_get m k = Some v"
  by (simp add: hm_ok_def hm_get_def)

text \<open>\<^verbatim>\<open>HashSet\<close>: a list without repetitions; insertion and removal by value.\<close>

definition hs_insert :: "'a \<Rightarrow> 'a list \<Rightarrow> 'a list" where
  "hs_insert x xs = (if x \<in> set xs then xs else xs @ [x])"

definition hs_remove :: "'a \<Rightarrow> 'a list \<Rightarrow> 'a list" where
  "hs_remove x xs = removeAll x xs"

lemma set_hs_insert [simp]: "set (hs_insert x xs) = insert x (set xs)"
  by (auto simp: hs_insert_def)

lemma set_hs_remove [simp]: "set (hs_remove x xs) = set xs - {x}"
  by (simp add: hs_remove_def)

lemma distinct_hs [simp]:
  "distinct xs \<Longrightarrow> distinct (hs_insert x xs)"
  "distinct xs \<Longrightarrow> distinct (hs_remove x xs)"
  by (auto simp: hs_insert_def hs_remove_def distinct_removeAll)

section \<open>Iterator and string helpers\<close>

text \<open>\<^verbatim>\<open>Iterator::find_map\<close> and \<^verbatim>\<open>str::rfind\<close>, \<^verbatim>\<open>str::starts_with\<close>, \<^verbatim>\<open>str::ends_with\<close> for one character.\<close>

fun find_map :: "('a \<Rightarrow> 'b option) \<Rightarrow> 'a list \<Rightarrow> 'b option" where
  "find_map f [] = None"
| "find_map f (x # xs) = (case f x of Some y \<Rightarrow> Some y | None \<Rightarrow> find_map f xs)"

fun rfind :: "char \<Rightarrow> string \<Rightarrow> nat option" where
  "rfind c [] = None"
| "rfind c (x # xs) =
     (case rfind c xs of Some i \<Rightarrow> Some (Suc i) | None \<Rightarrow> if x = c then Some 0 else None)"

definition starts_with :: "string \<Rightarrow> string \<Rightarrow> bool" where
  "starts_with s p = (take (length p) s = p)"

definition ends_with_char :: "string \<Rightarrow> char \<Rightarrow> bool" where
  "ends_with_char s c = (s \<noteq> [] \<and> last s = c)"

text \<open>\<^verbatim>\<open>str::split\<close> on a separator character: always at least one piece.\<close>

fun split_on :: "char \<Rightarrow> string \<Rightarrow> string list" where
  "split_on c [] = [[]]"
| "split_on c (x # xs) =
     (if x = c then [] # split_on c xs
      else case split_on c xs of [] \<Rightarrow> [[x]] | p # ps \<Rightarrow> (x # p) # ps)"

text \<open>\<^verbatim>\<open>{}\<close> of an unsigned integer: its decimal digits.\<close>

fun show_nat :: "nat \<Rightarrow> string" where
  "show_nat n = (if n < 10 then [char_of (48 + n)] else show_nat (n div 10) @ [char_of (48 + n mod 10)])"

declare show_nat.simps [simp del]

lemma find_map_None: "find_map f xs = None \<longleftrightarrow> (\<forall>x \<in> set xs. f x = None)"
  by (induction xs) (auto split: option.splits)

lemma find_map_SomeD:
  "find_map f xs = Some y \<Longrightarrow>
     \<exists>us x vs. xs = us @ x # vs \<and> f x = Some y \<and> (\<forall>u \<in> set us. f u = None)"
proof (induction xs)
  case (Cons a xs)
  show ?case
  proof (cases "f a")
    case None
    with Cons obtain us x vs where
      "xs = us @ x # vs" "f x = Some y" "\<forall>u \<in> set us. f u = None"
      by auto
    with None show ?thesis
      by (intro exI [of _ "a # us"] exI [of _ x] exI [of _ vs]) auto
  next
    case (Some z)
    with Cons.prems have "a # xs = [] @ a # xs \<and> f a = Some y \<and> (\<forall>u \<in> set []. f u = None)"
      by simp
    then show ?thesis by blast
  qed
qed simp

lemma rfind_None: "rfind c s = None \<longleftrightarrow> c \<notin> set s"
  by (induction s) (auto split: option.splits)

lemma rfind_SomeD: "rfind c s = Some i \<Longrightarrow> \<exists>t. s = take i s @ c # t \<and> c \<notin> set t \<and> i < length s"
proof (induction s arbitrary: i)
  case (Cons x xs)
  show ?case
  proof (cases "rfind c xs")
    case None
    with Cons.prems have "x = c" "i = 0" by (auto split: if_splits)
    with None show ?thesis by (auto simp: rfind_None)
  next
    case (Some j)
    with Cons show ?thesis by auto
  qed
qed simp

lemma rfind_less: "rfind c s = Some i \<Longrightarrow> i < length s"
  by (auto dest: rfind_SomeD)

lemma split_on_not_Nil [simp]: "split_on c s \<noteq> []"
  by (cases s) (auto split: list.splits)

lemma starts_with_iff: "starts_with s p \<longleftrightarrow> (\<exists>r. s = p @ r)"
  by (metis append_eq_conv_conj append_take_drop_id starts_with_def)

end
