(* ===== verification/PrefixBag.thy ===== *)
theory PrefixBag
  imports Prelude
begin

text \<open>
  \<^verbatim>\<open>crates/util/src/lib.rs\<close>: the iterator \<^verbatim>\<open>RevPrefixes\<close> and the container
  \<^verbatim>\<open>PrefixLookupBag\<close> that both routers use to find the handler of a service address.

  The iterator's state is the rest of the string still to be reported. A lookup walks it and
  stops at the first prefix that is a key. The contract \<open>prefix_lookup\<close> says what the routers
  rely on: a lookup finds the longest registered address that is the looked-up one or one of
  its ancestors in the \<^verbatim>\<open>/\<close>-separated hierarchy.
\<close>

section \<open>RevPrefixes\<close>

text \<open>\<^verbatim>\<open>RevPrefixes::next\<close>: the item reported, if any, and the iterator's next state.\<close>

definition rev_prefixes_next :: "string \<Rightarrow> string option \<times> string" where
  "rev_prefixes_next cv =
     (if cv = [] then (None, cv)
      else case rfind (CHR ''/'') cv of
             Some sep_pos \<Rightarrow> (Some cv, take sep_pos cv)
           | None \<Rightarrow> (Some cv, []))"

lemma rev_prefixes_next_shorter:
  "rev_prefixes_next cv = (Some x, rest) \<Longrightarrow> length rest < length cv"
  by (auto simp: rev_prefixes_next_def dest: rfind_less split: if_splits option.splits)

text \<open>Everything the iterator reports, in order (\<^verbatim>\<open>RevPrefixes(key)\<close> driven to its end).\<close>

function RevPrefixes :: "string \<Rightarrow> string list" where
  "RevPrefixes s = (case rev_prefixes_next s of (None, _) \<Rightarrow> [] | (Some x, r) \<Rightarrow> x # RevPrefixes r)"
  by pat_completeness auto
termination
  by (relation "measure length") (auto dest!: sym [of "(Some _, _)"] rev_prefixes_next_shorter)

declare RevPrefixes.simps [simp del]

section \<open>PrefixLookupBag\<close>

record 'v prefix_lookup_bag =
  dict :: "(string, 'v) hmap"

definition pb_default :: "'v prefix_lookup_bag" where
  "pb_default = \<lparr>dict = []\<rparr>"

definition pb_get :: "'v prefix_lookup_bag \<Rightarrow> string \<Rightarrow> 'v option" where
  "pb_get b key = find_map (\<lambda>k. hm_get (dict b) k) (RevPrefixes key)"

definition pb_keys :: "'v prefix_lookup_bag \<Rightarrow> string list" where
  "pb_keys b = hm_keys (dict b)"

text \<open>\<^verbatim>\<open>get_mut\<close> first finds the key, then borrows the value stored under it: both are returned.\<close>

definition pb_get_mut :: "'v prefix_lookup_bag \<Rightarrow> string \<Rightarrow> (string \<times> 'v) option" where
  "pb_get_mut b key =
     (case find (\<lambda>k. hm_contains (dict b) k) (RevPrefixes key) of
        Some k \<Rightarrow> map_option (Pair k) (hm_get (dict b) k)
      | None \<Rightarrow> None)"

definition pb_insert :: "string \<Rightarrow> 'v \<Rightarrow> 'v prefix_lookup_bag \<Rightarrow> 'v option \<times> 'v prefix_lookup_bag" where
  "pb_insert key v b =
     (let (old, d) = hm_insert key v (dict b) in (old, b\<lparr>dict := d\<rparr>))"

text \<open>\<^verbatim>\<open>entry\<close>: the key at which the entry lies and the value it holds, if it is occupied.\<close>

definition pb_entry :: "'v prefix_lookup_bag \<Rightarrow> string \<Rightarrow> string \<times> 'v option" where
  "pb_entry b key =
     (case find (\<lambda>k. hm_contains (dict b) k) (RevPrefixes key) of
        Some k \<Rightarrow> (k, hm_get (dict b) k)
      | None \<Rightarrow> (key, hm_get (dict b) key))"

definition pb_remove :: "string \<Rightarrow> 'v prefix_lookup_bag \<Rightarrow> 'v option \<times> 'v prefix_lookup_bag" where
  "pb_remove key b =
     (let (old, d) = hm_remove key (dict b) in (old, b\<lparr>dict := d\<rparr>))"

definition pb_len :: "'v prefix_lookup_bag \<Rightarrow> nat" where
  "pb_len b = hm_len (dict b)"

definition pb_is_empty :: "'v prefix_lookup_bag \<Rightarrow> bool" where
  "pb_is_empty b = (dict b = [])"

section \<open>The addresses a lookup considers\<close>

text \<open>\<open>ancestor p k\<close>: \<open>p\<close> is \<open>k\<close> or \<open>k\<close> continues \<open>p\<close> after a separator; the empty
  string is no address.\<close>

definition ancestor :: "string \<Rightarrow> string \<Rightarrow> bool" where
  "ancestor p k \<longleftrightarrow> p \<noteq> [] \<and> (p = k \<or> (\<exists>r. k = p @ CHR ''/'' # r))"

lemma RevPrefixes_Nil [simp]: "RevPrefixes [] = []"
  by (simp add: RevPrefixes.simps [of "[]"] rev_prefixes_next_def)

lemma RevPrefixes_no_sep:
  "s \<noteq> [] \<Longrightarrow> rfind (CHR ''/'') s = None \<Longrightarrow> RevPrefixes s = [s]"
  by (simp add: RevPrefixes.simps [of s] rev_prefixes_next_def)

lemma RevPrefixes_sep:
  "s \<noteq> [] \<Longrightarrow> rfind (CHR ''/'') s = Some i \<Longrightarrow> RevPrefixes s = s # RevPrefixes (take i s)"
  by (simp add: RevPrefixes.simps [of s] rev_prefixes_next_def)

text \<open>A segment prefix of a string whose last separator is at \<open>i\<close> is the string itself or a
  segment prefix of what stands before that separator.\<close>

lemma append_sep_cases:
  assumes "u @ c # t = p @ c # r" and "c \<notin> set t"
  shows "u = p \<or> (\<exists>r'. u = p @ c # r')"
  using assms by (auto simp: append_eq_append_conv2 Cons_eq_append_conv append_eq_Cons_conv)

lemma ancestor_snoc_segment:
  assumes "CHR ''/'' \<notin> set t"
  shows "ancestor p (u @ CHR ''/'' # t) \<longleftrightarrow> p = u @ CHR ''/'' # t \<or> ancestor p u"
proof
  assume "ancestor p (u @ CHR ''/'' # t)"
  then show "p = u @ CHR ''/'' # t \<or> ancestor p u"
    using append_sep_cases [of u "CHR ''/''" t p] assms by (auto simp: ancestor_def)
qed (auto simp: ancestor_def)

lemma ancestor_step:
  assumes "rfind (CHR ''/'') s = Some i"
  shows "ancestor p s \<longleftrightarrow> p = s \<or> ancestor p (take i s)"
  using rfind_SomeD [OF assms] ancestor_snoc_segment [of _ p "take i s"] by metis

lemma ancestor_no_sep:
  "rfind (CHR ''/'') s = None \<Longrightarrow> ancestor p s \<longleftrightarrow> s \<noteq> [] \<and> p = s"
  by (auto simp: ancestor_def rfind_None)

lemma set_RevPrefixes: "set (RevPrefixes s) = {p. ancestor p s}"
proof (induction s rule: length_induct)
  case (1 s)
  show ?case
  proof (cases "s = []")
    case True
    then show ?thesis by (simp add: ancestor_def)
  next
    case False
    show ?thesis
    proof (cases "rfind (CHR ''/'') s")
      case None
      with False show ?thesis by (auto simp: RevPrefixes_no_sep ancestor_no_sep)
    next
      case (Some i)
      have "set (RevPrefixes (take i s)) = {p. ancestor p (take i s)}"
        using 1 Some by (auto dest: rfind_less)
      with False Some show ?thesis
        by (auto simp: RevPrefixes_sep ancestor_step)
    qed
  qed
qed

text \<open>The prefixes come longest first.\<close>

lemma RevPrefixes_lengths: "sorted_wrt (\<lambda>a b. length a > length b) (RevPrefixes s)"
proof (induction s rule: length_induct)
  case (1 s)
  show ?case
  proof (cases "s = [] \<or> rfind (CHR ''/'') s = None")
    case True
    then show ?thesis by (cases "s = []") (auto simp: RevPrefixes_no_sep)
  next
    case False
    then obtain i where i: "rfind (CHR ''/'') s = Some i" and ne: "s \<noteq> []" by auto
    have less: "i < length s" using i by (rule rfind_less)
    have "sorted_wrt (\<lambda>a b. length a > length b) (RevPrefixes (take i s))"
      using 1 less by simp
    moreover have "\<forall>p \<in> set (RevPrefixes (take i s)). length p < length s"
      using less by (auto simp: set_RevPrefixes ancestor_def dest: arg_cong [of _ _ length])
    ultimately show ?thesis by (simp add: RevPrefixes_sep [OF ne i])
  qed
qed

section \<open>The lookup contract\<close>

text \<open>
  What a client of the bag relies on: the bag maps addresses to values (\<open>content\<close>), updates
  change one address, and a lookup returns the value of the longest registered ancestor.
\<close>

definition longest_match :: "(string \<rightharpoonup> 'v) \<Rightarrow> string \<Rightarrow> string \<Rightarrow> bool" where
  "longest_match M k p \<longleftrightarrow>
     ancestor p k \<and> M p \<noteq> None \<and> (\<forall>q. ancestor q k \<and> M q \<noteq> None \<longrightarrow> length q \<le> length p)"

locale prefix_lookup =
  fixes content :: "'b \<Rightarrow> string \<Rightarrow> 'v option"
    and lookup :: "'b \<Rightarrow> string \<Rightarrow> 'v option"
    and ins :: "string \<Rightarrow> 'v \<Rightarrow> 'b \<Rightarrow> 'v option \<times> 'b"
    and rem :: "string \<Rightarrow> 'b \<Rightarrow> 'v option \<times> 'b"
  assumes ins_old: "fst (ins k v b) = content b k"
    and ins_content: "content (snd (ins k v b)) = (content b)(k \<mapsto> v)"
    and rem_old: "fst (rem k b) = content b k"
    and rem_content: "content (snd (rem k b)) = (content b)(k := None)"
    and lookup_longest: "lookup b k = Some v \<longleftrightarrow> (\<exists>p. longest_match (content b) k p \<and> content b p = Some v)"
begin

lemma lookup_cong: "content b = content b' \<Longrightarrow> lookup b k = lookup b' k"
  by (metis lookup_longest not_Some_eq)

lemma lookup_exact: "k \<noteq> [] \<Longrightarrow> content b k = Some v \<Longrightarrow> lookup b k = Some v"
proof -
  assume "k \<noteq> []" and v: "content b k = Some v"
  then have "longest_match (content b) k k"
    by (auto simp: longest_match_def ancestor_def)
  with v show ?thesis using lookup_longest by blast
qed

lemma lookup_after_ins: "k \<noteq> [] \<Longrightarrow> lookup (snd (ins k v b)) k = Some v"
  by (rule lookup_exact) (simp_all add: ins_content)

lemma lookup_child: 
  assumes "k \<noteq> []" and "content b k = Some v"
    and "\<And>q. ancestor q (k @ CHR ''/'' # r) \<Longrightarrow> length q > length k \<Longrightarrow> content b q = None"
  shows "lookup b (k @ CHR ''/'' # r) = Some v"
proof -
  have "ancestor k (k @ CHR ''/'' # r)" using assms(1) by (simp add: ancestor_def)
  moreover have "length q \<le> length k"
    if "ancestor q (k @ CHR ''/'' # r)" and "content b q \<noteq> None" for q
    using that assms(3) [of q] by (metis not_le)
  ultimately have "longest_match (content b) (k @ CHR ''/'' # r) k"
    using assms(2) by (simp add: longest_match_def)
  with assms(2) show ?thesis using lookup_longest by blast
qed

lemma lookup_None: "lookup b k = None \<longleftrightarrow> (\<forall>p. ancestor p k \<longrightarrow> content b p = None)"
proof
  assume none: "lookup b k = None"
  show "\<forall>p. ancestor p k \<longrightarrow> content b p = None"
  proof (rule ccontr)
    assume "\<not> ?thesis"
    then obtain p where p: "ancestor p k \<and> content b p \<noteq> None" by auto
    let ?P = "\<lambda>q. ancestor q k \<and> content b q \<noteq> None"
    have bound: "\<forall>q. ?P q \<longrightarrow> length q < Suc (length k)"
      by (auto simp: ancestor_def)
    obtain m where "?P m" and "\<forall>q. ?P q \<longrightarrow> length q \<le> length m"
      using ex_has_greatest_nat [of ?P, OF p bound] by (elim exE conjE) (rule that, auto)
    then have "longest_match (content b) k m" and "content b m \<noteq> None"
      by (auto simp: longest_match_def)
    with none lookup_longest show False by (metis not_None_eq)
  qed
next
  assume "\<forall>p. ancestor p k \<longrightarrow> content b p = None"
  then show "lookup b k = None"
    by (metis longest_match_def lookup_longest not_None_eq)
qed

end

text \<open>The first hit of the search is the longest one.\<close>

lemma pb_get_longest:
  "pb_get b k = Some v \<longleftrightarrow> (\<exists>p. longest_match (hm_get (dict b)) k p \<and> hm_get (dict b) p = Some v)"
  (is "?L \<longleftrightarrow> ?R")
proof
  assume ?L
  then obtain us p vs where split: "RevPrefixes k = us @ p # vs"
    and p: "hm_get (dict b) p = Some v" and us: "\<forall>u \<in> set us. hm_get (dict b) u = None"
    unfolding pb_get_def by (auto dest!: find_map_SomeD)
  have anc: "ancestor q k \<longleftrightarrow> q \<in> set us \<or> q = p \<or> q \<in> set vs" for q
    using set_RevPrefixes [of k] split by auto
  have "\<forall>q \<in> set vs. length q < length p"
    using RevPrefixes_lengths [of k] split by (simp add: sorted_wrt_append)
  then have "longest_match (hm_get (dict b)) k p"
    using p us anc by (auto simp: longest_match_def less_imp_le)
  with p show ?R by blast
next
  assume ?R
  then obtain p where p: "longest_match (hm_get (dict b)) k p" "hm_get (dict b) p = Some v" by blast
  then have "p \<in> set (RevPrefixes k)" by (simp add: set_RevPrefixes longest_match_def)
  with p(2) have "find_map (hm_get (dict b)) (RevPrefixes k) \<noteq> None"
    by (auto simp: find_map_None)
  then obtain us q vs w where split: "RevPrefixes k = us @ q # vs"
    and q: "hm_get (dict b) q = Some w" and us: "\<forall>u \<in> set us. hm_get (dict b) u = None"
    and w: "find_map (hm_get (dict b)) (RevPrefixes k) = Some w"
    using find_map_SomeD by fastforce
  have "ancestor q k" using set_RevPrefixes [of k] split by auto
  moreover have "length q \<le> length p"
    using p(1) q \<open>ancestor q k\<close> by (auto simp: longest_match_def)
  moreover have "p = q \<or> p \<in> set vs"
    using p us split \<open>p \<in> set (RevPrefixes k)\<close> by auto
  moreover have "\<forall>x \<in> set vs. length x < length q"
    using RevPrefixes_lengths [of k] split by (simp add: sorted_wrt_append)
  ultimately have "p = q" by (meson leD)
  with q w p show ?L by (simp add: pb_get_def)
qed

definition pb_content :: "'v prefix_lookup_bag \<Rightarrow> string \<Rightarrow> 'v option" where
  "pb_content b = hm_get (dict b)"

interpretation pb: prefix_lookup pb_content pb_get pb_insert pb_remove
proof unfold_locales
  fix b :: "'a prefix_lookup_bag" and k v
  show "pb_get b k = Some v \<longleftrightarrow> (\<exists>p. longest_match (pb_content b) k p \<and> pb_content b p = Some v)"
    by (simp add: pb_get_longest pb_content_def)
qed (simp_all add: pb_content_def pb_insert_def pb_remove_def split_beta)

lemmas pb_laws [simp] = pb.ins_old pb.ins_content pb.rem_old pb.rem_content

lemma pb_content_default [simp]: "pb_content pb_default = (\<lambda>_. None)"
  by (simp add: pb_content_def pb_default_def fun_eq_iff)

lemma find_find_map:
  "find_map f xs = (case find (\<lambda>x. f x \<noteq> None) xs of Some x \<Rightarrow> f x | None \<Rightarrow> None)"
  by (induction xs) (auto split: option.splits)

definition pb_ok :: "'v prefix_lookup_bag \<Rightarrow> bool" where
  "pb_ok b = hm_ok (dict b)"

lemma pb_ok_ops [simp]:
  "pb_ok pb_default"
  "pb_ok b \<Longrightarrow> pb_ok (snd (pb_insert k v b))"
  "pb_ok b \<Longrightarrow> pb_ok (snd (pb_remove k b))"
  by (simp_all add: pb_ok_def pb_default_def pb_insert_def pb_remove_def split_beta hm.ok_ins hm.ok_rem)

section \<open>Properties\<close>

text \<open>
  C4. A lookup in the bag returns the value of the longest registered address that is the
  looked-up one or an ancestor of it in the \<^verbatim>\<open>/\<close> hierarchy, and nothing exactly when no
  ancestor is registered.
\<close>

theorem pb_get_longest_prefix:
  "(pb_get b k = Some v \<longleftrightarrow> (\<exists>p. longest_match (pb_content b) k p \<and> pb_content b p = Some v))
   \<and> (pb_get b k = None \<longleftrightarrow> (\<forall>p. \<not> (ancestor p k \<and> pb_content b p \<noteq> None)))"
proof
  show "pb_get b k = Some v \<longleftrightarrow> (\<exists>p. longest_match (pb_content b) k p \<and> pb_content b p = Some v)"
    by (rule pb.lookup_longest)
  show "pb_get b k = None \<longleftrightarrow> (\<forall>p. \<not> (ancestor p k \<and> pb_content b p \<noteq> None))"
    by (simp add: pb.lookup_None)
qed

text \<open>
  \<^verbatim>\<open>get\<close>, \<^verbatim>\<open>get_mut\<close> and \<^verbatim>\<open>entry\<close> agree: \<^verbatim>\<open>get_mut\<close> borrows exactly the value that
  \<^verbatim>\<open>get\<close> returns, and the entry of a key is the one \<^verbatim>\<open>get\<close> found, or a vacant one at the key
  itself when \<^verbatim>\<open>get\<close> finds nothing and the key is an address.
\<close>

lemma pb_lookups_agree:
  "map_option snd (pb_get_mut b k) = pb_get b k
   \<and> (k = [] \<or> pb_entry b k =
        (case pb_get_mut b k of Some (p, v) \<Rightarrow> (p, Some v) | None \<Rightarrow> (k, None)))"
proof (cases "find (\<lambda>x. hm_contains (dict b) x) (RevPrefixes k)")
  case None
  then have "\<forall>p. ancestor p k \<longrightarrow> hm_get (dict b) p = None"
    by (auto simp: find_None_iff set_RevPrefixes)
  then have "k = [] \<or> hm_get (dict b) k = None" by (auto simp: ancestor_def)
  with None show ?thesis
    by (auto simp: pb_get_def pb_get_mut_def pb_entry_def find_find_map hm_contains_iff [abs_def])
next
  case (Some p)
  then obtain v where "hm_get (dict b) p = Some v" by (auto simp: find_Some_iff)
  with Some show ?thesis
    by (auto simp: pb_get_def pb_get_mut_def pb_entry_def find_find_map hm_contains_iff [abs_def])
qed

end
