(* ===== verification/Proto.thy ===== *)
theory Proto
  imports Prelude
begin

text \<open>
  The messages of the bus (\<^verbatim>\<open>crates/proto/protos/gsb_api.proto\<close>) and the conversions of
  \<^verbatim>\<open>crates/proto/src/lib.rs\<close>. An enumeration field of a message is kept as the 32-bit number
  that travels on the wire, as the generated Rust structs do; \<open>code_*\<close> are the numbers of the
  enumeration's values, the \<^verbatim>\<open>TryFrom<i32>\<close> conversions read them back. Field names carry
  a prefix per message, since several messages share names.
\<close>

section \<open>Enumerations\<close>

datatype RegisterReplyCode = RegisteredOk | RegisterBadRequest | RegisterConflict
datatype UnregisterReplyCode = UnregisteredOk | NotRegistered
datatype CallReplyCode = CallReplyOk | CallReplyBadRequest | ServiceFailure
datatype CallReplyType = Full | Partial
datatype SubscribeReplyCode = SubscribedOk | SubscribeBadRequest
datatype UnsubscribeReplyCode = UnsubscribedOk | NotSubscribed
datatype BroadcastReplyCode = BroadcastOk | BroadcastBadRequest

fun code_register :: "RegisterReplyCode \<Rightarrow> i32" where
  "code_register RegisteredOk = 0"
| "code_register RegisterBadRequest = 400"
| "code_register RegisterConflict = 409"

fun code_unregister :: "UnregisterReplyCode \<Rightarrow> i32" where
  "code_unregister UnregisteredOk = 0"
| "code_unregister NotRegistered = 404"

fun code_call :: "CallReplyCode \<Rightarrow> i32" where
  "code_call CallReplyOk = 0"
| "code_call CallReplyBadRequest = 400"
| "code_call ServiceFailure = 500"

fun code_reply_type :: "CallReplyType \<Rightarrow> i32" where
  "code_reply_type Full = 0"
| "code_reply_type Partial = 1"

fun code_subscribe :: "SubscribeReplyCode \<Rightarrow> i32" where
  "code_subscribe SubscribedOk = 0"
| "code_subscribe SubscribeBadRequest = 400"

fun code_unsubscribe :: "UnsubscribeReplyCode \<Rightarrow> i32" where
  "code_unsubscribe UnsubscribedOk = 0"
| "code_unsubscribe NotSubscribed = 404"

fun code_broadcast :: "BroadcastReplyCode \<Rightarrow> i32" where
  "code_broadcast BroadcastOk = 0"
| "code_broadcast BroadcastBadRequest = 400"

section \<open>Messages\<close>

record register_request =
  rrq_service_id :: string

record register_reply =
  rrp_code :: i32
  rrp_message :: string

record unregister_request =
  urq_service_id :: string

record unregister_reply =
  urp_code :: i32

record call_request =
  crq_caller :: string
  crq_address :: string
  crq_request_id :: string
  crq_data :: bytes
  crq_no_reply :: bool

record call_reply =
  crp_request_id :: string
  crp_code :: i32
  crp_reply_type :: i32
  crp_data :: bytes

record subscribe_request =
  srq_topic :: string

record subscribe_reply =
  srp_code :: i32
  srp_message :: string

record unsubscribe_request =
  usrq_topic :: string

record unsubscribe_reply =
  usrp_code :: i32

record broadcast_request =
  brq_caller :: string
  brq_data :: bytes
  brq_topic :: string

record broadcast_reply =
  brp_code :: i32
  brp_message :: string

record hello =
  hl_name :: string
  hl_version :: string
  hl_instance_id :: bytes

text \<open>\<^verbatim>\<open>GsbMessage\<close> is the \<^verbatim>\<open>oneof\<close> of a packet.\<close>

datatype gsb_message =
    Hello hello
  | RegisterRequest register_request
  | RegisterReply register_reply
  | UnregisterRequest unregister_request
  | UnregisterReply unregister_reply
  | CallRequest call_request
  | CallReply call_reply
  | SubscribeRequest subscribe_request
  | SubscribeReply subscribe_reply
  | UnsubscribeRequest unsubscribe_request
  | UnsubscribeReply unsubscribe_reply
  | BroadcastRequest broadcast_request
  | BroadcastReply broadcast_reply
  | Ping
  | Pong

text \<open>\<^verbatim>\<open>Default::default()\<close> of the messages the sources build that way: every field zero or empty.\<close>

definition default_register_reply :: register_reply where
  "default_register_reply = \<lparr>rrp_code = 0, rrp_message = []\<rparr>"

definition default_unregister_reply :: unregister_reply where
  "default_unregister_reply = \<lparr>urp_code = 0\<rparr>"

definition default_call_reply :: call_reply where
  "default_call_reply = \<lparr>crp_request_id = [], crp_code = 0, crp_reply_type = 0, crp_data = []\<rparr>"

definition default_subscribe_reply :: subscribe_reply where
  "default_subscribe_reply = \<lparr>srp_code = 0, srp_message = []\<rparr>"

definition default_unsubscribe_reply :: unsubscribe_reply where
  "default_unsubscribe_reply = \<lparr>usrp_code = 0\<rparr>"

definition default_broadcast_reply :: broadcast_reply where
  "default_broadcast_reply = \<lparr>brp_code = 0, brp_message = []\<rparr>"

section \<open>Conversions from numbers\<close>

text \<open>\<^verbatim>\<open>EnumError(value)\<close>\<close>

datatype enum_error = EnumError i32

definition try_from_call_reply_code :: "i32 \<Rightarrow> enum_error + CallReplyCode" where
  "try_from_call_reply_code value =
     (if value = 0 then Inr CallReplyOk
      else if value = 400 then Inr CallReplyBadRequest
      else if value = 500 then Inr ServiceFailure
      else Inl (EnumError value))"

definition try_from_call_reply_type :: "i32 \<Rightarrow> enum_error + CallReplyType" where
  "try_from_call_reply_type value =
     (if value = 0 then Inr Full
      else if value = 1 then Inr Partial
      else Inl (EnumError value))"

text \<open>
  The getter \<^verbatim>\<open>reply_type()\<close> of the generated \<^verbatim>\<open>CallReply\<close>: the enumeration's value, or its
  first one when the number names none (the proto3 rule for enumeration getters).
\<close>

definition get_reply_type :: "call_reply \<Rightarrow> CallReplyType" where
  "get_reply_type r = (if crp_reply_type r = 1 then Partial else Full)"

text \<open>The numeric conversions of the client side (\<^verbatim>\<open>src/connection.rs\<close>).\<close>

definition register_reply_code :: "i32 \<Rightarrow> RegisterReplyCode option" where
  "register_reply_code code =
     (if code = 0 then Some RegisteredOk
      else if code = 400 then Some RegisterBadRequest
      else if code = 409 then Some RegisterConflict
      else None)"

definition unregister_reply_code :: "i32 \<Rightarrow> UnregisterReplyCode option" where
  "unregister_reply_code code =
     (if code = 0 then Some UnregisteredOk
      else if code = 404 then Some NotRegistered
      else None)"

definition subscribe_reply_code :: "i32 \<Rightarrow> SubscribeReplyCode option" where
  "subscribe_reply_code code =
     (if code = 0 then Some SubscribedOk
      else if code = 400 then Some SubscribeBadRequest
      else None)"

definition unsubscribe_reply_code :: "i32 \<Rightarrow> UnsubscribeReplyCode option" where
  "unsubscribe_reply_code code =
     (if code = 0 then Some UnsubscribedOk
      else if code = 404 then Some NotSubscribed
      else None)"

definition broadcast_reply_code :: "i32 \<Rightarrow> BroadcastReplyCode option" where
  "broadcast_reply_code code =
     (if code = 0 then Some BroadcastOk
      else if code = 400 then Some BroadcastBadRequest
      else None)"

lemmas reply_code_defs =
  try_from_call_reply_code_def try_from_call_reply_type_def register_reply_code_def
  unregister_reply_code_def subscribe_reply_code_def unsubscribe_reply_code_def
  broadcast_reply_code_def

section \<open>Properties\<close>

text \<open>
  The contract of a reply code: a partial reader that inverts the numbering and accepts
  nothing else.
\<close>

locale wire_enum =
  fixes code :: "'e \<Rightarrow> i32"
    and decode :: "i32 \<Rightarrow> 'e option"
  assumes decode_code: "decode (code e) = Some e"
    and decode_sound: "decode n = Some e \<Longrightarrow> code e = n"
begin

lemma decode_iff: "decode n = Some e \<longleftrightarrow> code e = n"
  using decode_code decode_sound by blast

lemma code_inj: "code a = code b \<Longrightarrow> a = b"
  by (metis decode_code option.inject)

end

definition to_option :: "'e + 'a \<Rightarrow> 'a option" where
  "to_option r = (case r of Inl _ \<Rightarrow> None | Inr x \<Rightarrow> Some x)"

interpretation register_code: wire_enum code_register register_reply_code
  by unfold_locales (case_tac e; auto simp: reply_code_defs split: if_splits)+

interpretation unregister_code: wire_enum code_unregister unregister_reply_code
  by unfold_locales (case_tac e; auto simp: reply_code_defs split: if_splits)+

interpretation subscribe_code: wire_enum code_subscribe subscribe_reply_code
  by unfold_locales (case_tac e; auto simp: reply_code_defs split: if_splits)+

interpretation unsubscribe_code: wire_enum code_unsubscribe unsubscribe_reply_code
  by unfold_locales (case_tac e; auto simp: reply_code_defs split: if_splits)+

interpretation broadcast_code: wire_enum code_broadcast broadcast_reply_code
  by unfold_locales (case_tac e; auto simp: reply_code_defs split: if_splits)+

interpretation call_code: wire_enum code_call "\<lambda>n. to_option (try_from_call_reply_code n)"
  by unfold_locales (case_tac e; auto simp: reply_code_defs to_option_def split: if_splits)+

interpretation reply_type: wire_enum code_reply_type "\<lambda>n. to_option (try_from_call_reply_type n)"
  by unfold_locales (case_tac e; auto simp: reply_code_defs to_option_def split: if_splits)+

lemma get_reply_type_code [simp]:
  "crp_reply_type r = code_reply_type t \<Longrightarrow> get_reply_type r = t"
  by (cases t) (auto simp: get_reply_type_def)

end
