(* ===== verification/Config.thy ===== *)
theory Config
  imports Proto
begin

text \<open>
  \<^verbatim>\<open>crates/router/src/config.rs\<close> and the configuration part of \<^verbatim>\<open>router.rs\<close>
  (\<^verbatim>\<open>InstanceConfig\<close>). A \<^verbatim>\<open>Duration\<close> is its number of nanoseconds, linearly ordered;
  division by an integer truncates, as the standard library's does. The environment is an
  argument.
\<close>

section \<open>Durations\<close>

datatype duration = Nanos (nanos: nat)

instantiation duration :: linorder
begin

definition less_eq_duration :: "duration \<Rightarrow> duration \<Rightarrow> bool" where
  "less_eq_duration a b = (nanos a \<le> nanos b)"

definition less_duration :: "duration \<Rightarrow> duration \<Rightarrow> bool" where
  "less_duration a b = (nanos a < nanos b)"

instance
  by standard (auto simp: less_eq_duration_def less_duration_def intro: duration.expand)

end

definition from_secs :: "nat \<Rightarrow> duration" where
  "from_secs n = Nanos (n * 1000000000)"

definition duration_div :: "duration \<Rightarrow> nat \<Rightarrow> duration" where
  "duration_div d k = Nanos (nanos d div k)"

lemmas duration_simps = less_eq_duration_def less_duration_def from_secs_def duration_div_def

section \<open>RouterConfig\<close>

text \<open>A \<^verbatim>\<open>rustls::ServerConfig\<close> is what it was built from, the certificates and the key.\<close>

type_synonym tls_server_config = "bytes list \<times> bytes"

record router_config =
  ping_interval :: duration
  ping_timeout :: duration
  broadcast_backlog :: nat
  forward_timeout :: duration
  high_buffer_mark :: nat
  gc_interval :: "duration option"
  tls :: "tls_server_config option"

definition default_config :: router_config where
  "default_config = \<lparr>
     ping_interval = from_secs 10,
     ping_timeout = from_secs 20,
     broadcast_backlog = 16,
     forward_timeout = from_secs 60,
     high_buffer_mark = 16,
     gc_interval = None,
     tls = None\<rparr>"

text \<open>\<^verbatim>\<open>str::parse::<u64>\<close>: an optional plus sign, at least one decimal digit, no overflow.\<close>

definition digit_value :: "char \<Rightarrow> nat option" where
  "digit_value c = (let n = of_char c in if 48 \<le> n \<and> n \<le> (57::nat) then Some (n - 48) else None)"

fun parse_digits :: "nat \<Rightarrow> string \<Rightarrow> nat option" where
  "parse_digits acc [] = Some acc"
| "parse_digits acc (c # cs) =
     (case digit_value c of
        None \<Rightarrow> None
      | Some d \<Rightarrow> if acc * 10 + d < 2 ^ 64 then parse_digits (acc * 10 + d) cs else None)"

definition parse_u64 :: "string \<Rightarrow> nat option" where
  "parse_u64 s =
     (let ds = (case s of c # cs \<Rightarrow> if c = CHR ''+'' then cs else s | [] \<Rightarrow> s)
      in if ds = [] then None else parse_digits 0 ds)"

text \<open>\<open>var\<close>: the value of \<^verbatim>\<open>GSB_PING_TIMEOUT\<close>, if it is set.\<close>

definition from_env :: "string option \<Rightarrow> router_config" where
  "from_env var =
     (case Option.bind var parse_u64 of
        Some secs \<Rightarrow> default_config\<lparr>ping_timeout := from_secs secs,
                                     ping_interval := from_secs (secs div 4)\<rparr>
      | None \<Rightarrow> default_config)"

definition gc_interval_secs :: "nat \<Rightarrow> router_config \<Rightarrow> router_config" where
  "gc_interval_secs gc_secs c = c\<lparr>gc_interval := Some (from_secs gc_secs)\<rparr>"

section \<open>InstanceConfig\<close>

text \<open>The fresh \<^verbatim>\<open>instance_id\<close> is an argument; the slot for the router handle is a flag here,
  since only its presence is looked at.\<close>

record instance_config =
  ic_config :: router_config
  ic_instance_id :: bytes
  ic_name :: string
  ic_version :: string
  ic_router :: bool

definition with_app :: "bytes \<Rightarrow> router_config \<Rightarrow> string \<Rightarrow> string \<Rightarrow> instance_config" where
  "with_app uuid config name version =
     \<lparr>ic_config = config, ic_instance_id = uuid, ic_name = name, ic_version = version, ic_router = False\<rparr>"

text \<open>\<^verbatim>\<open>CARGO_PKG_NAME\<close> and \<^verbatim>\<open>CARGO_PKG_VERSION\<close> come from the build.\<close>

definition instance_new :: "string \<Rightarrow> string \<Rightarrow> bytes \<Rightarrow> router_config \<Rightarrow> instance_config" where
  "instance_new pkg_name pkg_version uuid config = with_app uuid config pkg_name pkg_version"

definition ic_hello :: "instance_config \<Rightarrow> hello" where
  "ic_hello ic = \<lparr>hl_name = ic_name ic, hl_version = ic_version ic, hl_instance_id = ic_instance_id ic\<rparr>"

section \<open>Properties\<close>

lemma parse_digits_bound: "acc < 2 ^ 64 \<Longrightarrow> parse_digits acc s = Some n \<Longrightarrow> n < 2 ^ 64"
  by (induction s arbitrary: acc) (auto split: option.splits if_splits)

lemma parse_u64_bound: "parse_u64 s = Some n \<Longrightarrow> n < 2 ^ 64"
  by (auto simp: parse_u64_def Let_def dest!: parse_digits_bound [rotated] split: if_splits)

text \<open>
  Whatever the environment variable holds, the configuration pings more often than it
  times out: the ping interval is at most half of the timeout, so an idle peer is pinged at
  least once before it is cut off, and everything else is the default.
\<close>

lemma from_env_ping_before_timeout:
  "2 * nanos (ping_interval (from_env var)) \<le> nanos (ping_timeout (from_env var))
   \<and> (from_env var)\<lparr>ping_interval := d, ping_timeout := e\<rparr>
     = default_config\<lparr>ping_interval := d, ping_timeout := e\<rparr>"
  by (auto simp: from_env_def default_config_def from_secs_def split: option.splits)

end
