(* ===== verification/Router.thy ===== *)
theory Router
  imports PrefixBag Config
begin

text \<open>
  \<^verbatim>\<open>crates/router/src/router.rs\<close>: the routing tables shared by all connections of a router and
  the garbage collection of unused topics.

  \<^item> An actor address (\<^verbatim>\<open>Addr<Connection>\<close>) is a value of the type variable \<open>'a\<close>, compared
    for equality; \<open>live\<close> is \<^verbatim>\<open>Addr::connected\<close>, an argument of the operations that ask it.
  \<^item> A broadcast channel (\<^verbatim>\<open>tokio::sync::broadcast\<close>) is its identity, a number; the one a new
    topic gets is an argument, and \<^verbatim>\<open>receiver_count\<close> is a function of the channel. What is sent
    on the node-event channel is appended to \<open>node_trace\<close>.
\<close>

section \<open>State\<close>

datatype node_event = New string | Lost string | Lag nat

type_synonym channel = nat

record 'a router =
  rt_config :: router_config
  registered_instances :: "(bytes, 'a) hmap"
  registered_endpoints :: "'a prefix_lookup_bag"
  topics :: "(string, channel) hmap"
  node_trace :: "node_event list"

definition new_router :: "instance_config \<Rightarrow> 'a router" where
  "new_router ic = \<lparr>rt_config = ic_config ic, registered_instances = [],
     registered_endpoints = pb_default, topics = [], node_trace = []\<rparr>"

text \<open>\<^verbatim>\<open>create_router_and_save\<close> overwrites a router that was there before.\<close>

definition create_router_and_save :: "instance_config \<Rightarrow> instance_config \<times> 'a router" where
  "create_router_and_save ic = (ic\<lparr>ic_router := True\<rparr>, new_router ic)"

section \<open>Operations\<close>

definition resolve_node :: "'a router \<Rightarrow> string \<Rightarrow> 'a option" where
  "resolve_node r service_id = pb_get (registered_endpoints r) service_id"

definition register_service :: "string \<Rightarrow> 'a \<Rightarrow> 'a router \<Rightarrow> bool \<times> 'a router" where
  "register_service service_id connection r =
     (case pb_insert service_id connection (registered_endpoints r) of
        (Some prev_connection, es) \<Rightarrow>
          (False, r\<lparr>registered_endpoints := snd (pb_insert service_id prev_connection es)\<rparr>)
      | (None, es) \<Rightarrow> (True, r\<lparr>registered_endpoints := es\<rparr>))"

definition unregister_service ::
  "('a \<Rightarrow> bool) \<Rightarrow> string \<Rightarrow> 'a \<Rightarrow> 'a router \<Rightarrow> bool \<times> 'a router" where
  "unregister_service live service_id connection r =
     (case pb_remove service_id (registered_endpoints r) of
        (Some prev_addr, es) \<Rightarrow>
          if prev_addr \<noteq> connection \<and> live prev_addr
          then (False, r\<lparr>registered_endpoints := snd (pb_insert service_id prev_addr es)\<rparr>)
          else (True, r\<lparr>registered_endpoints := es\<rparr>)
      | (None, es) \<Rightarrow> (False, r\<lparr>registered_endpoints := es\<rparr>))"

text \<open>\<open>fresh\<close> is the channel made for a topic seen for the first time. The result is the channel
  a new receiver was created on.\<close>

definition subscribe_topic :: "channel \<Rightarrow> string \<Rightarrow> 'a router \<Rightarrow> channel \<times> 'a router" where
  "subscribe_topic fresh topic_id r =
     (case hm_get (topics r) topic_id of
        None \<Rightarrow> (fresh, r\<lparr>topics := snd (hm_insert topic_id fresh (topics r))\<rparr>)
      | Some tx \<Rightarrow> (tx, r))"

definition find_topic :: "'a router \<Rightarrow> string \<Rightarrow> channel option" where
  "find_topic r topic_id = hm_get (topics r) topic_id"

text \<open>The connection to be dropped, if the instance was registered, and the new tables.\<close>

definition new_connection :: "bytes \<Rightarrow> 'a \<Rightarrow> 'a router \<Rightarrow> 'a option \<times> 'a router" where
  "new_connection instance_id connection r =
     (case hm_insert instance_id connection (registered_instances r) of
        (old, m) \<Rightarrow> (old, r\<lparr>registered_instances := m\<rparr>))"

definition remove_connection :: "bytes \<Rightarrow> 'a \<Rightarrow> 'a router \<Rightarrow> 'a router" where
  "remove_connection instance_id connection r =
     (case hm_remove instance_id (registered_instances r) of
        (Some prev_connection, m) \<Rightarrow>
          if prev_connection \<noteq> connection
          then r\<lparr>registered_instances := snd (hm_insert instance_id prev_connection m)\<rparr>
          else r\<lparr>registered_instances := m\<rparr>
      | (None, m) \<Rightarrow> r\<lparr>registered_instances := m\<rparr>)"

definition send_node_event :: "node_event \<Rightarrow> 'a router \<Rightarrow> 'a router" where
  "send_node_event event r = r\<lparr>node_trace := node_trace r @ [event]\<rparr>"

text \<open>What the web interface reads.\<close>

definition registered_instances_count :: "'a router \<Rightarrow> nat" where
  "registered_instances_count r = hm_len (registered_instances r)"

definition registered_endpoints_count :: "'a router \<Rightarrow> nat" where
  "registered_endpoints_count r = pb_len (registered_endpoints r)"

definition topics_count :: "'a router \<Rightarrow> nat" where
  "topics_count r = hm_len (topics r)"

definition get_connection_recipients :: "'a router \<Rightarrow> 'a list" where
  "get_connection_recipients r = hm_values (registered_instances r)"

section \<open>Garbage collection of topics\<close>

text \<open>
  \<^verbatim>\<open>router_gc_worker\<close>: the interval and whether to scan; the scan under the read lock; the
  removal under the write lock. Between the two the lock is free.
\<close>

definition gc_schedule :: "'a router \<Rightarrow> duration \<times> bool" where
  "gc_schedule r =
     (case gc_interval (rt_config r) of
        Some interval \<Rightarrow> (interval, True)
      | None \<Rightarrow> (from_secs 60, False))"

definition gc_scan :: "(channel \<Rightarrow> nat) \<Rightarrow> 'a router \<Rightarrow> string list" where
  "gc_scan receiver_count r = map fst (filter (\<lambda>(t, c). receiver_count c = 0) (topics r))"

definition gc_remove :: "string list \<Rightarrow> 'a router \<Rightarrow> 'a router" where
  "gc_remove empty_topics r =
     (if empty_topics \<noteq> []
      then r\<lparr>topics := fold (\<lambda>t m. snd (hm_remove t m)) empty_topics (topics r)\<rparr>
      else r)"

definition gc_round :: "(channel \<Rightarrow> nat) \<Rightarrow> 'a router \<Rightarrow> 'a router" where
  "gc_round receiver_count r =
     (if snd (gc_schedule r) then gc_remove (gc_scan receiver_count r) r else r)"

lemmas router_op_defs [router_defs] =
  resolve_node_def register_service_def unregister_service_def subscribe_topic_def find_topic_def
  new_connection_def remove_connection_def send_node_event_def

section \<open>Abstract view and laws\<close>

definition owner :: "'a router \<Rightarrow> string \<Rightarrow> 'a option" where
  "owner r = pb_content (registered_endpoints r)"

definition instance_of :: "'a router \<Rightarrow> bytes \<Rightarrow> 'a option" where
  "instance_of r = hm_get (registered_instances r)"

definition router_ok :: "'a router \<Rightarrow> bool" where
  "router_ok r \<longleftrightarrow> hm_ok (registered_instances r) \<and> pb_ok (registered_endpoints r) \<and> hm_ok (topics r)"

text \<open>A holder may be displaced when it is the one asking or when it is gone.\<close>

definition removable :: "('a \<Rightarrow> bool) \<Rightarrow> 'a \<Rightarrow> 'a option \<Rightarrow> bool" where
  "removable live c holder = (case holder of None \<Rightarrow> False | Some p \<Rightarrow> p = c \<or> \<not> live p)"

lemma removable_simps [simp]:
  "\<not> removable live c None"
  "removable live c (Some p) \<longleftrightarrow> p = c \<or> \<not> live p"
  by (simp_all add: removable_def)

text \<open>
  The contract of a service registry: who owns an address, when a registration or its removal
  succeeds, and that an unsuccessful attempt changes nothing. The connections rely on it.
\<close>

locale service_registry =
  fixes own :: "'r \<Rightarrow> string \<Rightarrow> 'a option"
    and reg :: "string \<Rightarrow> 'a \<Rightarrow> 'r \<Rightarrow> bool \<times> 'r"
    and unreg :: "('a \<Rightarrow> bool) \<Rightarrow> string \<Rightarrow> 'a \<Rightarrow> 'r \<Rightarrow> bool \<times> 'r"
  assumes reg_ok: "fst (reg s c r) \<longleftrightarrow> own r s = None"
    and reg_own: "own (snd (reg s c r)) = (if own r s = None then (own r)(s \<mapsto> c) else own r)"
    and unreg_ok: "fst (unreg live s c r) \<longleftrightarrow> removable live c (own r s)"
    and unreg_own: "own (snd (unreg live s c r)) =
          (if fst (unreg live s c r) then (own r)(s := None) else own r)"
begin

lemma reg_keeps_owner: "own r s = Some p \<Longrightarrow> own (snd (reg s' c r)) s = Some p"
  by (auto simp: reg_own)

lemma unreg_keeps_live_owner:
  "own r s = Some p \<Longrightarrow> live p \<Longrightarrow> p \<noteq> c \<Longrightarrow> own (snd (unreg live s' c r)) s = Some p"
  by (auto simp: unreg_own unreg_ok)

lemma unreg_same: "own r s = Some c \<Longrightarrow> own (snd (unreg live s c r)) = (own r)(s := None)"
  by (simp add: unreg_own unreg_ok)

lemma unreg_at:
  "own (snd (unreg live a c r)) s =
     (if s = a \<and> removable live c (own r s) then None else own r s)"
  by (auto simp: unreg_own unreg_ok)

text \<open>Removing a list of addresses one after the other, as a closing connection does.\<close>

lemma unreg_all_own:
  "own (fold (\<lambda>s r. snd (unreg live s c r)) ss r) s =
     (if s \<in> set ss \<and> removable live c (own r s) then None else own r s)"
proof (induction ss arbitrary: r)
  case (Cons a ss)
  show ?case by (auto simp: Cons.IH unreg_at)
qed simp

end

lemma register_service_effect:
  "fst (register_service s c r) \<longleftrightarrow> owner r s = None"
  "owner (snd (register_service s c r)) = (if owner r s = None then (owner r)(s \<mapsto> c) else owner r)"
proof -
  obtain old es where ins: "pb_insert s c (registered_endpoints r) = (old, es)" by (metis surj_pair)
  then have "old = owner r s" "pb_content es = (owner r)(s \<mapsto> c)"
    using pb.ins_old [of s c "registered_endpoints r"] pb.ins_content [of s c "registered_endpoints r"]
    by (simp_all add: owner_def)
  with ins show "fst (register_service s c r) \<longleftrightarrow> owner r s = None"
    and "owner (snd (register_service s c r)) = (if owner r s = None then (owner r)(s \<mapsto> c) else owner r)"
    by (auto simp: register_service_def owner_def split: option.splits)
qed

lemma unregister_service_effect:
  "fst (unregister_service live s c r) \<longleftrightarrow> removable live c (owner r s)"
  "owner (snd (unregister_service live s c r)) =
     (if fst (unregister_service live s c r) then (owner r)(s := None) else owner r)"
proof -
  obtain old es where rem: "pb_remove s (registered_endpoints r) = (old, es)" by (metis surj_pair)
  then have "old = owner r s" "pb_content es = (owner r)(s := None)"
    using pb.rem_old [of s "registered_endpoints r"] pb.rem_content [of s "registered_endpoints r"]
    by (simp_all add: owner_def)
  with rem show "fst (unregister_service live s c r) \<longleftrightarrow> removable live c (owner r s)"
    and "owner (snd (unregister_service live s c r)) =
     (if fst (unregister_service live s c r) then (owner r)(s := None) else owner r)"
    by (auto simp: unregister_service_def owner_def split: option.splits)
qed

interpretation registry: service_registry owner register_service unregister_service
  by unfold_locales
     (rule register_service_effect unregister_service_effect)+

lemma remove_connection_instance:
  "instance_of (remove_connection i c r) =
     (if instance_of r i = Some c then (instance_of r)(i := None) else instance_of r)"
proof -
  obtain old m where rem: "hm_remove i (registered_instances r) = (old, m)" by (metis surj_pair)
  then have "old = instance_of r i" "hm_get m = (instance_of r)(i := None)"
    using hm.rem_old [of i "registered_instances r"] hm.rem_get [of i "registered_instances r"]
    by (simp_all add: instance_of_def)
  with rem show ?thesis
    by (auto simp: remove_connection_def instance_of_def split: option.splits)
qed

lemma new_connection_instance:
  "fst (new_connection i c r) = instance_of r i"
  "instance_of (snd (new_connection i c r)) = (instance_of r)(i \<mapsto> c)"
  by (simp_all add: new_connection_def instance_of_def split_beta)

lemma subscribe_topic_effect:
  "fst (subscribe_topic fresh t r) = (case find_topic r t of None \<Rightarrow> fresh | Some ch \<Rightarrow> ch)"
  "hm_get (topics (snd (subscribe_topic fresh t r))) =
     (hm_get (topics r))(t \<mapsto> fst (subscribe_topic fresh t r))"
  by (auto simp: subscribe_topic_def find_topic_def split: option.splits)

text \<open>Each operation touches one table only.\<close>

lemma router_frames [simp]:
  "registered_instances (snd (register_service s c r)) = registered_instances r"
  "topics (snd (register_service s c r)) = topics r"
  "node_trace (snd (register_service s c r)) = node_trace r"
  "rt_config (snd (register_service s c r)) = rt_config r"
  "registered_instances (snd (unregister_service live s c r)) = registered_instances r"
  "topics (snd (unregister_service live s c r)) = topics r"
  "node_trace (snd (unregister_service live s c r)) = node_trace r"
  "rt_config (snd (unregister_service live s c r)) = rt_config r"
  "registered_endpoints (snd (subscribe_topic ch t r)) = registered_endpoints r"
  "registered_instances (snd (subscribe_topic ch t r)) = registered_instances r"
  "node_trace (snd (subscribe_topic ch t r)) = node_trace r"
  "registered_endpoints (snd (new_connection i c r)) = registered_endpoints r"
  "topics (snd (new_connection i c r)) = topics r"
  "node_trace (snd (new_connection i c r)) = node_trace r"
  "registered_endpoints (remove_connection i c r) = registered_endpoints r"
  "topics (remove_connection i c r) = topics r"
  "node_trace (remove_connection i c r) = node_trace r"
  "registered_endpoints (send_node_event e r) = registered_endpoints r"
  "registered_instances (send_node_event e r) = registered_instances r"
  "topics (send_node_event e r) = topics r"
  by (auto simp: router_defs split: option.splits prod.splits)

lemma owner_frames [simp]:
  "owner (snd (subscribe_topic ch t r)) = owner r"
  "owner (snd (new_connection i c r)) = owner r"
  "owner (remove_connection i c r) = owner r"
  "owner (send_node_event e r) = owner r"
  by (simp_all add: owner_def)

lemma instance_frames [simp]:
  "instance_of (snd (register_service s c r)) = instance_of r"
  "instance_of (snd (unregister_service live s c r)) = instance_of r"
  "instance_of (snd (subscribe_topic ch t r)) = instance_of r"
  "instance_of (send_node_event e r) = instance_of r"
  by (simp_all add: instance_of_def)

lemma router_ok_ops [simp]:
  "router_ok (new_router ic)"
  "router_ok r \<Longrightarrow> router_ok (snd (register_service s c r))"
  "router_ok r \<Longrightarrow> router_ok (snd (unregister_service live s c r))"
  "router_ok r \<Longrightarrow> router_ok (snd (subscribe_topic ch t r))"
  "router_ok r \<Longrightarrow> router_ok (snd (new_connection i c r))"
  "router_ok r \<Longrightarrow> router_ok (remove_connection i c r)"
  "router_ok r \<Longrightarrow> router_ok (send_node_event e r)"
proof -
  note ok = router_ok_def pb_ok_ops(2,3) hm.ok_ins hm.ok_rem
  show "router_ok (new_router ic)" by (simp add: router_ok_def new_router_def)
  assume r: "router_ok r"
  show "router_ok (snd (register_service s c r))"
    using r pb_ok_ops(2) [of "registered_endpoints r" s c]
    by (auto simp: ok register_service_def simp del: pb_ok_ops split: option.splits prod.splits)
       (metis pb_ok_ops(2) snd_conv)+
  show "router_ok (snd (unregister_service live s c r))"
    using r pb_ok_ops(3) [of "registered_endpoints r" s]
    by (auto simp: router_ok_def unregister_service_def simp del: pb_ok_ops split: option.splits prod.splits)
       (metis pb_ok_ops(2) snd_conv)+
  show "router_ok (snd (subscribe_topic ch t r))"
    using r by (auto simp: ok subscribe_topic_def split: option.splits)
  show "router_ok (snd (new_connection i c r))"
    using r hm.ok_ins [of "registered_instances r" i c]
    by (auto simp: router_ok_def new_connection_def split: prod.splits)
  show "router_ok (remove_connection i c r)"
    using r hm.ok_rem [of "registered_instances r" i]
    by (auto simp: router_ok_def remove_connection_def hm.ok_ins split: option.splits prod.splits)
  show "router_ok (send_node_event e r)"
    using r by (simp add: router_ok_def send_node_event_def)
qed

lemma new_router_tables [simp]:
  "owner (new_router ic) = (\<lambda>_. None)"
  "instance_of (new_router ic) = (\<lambda>_. None)"
  "topics (new_router ic) = []"
  "node_trace (new_router ic) = []"
  "rt_config (new_router ic) = ic_config ic"
  by (simp_all add: new_router_def owner_def instance_of_def fun_eq_iff)

text \<open>A router without entries over numbered connections, for the witnesses.\<close>

definition sample_instance :: instance_config where
  "sample_instance = with_app [1, 2, 3] (gc_interval_secs 60 default_config) ''router'' ''0.8''"

definition empty_router :: "nat router" where
  "empty_router = new_router sample_instance"

lemma empty_router_tables [simp]:
  "owner empty_router = (\<lambda>_. None)"
  "instance_of empty_router = (\<lambda>_. None)"
  "topics empty_router = []"
  "rt_config empty_router = ic_config sample_instance"
  by (simp_all add: empty_router_def)

lemma empty_router_ok [simp]: "router_ok empty_router"
  by (simp add: empty_router_def)

section \<open>Specification of the tables\<close>

text \<open>What the tables promise, over plain partial functions.\<close>

record 'a bus =
  b_owner :: "string \<Rightarrow> 'a option"
  b_instance :: "bytes \<Rightarrow> 'a option"
  b_topic :: "string \<Rightarrow> channel option"

definition abs_router :: "'a router \<Rightarrow> 'a bus" where
  "abs_router r = \<lparr>b_owner = owner r, b_instance = instance_of r, b_topic = hm_get (topics r)\<rparr>"

definition spec_register :: "string \<Rightarrow> 'a \<Rightarrow> 'a bus \<Rightarrow> bool \<times> 'a bus" where
  "spec_register s c b =
     (if b_owner b s = None then (True, b\<lparr>b_owner := (b_owner b)(s \<mapsto> c)\<rparr>) else (False, b))"

definition spec_unregister :: "('a \<Rightarrow> bool) \<Rightarrow> string \<Rightarrow> 'a \<Rightarrow> 'a bus \<Rightarrow> bool \<times> 'a bus" where
  "spec_unregister live s c b =
     (if removable live c (b_owner b s) then (True, b\<lparr>b_owner := (b_owner b)(s := None)\<rparr>)
      else (False, b))"

definition spec_subscribe :: "channel \<Rightarrow> string \<Rightarrow> 'a bus \<Rightarrow> channel \<times> 'a bus" where
  "spec_subscribe fresh t b =
     (let ch = (case b_topic b t of None \<Rightarrow> fresh | Some ch \<Rightarrow> ch)
      in (ch, b\<lparr>b_topic := (b_topic b)(t \<mapsto> ch)\<rparr>))"

definition spec_connect :: "bytes \<Rightarrow> 'a \<Rightarrow> 'a bus \<Rightarrow> 'a option \<times> 'a bus" where
  "spec_connect i c b = (b_instance b i, b\<lparr>b_instance := (b_instance b)(i \<mapsto> c)\<rparr>)"

definition spec_disconnect :: "bytes \<Rightarrow> 'a \<Rightarrow> 'a bus \<Rightarrow> 'a bus" where
  "spec_disconnect i c b =
     (if b_instance b i = Some c then b\<lparr>b_instance := (b_instance b)(i := None)\<rparr> else b)"

lemma gc_remove_lookup:
  "hm_get (fold (\<lambda>t m. snd (hm_remove t m)) ts m) t = (if t \<in> set ts then None else hm_get m t)"
  by (induction ts arbitrary: m) auto

lemma gc_remove_topics:
  "hm_get (topics (gc_remove ts r)) t = (if t \<in> set ts then None else hm_get (topics r) t)"
  by (simp add: gc_remove_def gc_remove_lookup)

lemma gc_scan_iff:
  "router_ok r \<Longrightarrow> t \<in> set (gc_scan rc r) \<longleftrightarrow> (\<exists>ch. find_topic r t = Some ch \<and> rc ch = 0)"
  by (force simp: gc_scan_def find_topic_def router_ok_def hm_get_entry [symmetric])

section \<open>Properties\<close>

text \<open>
  C8. The routing tables implement their specification: on the abstract view, registering,
  unregistering, subscribing, connecting and disconnecting are the operations over partial
  functions, results included, although the code inserts first and puts the old value back.
\<close>

theorem router_refines_bus:
  "map_prod id abs_router (register_service s c r) = spec_register s c (abs_router r)
   \<and> map_prod id abs_router (unregister_service live s c r) = spec_unregister live s c (abs_router r)
   \<and> map_prod id abs_router (subscribe_topic ch t r) = spec_subscribe ch t (abs_router r)
   \<and> map_prod id abs_router (new_connection i c r) = spec_connect i c (abs_router r)
   \<and> abs_router (remove_connection i c r) = spec_disconnect i c (abs_router r)"
proof (intro conjI)
  show "map_prod id abs_router (register_service s c r) = spec_register s c (abs_router r)"
    by (rule prod_eqI)
       (simp_all add: abs_router_def spec_register_def register_service_effect)
  show "map_prod id abs_router (unregister_service live s c r) = spec_unregister live s c (abs_router r)"
    by (rule prod_eqI)
       (simp_all add: abs_router_def spec_unregister_def unregister_service_effect)
  show "map_prod id abs_router (subscribe_topic ch t r) = spec_subscribe ch t (abs_router r)"
    by (rule prod_eqI)
       (simp_all add: abs_router_def spec_subscribe_def subscribe_topic_effect Let_def find_topic_def)
  show "map_prod id abs_router (new_connection i c r) = spec_connect i c (abs_router r)"
    by (rule prod_eqI)
       (simp_all add: abs_router_def spec_connect_def new_connection_instance)
  show "abs_router (remove_connection i c r) = spec_disconnect i c (abs_router r)"
    by (simp add: abs_router_def spec_disconnect_def remove_connection_instance)
qed

text \<open>
  A service name is a prefix: once a name is registered, calls to it reach its connection,
  and so do calls to every address below it for which nothing more specific is registered.
\<close>

lemma registered_name_is_prefix:
  assumes "service \<noteq> []" and "fst (register_service service c r)"
    and "\<And>q. ancestor q (service @ CHR ''/'' # rest) \<Longrightarrow> length q > length service \<Longrightarrow> owner r q = None"
  shows "resolve_node (snd (register_service service c r)) service = Some c
     \<and> resolve_node (snd (register_service service c r)) (service @ CHR ''/'' # rest) = Some c"
proof
  let ?es = "registered_endpoints (snd (register_service service c r))"
  have own: "pb_content ?es = (owner r)(service \<mapsto> c)"
    using assms(2) register_service_effect [of service c r] by (simp add: owner_def)
  show "resolve_node (snd (register_service service c r)) service = Some c"
    unfolding resolve_node_def by (rule pb.lookup_exact) (simp_all add: assms(1) own)
  show "resolve_node (snd (register_service service c r)) (service @ CHR ''/'' # rest) = Some c"
    unfolding resolve_node_def
    by (rule pb.lookup_child) (use assms own in auto)
qed

text \<open>
  An attempt to take a registered name, or to unregister a name held by another live
  connection, is refused and leaves the answer to every lookup unchanged.
\<close>

lemma foreign_name_untouched:
  assumes "owner r s = Some p"
  shows "\<not> fst (register_service s c r)
     \<and> resolve_node (snd (register_service s c r)) k = resolve_node r k
     \<and> (p = c \<or> \<not> live p \<or>
          (\<not> fst (unregister_service live s c r)
           \<and> resolve_node (snd (unregister_service live s c r)) k = resolve_node r k))"
proof -
  have cong: "owner r' = owner r \<Longrightarrow> resolve_node r' k = resolve_node r k" for r'
    unfolding resolve_node_def owner_def by (rule pb.lookup_cong)
  have reg: "resolve_node (snd (register_service s c r)) k = resolve_node r k"
    by (rule cong) (simp add: register_service_effect assms)
  have unreg: "p \<noteq> c \<Longrightarrow> live p \<Longrightarrow>
      resolve_node (snd (unregister_service live s c r)) k = resolve_node r k"
    by (rule cong) (simp add: unregister_service_effect assms)
  show ?thesis
    using reg unreg assms by (auto simp: register_service_effect(1) unregister_service_effect(1))
qed

text \<open>
  Taking over an instance: a second connection that announces the same instance id
  replaces the first, which is the one to be dropped, and the late clean-up of the first does
  not remove the second.
\<close>

lemma instance_takeover:
  assumes "old \<noteq> new"
  shows "let r1 = snd (new_connection i old r);
             (dropped, r2) = new_connection i new r1;
             r3 = remove_connection i old r2
         in dropped = Some old \<and> instance_of r3 = (instance_of r)(i \<mapsto> new)"
  using assms
  by (simp add: Let_def split_beta new_connection_instance remove_connection_instance)

text \<open>
  A round of garbage collection removes exactly the topics whose channel has no receiver,
  when scanning is configured, and nothing otherwise; the other tables are not touched.
\<close>

lemma gc_removes_exactly_unused:
  assumes "router_ok r"
  shows "find_topic (gc_round rc r) t =
       (if gc_interval (rt_config r) \<noteq> None \<and> (\<exists>ch. find_topic r t = Some ch \<and> rc ch = 0)
        then None else find_topic r t)
     \<and> registered_endpoints (gc_round rc r) = registered_endpoints r
     \<and> registered_instances (gc_round rc r) = registered_instances r"
proof
  show "find_topic (gc_round rc r) t =
       (if gc_interval (rt_config r) \<noteq> None \<and> (\<exists>ch. find_topic r t = Some ch \<and> rc ch = 0)
        then None else find_topic r t)"
    using gc_remove_topics [of "gc_scan rc r" r t] gc_scan_iff [OF assms, of t rc]
    by (cases "gc_interval (rt_config r)") (auto simp: gc_round_def gc_schedule_def find_topic_def)
qed (simp add: gc_round_def gc_remove_def)

lemma gc_removes_exactly_unused_example:
  "find_topic (gc_round (\<lambda>_. 0) (snd (subscribe_topic 5 ''t'' empty_router))) ''t'' = None"
proof -
  let ?r = "snd (subscribe_topic 5 ''t'' empty_router)"
  have "router_ok ?r" by simp
  moreover have "gc_interval (rt_config ?r) \<noteq> None" and "find_topic ?r ''t'' = Some 5"
    by (simp_all add: subscribe_topic_def find_topic_def sample_instance_def with_app_def
        gc_interval_secs_def)
  ultimately show ?thesis
    using gc_removes_exactly_unused [of ?r "\<lambda>_. 0" "''t''"] by simp
qed

text \<open>
  The scan and the removal of unused topics are not atomic: a subscriber that arrives in
  between, on a topic that had no receiver, is left with a receiver on a channel that the router
  no longer knows, so no later broadcast on the topic can reach it.
\<close>

lemma gc_races_with_subscribe:
  assumes "router_ok r" and "find_topic r t = Some ch" and "rc ch = 0"
  shows "let (mine, r1) = subscribe_topic fresh t r; r2 = gc_remove (gc_scan rc r) r1
         in mine = ch \<and> find_topic r2 t = None"
proof -
  have "t \<in> set (gc_scan rc r)" using assms gc_scan_iff by blast
  then show ?thesis
    using assms(2) gc_remove_topics [of "gc_scan rc r" _ t]
    by (simp add: subscribe_topic_effect(1) Let_def split_beta find_topic_def)
qed

lemma gc_races_with_subscribe_example:
  "find_topic (gc_remove (gc_scan (\<lambda>_. 0) (snd (subscribe_topic 5 ''t'' empty_router)))
     (snd (subscribe_topic 6 ''t'' (snd (subscribe_topic 5 ''t'' empty_router))))) ''t'' = None"
proof -
  let ?r = "snd (subscribe_topic 5 ''t'' empty_router)"
  have "find_topic ?r ''t'' = Some 5"
    by (simp add: find_topic_def subscribe_topic_def)
  from gc_races_with_subscribe [OF _ this, of "\<lambda>_. 0" 6] show ?thesis
    by (simp add: Let_def split_beta)
qed

text \<open>
  The numbers the status page shows are the numbers of registered instances, names and
  topics, and its node list asks each registered connection once per instance.
\<close>

lemma status_counts:
  assumes "router_ok r"
  shows "registered_instances_count r = card (dom (instance_of r))
     \<and> registered_endpoints_count r = card (dom (owner r))
     \<and> topics_count r = card (dom (hm_get (topics r)))
     \<and> length (get_connection_recipients r) = registered_instances_count r
     \<and> set (get_connection_recipients r) = ran (instance_of r)"
proof -
  have len: "hm_len (registered_instances r) = card (dom (instance_of r))"
    "hm_len (dict (registered_endpoints r)) = card (dom (owner r))"
    "hm_len (topics r) = card (dom (hm_get (topics r)))"
    using assms
    by (simp_all add: router_ok_def pb_ok_def hm_len_card instance_of_def owner_def pb_content_def)
  have "set (hm_values (registered_instances r)) = ran (instance_of r)"
    using assms
    by (simp add: router_ok_def hm_ok_def hm_values_def instance_of_def hm_get_map_of ran_distinct)
  with len show ?thesis
    by (simp add: registered_instances_count_def registered_endpoints_count_def pb_len_def
        topics_count_def get_connection_recipients_def hm_values_def hm_len_def)
qed

end
