(* ===== verification/SinkWriter.thy ===== *)
theory SinkWriter
  imports Prelude
begin

text \<open>
  \<^verbatim>\<open>crates/util/src/writer.rs\<close>: \<^verbatim>\<open>SinkWrite\<close>, the outgoing queue of a connection, and the
  future that moves it into the transport. \<^verbatim>\<open>write\<close> appends to a queue unless the writer is
  closing; \<^verbatim>\<open>poll\<close> passes queued items to the sink while the sink is ready, flushes or closes
  it, and tells the actor when everything has left.

  The transport is any \<^verbatim>\<open>futures::Sink\<close>, a parameter here: the record \<open>sink_ops\<close> holds its
  four operations over an abstract state. The sink of the witnesses, \<open>room_sink\<close>, takes items
  while it has room.
\<close>

section \<open>The sink interface\<close>

datatype poll = Pending | ReadyOk | ReadyErr

record ('s, 'i) sink_ops =
  sk_poll_ready :: "'s \<Rightarrow> poll \<times> 's"
  sk_start_send :: "'i \<Rightarrow> 's \<Rightarrow> bool \<times> 's"
  sk_poll_flush :: "'s \<Rightarrow> poll \<times> 's"
  sk_poll_close :: "'s \<Rightarrow> poll \<times> 's"

section \<open>SinkWrite\<close>

text \<open>The two bits of \<^verbatim>\<open>Flags\<close> and the queue. \<open>task\<close> is whether a waker is stored.\<close>

record ('s, 'i) sink_write =
  closing :: bool
  closed :: bool
  sink :: 's
  task :: bool
  buffer :: "'i list"

definition sink_write_new :: "'s \<Rightarrow> ('s, 'i) sink_write" where
  "sink_write_new s = \<lparr>closing = False, closed = False, sink = s, task = False, buffer = []\<rparr>"

text \<open>\<^verbatim>\<open>write\<close> gives the item back when a flag is set. The second component is the wake-up
  that \<^verbatim>\<open>notify_task\<close> sends, if a waker is stored.\<close>

definition sw_write :: "'i \<Rightarrow> ('s, 'i) sink_write \<Rightarrow> 'i option \<times> bool \<times> ('s, 'i) sink_write" where
  "sw_write item w =
     (if \<not> closing w \<and> \<not> closed w
      then (None, task w, w\<lparr>buffer := buffer w @ [item]\<rparr>)
      else (Some item, False, w))"

definition buffer_len :: "('s, 'i) sink_write \<Rightarrow> nat" where
  "buffer_len w = length (buffer w)"

definition sw_close :: "('s, 'i) sink_write \<Rightarrow> bool \<times> ('s, 'i) sink_write" where
  "sw_close w = (task w, w\<lparr>closing := True\<rparr>)"

definition is_closed :: "('s, 'i) sink_write \<Rightarrow> bool" where
  "is_closed w = closed w"

section \<open>The writing future\<close>

text \<open>
  The loop of \<^verbatim>\<open>poll\<close>: it runs once per queued item and once more for the flush, so it is
  a recursion over the queue. The result is the sink, the items left in the queue, the items
  that were handed to \<^verbatim>\<open>start_send\<close>, and \<^verbatim>\<open>trigger_empty\<close>.
\<close>

fun drain :: "('s, 'i) sink_ops \<Rightarrow> 's \<Rightarrow> 'i list \<Rightarrow> 's \<times> 'i list \<times> 'i list \<times> bool" where
  "drain ops s [] =
     (case sk_poll_ready ops s of
        (ReadyOk, s1) \<Rightarrow>
          (case sk_poll_flush ops s1 of (r, s2) \<Rightarrow> (s2, [], [], r = ReadyOk))
      | (_, s1) \<Rightarrow> (s1, [], [], False))"
| "drain ops s (item # rest) =
     (case sk_poll_ready ops s of
        (ReadyOk, s1) \<Rightarrow>
          (case sk_start_send ops item s1 of (_, s2) \<Rightarrow>
             (case drain ops s2 rest of (s3, left, sent, trig) \<Rightarrow> (s3, left, item # sent, trig)))
      | (_, s1) \<Rightarrow> (s1, item # rest, [], False))"

text \<open>
  How a poll ends: the future completed (after the actor's \<^verbatim>\<open>finished\<close>), it stays pending
  (with or without a call of \<^verbatim>\<open>buffer_empty\<close>), or the assertion that the sink has not been
  closed before failed.
\<close>

datatype poll_result = Finished | Waiting bool | AssertionFailed

text \<open>\<open>err_stop\<close>: whether the actor's \<^verbatim>\<open>error\<close> handler answers \<^verbatim>\<open>Running::Stop\<close>.\<close>

definition poll_writer ::
  "('s, 'i) sink_ops \<Rightarrow> bool \<Rightarrow> ('s, 'i) sink_write \<Rightarrow> poll_result \<times> 'i list \<times> ('s, 'i) sink_write" where
  "poll_writer ops err_stop w =
     (case drain ops (sink w) (buffer w) of (s1, left, sent, trigger_empty) \<Rightarrow>
        let w1 = w\<lparr>sink := s1, buffer := left\<rparr>;
            wait = (\<lambda>w2. (Waiting trigger_empty, sent, w2\<lparr>task := True\<rparr>))
        in if \<not> closing w then
             (case sk_poll_flush ops s1 of
                (ReadyErr, s2) \<Rightarrow>
                  if err_stop then (Finished, sent, w1\<lparr>sink := s2\<rparr>) else wait (w1\<lparr>sink := s2\<rparr>)
              | (_, s2) \<Rightarrow> wait (w1\<lparr>sink := s2\<rparr>))
           else if closed w then (AssertionFailed, sent, w1)
           else
             (case sk_poll_close ops s1 of
                (ReadyErr, s2) \<Rightarrow>
                  if err_stop then (Finished, sent, w1\<lparr>sink := s2\<rparr>) else wait (w1\<lparr>sink := s2\<rparr>)
              | (ReadyOk, s2) \<Rightarrow>
                  if left = [] then (Finished, sent, w1\<lparr>sink := s2, closed := True\<rparr>)
                  else wait (w1\<lparr>sink := s2\<rparr>)
              | (Pending, s2) \<Rightarrow> wait (w1\<lparr>sink := s2\<rparr>)))"

section \<open>The life of a writer\<close>

text \<open>
  The operations in the order the actor performs them: \<open>taken\<close> collects what \<^verbatim>\<open>write\<close>
  accepted, \<open>out\<close> what reached the sink. A writer whose future has finished is not polled again.
\<close>

datatype 'i writer_op = Write 'i | Close | Poll bool

record ('s, 'i) writer_run =
  wr :: "('s, 'i) sink_write"
  taken :: "'i list"
  out :: "'i list"
  finished :: bool
  failed :: bool

fun writer_step :: "('s, 'i) sink_ops \<Rightarrow> ('s, 'i) writer_run \<Rightarrow> 'i writer_op \<Rightarrow> ('s, 'i) writer_run" where
  "writer_step ops r (Write i) =
     (case sw_write i (wr r) of
        (None, _, w) \<Rightarrow> r\<lparr>wr := w, taken := taken r @ [i]\<rparr>
      | (Some _, _, w) \<Rightarrow> r\<lparr>wr := w\<rparr>)"
| "writer_step ops r Close = r\<lparr>wr := snd (sw_close (wr r))\<rparr>"
| "writer_step ops r (Poll err_stop) =
     (if finished r then r
      else case poll_writer ops err_stop (wr r) of
             (res, sent, w) \<Rightarrow>
               r\<lparr>wr := w, out := out r @ sent, finished := (res = Finished \<or> res = AssertionFailed),
                 failed := (failed r \<or> res = AssertionFailed)\<rparr>)"

definition writer_init :: "'s \<Rightarrow> ('s, 'i) writer_run" where
  "writer_init s = \<lparr>wr = sink_write_new s, taken = [], out = [], finished = False, failed = False\<rparr>"

definition writer_exec :: "('s, 'i) sink_ops \<Rightarrow> 's \<Rightarrow> 'i writer_op list \<Rightarrow> ('s, 'i) writer_run" where
  "writer_exec ops s xs = foldl (writer_step ops) (writer_init s) xs"

section \<open>Facts about one poll\<close>

lemma drain_splits:
  "drain ops s xs = (s', left, sent, trig) \<Longrightarrow> xs = sent @ left \<and> (trig \<longrightarrow> left = [])"
proof (induction xs arbitrary: s s' left sent trig)
  case (Cons x xs)
  then show ?case
    by (fastforce split: prod.splits poll.splits)
qed (auto split: prod.splits poll.splits)

lemma poll_writer_splits:
  "poll_writer ops es w = (res, sent, w') \<Longrightarrow> buffer w = sent @ buffer w'"
  by (auto simp: poll_writer_def Let_def dest!: drain_splits
      split: prod.splits poll.splits if_splits)

lemma poll_writer_flags:
  "poll_writer ops es w = (res, sent, w') \<Longrightarrow>
     closing w' = closing w \<and> (closed w' \<longrightarrow> closed w \<or> (res = Finished \<and> closing w \<and> buffer w' = []))
     \<and> (res = AssertionFailed \<longrightarrow> closed w)"
  by (auto simp: poll_writer_def Let_def split: prod.splits poll.splits if_splits)

lemma poll_writer_trigger:
  "poll_writer ops es w = (Waiting True, sent, w') \<Longrightarrow> buffer w' = []"
  by (auto simp: poll_writer_def Let_def dest!: drain_splits
      split: prod.splits poll.splits if_splits)

text \<open>The invariant of a run: nothing is lost or reordered, and a closed writer is a finished one.\<close>

definition writer_inv :: "('s, 'i) writer_run \<Rightarrow> bool" where
  "writer_inv r \<longleftrightarrow>
     taken r = out r @ buffer (wr r)
     \<and> (closed (wr r) \<longrightarrow> finished r \<and> closing (wr r) \<and> buffer (wr r) = [])
     \<and> \<not> failed r"

lemma writer_step_inv: "writer_inv r \<Longrightarrow> writer_inv (writer_step ops r op)"
proof (cases op)
  case (Poll es)
  assume inv: "writer_inv r"
  obtain res sent w where p: "poll_writer ops es (wr r) = (res, sent, w)" by (metis surj_pair)
  show ?thesis
    using inv Poll p poll_writer_splits [OF p] poll_writer_flags [OF p]
    by (auto simp: writer_inv_def)
qed (auto simp: writer_inv_def sw_write_def sw_close_def split: if_splits)

lemma writer_exec_inv: "writer_inv (writer_exec ops s xs)"
  unfolding writer_exec_def
proof (induction xs rule: rev_induct)
  case Nil
  show ?case by (simp add: writer_inv_def writer_init_def sink_write_new_def)
next
  case (snoc x xs)
  then show ?case by (simp add: writer_step_inv)
qed

lemma writer_step_closing:
  "closing (wr r) \<Longrightarrow> closing (wr (writer_step ops r op)) \<and> taken (writer_step ops r op) = taken r"
  by (cases op) (auto simp: sw_write_def sw_close_def dest: poll_writer_flags split: prod.splits)

lemma writer_run_closing:
  "closing (wr r) \<Longrightarrow> taken (foldl (writer_step ops) r xs) = taken r"
  by (induction xs arbitrary: r) (simp_all add: writer_step_closing)

lemma writer_run_after_close:
  "taken (foldl (writer_step ops) (r\<lparr>wr := snd (sw_close (wr r))\<rparr>) xs) = taken r"
  by (subst writer_run_closing) (simp_all add: sw_close_def)

lemma drain_flushed:
  "drain ops s xs = (s', left, sent, True) \<Longrightarrow> \<exists>s1. sk_poll_flush ops s1 = (ReadyOk, s')"
  by (induction xs arbitrary: s s' left sent) (auto split: prod.splits poll.splits)

lemma drain_all_ready:
  assumes "\<And>s. fst (sk_poll_ready ops s) = ReadyOk"
  shows "\<exists>s' trig. drain ops s xs = (s', [], xs, trig)"
proof (induction xs arbitrary: s)
  case Nil
  show ?case using assms [of s] by (auto split: prod.splits poll.splits)
next
  case (Cons x xs)
  obtain s1 where "sk_poll_ready ops s = (ReadyOk, s1)"
    using assms [of s] by (metis prod.collapse)
  moreover obtain s' trig where "drain ops (snd (sk_start_send ops x s1)) xs = (s', [], xs, trig)"
    using Cons by blast
  ultimately show ?case by (simp add: split_beta)
qed

section \<open>Properties\<close>

text \<open>
  C7. Through any sequence of writes, polls and closes, against any transport, the items
  accepted by \<^verbatim>\<open>write\<close> reach the sink once each and in order: at every moment the accepted
  items are those already handed to \<^verbatim>\<open>start_send\<close>, whose errors the code ignores, followed by those
  still queued.
\<close>

theorem writer_fifo:
  "taken (writer_exec ops s xs) = out (writer_exec ops s xs) @ buffer (wr (writer_exec ops s xs))"
  using writer_exec_inv [of ops s xs] by (simp add: writer_inv_def)

text \<open>
  The assertion in the closing branch of \<^verbatim>\<open>poll\<close> never fails as long as a finished
  future is not polled again, and a writer is only marked closed when its queue is empty.
\<close>

lemma writer_close_safe:
  "\<not> failed (writer_exec ops s xs)
   \<and> \<not> (closed (wr (writer_exec ops s xs)) \<and> buffer (wr (writer_exec ops s xs)) \<noteq> [])"
  using writer_exec_inv [of ops s xs] by (auto simp: writer_inv_def)

text \<open>
  Nothing written after closing is ever sent: from the moment of \<^verbatim>\<open>close\<close> on, whatever
  is written, the set of accepted items stays what it was.
\<close>

lemma nothing_accepted_after_close:
  "taken (writer_exec ops s (xs @ Close # ys)) = taken (writer_exec ops s xs)"
  by (simp add: writer_exec_def writer_run_after_close)

text \<open>
  \<^verbatim>\<open>buffer_empty\<close> is called only when everything that was queued has been handed to the
  sink and the sink reported a completed flush after that.
\<close>

lemma buffer_empty_only_when_flushed:
  assumes "poll_writer ops es w = (Waiting True, sent, w')"
  shows "buffer w' = [] \<and> sent = buffer w
     \<and> (\<exists>s. sk_poll_flush ops s = (ReadyOk, fst (drain ops (sink w) (buffer w))))"
proof -
  have "\<exists>s1 left snt. drain ops (sink w) (buffer w) = (s1, left, snt, True)"
    using assms
    by (auto simp: poll_writer_def Let_def split: prod.splits poll.splits if_splits)
  then show ?thesis
    using drain_flushed poll_writer_trigger [OF assms] poll_writer_splits [OF assms] by fastforce
qed

text \<open>A transport that is always ready takes the whole queue in one poll.\<close>

definition always_ready :: "('s, 'i) sink_ops \<Rightarrow> bool" where
  "always_ready ops \<longleftrightarrow> (\<forall>s. fst (sk_poll_ready ops s) = ReadyOk \<and> fst (sk_poll_flush ops s) = ReadyOk)"

lemma drain_ready:
  assumes "always_ready ops"
  shows "\<exists>s'. drain ops s xs = (s', [], xs, True)"
proof (induction xs arbitrary: s)
  case Nil
  show ?case using assms by (auto simp: always_ready_def split_beta split: poll.splits)
next
  case (Cons y ys)
  obtain s1 where "sk_poll_ready ops s = (ReadyOk, s1)" using assms by (metis always_ready_def prod.collapse)
  moreover obtain s' where "drain ops (snd (sk_start_send ops y s1)) ys = (s', [], ys, True)" using Cons by blast
  ultimately show ?case by (simp add: split_beta)
qed

lemma always_ready_flush: "always_ready ops \<Longrightarrow> fst (sk_poll_flush ops s) \<noteq> ReadyErr"
  by (simp add: always_ready_def)

lemma poll_ready_writer:
  assumes "always_ready ops" and "\<not> closing w"
  obtains s where "poll_writer ops es w = (Waiting True, buffer w, w\<lparr>buffer := [], sink := s, task := True\<rparr>)"
proof -
  obtain s1 where d: "drain ops (sink w) (buffer w) = (s1, [], buffer w, True)"
    using drain_ready [OF assms(1)] by blast
  obtain s2 where "sk_poll_flush ops s1 = (ReadyOk, s2)" using assms(1) by (metis always_ready_def prod.collapse)
  with d assms(2) show ?thesis by (intro that [of s2]) (simp add: poll_writer_def Let_def)
qed

definition ready_sink :: "(nat, 'i) sink_ops" where
  "ready_sink = \<lparr>
     sk_poll_ready = (\<lambda>n. (ReadyOk, n)),
     sk_start_send = (\<lambda>i n. (True, Suc n)),
     sk_poll_flush = (\<lambda>n. (ReadyOk, n)),
     sk_poll_close = (\<lambda>n. (ReadyOk, n))\<rparr>"

lemma ready_sink_ready [simp]: "always_ready ready_sink"
  by (simp add: always_ready_def ready_sink_def)

text \<open>A sink that takes items while it has room and flushes at once.\<close>

definition room_sink :: "(nat, 'i) sink_ops" where
  "room_sink = \<lparr>
     sk_poll_ready = (\<lambda>n. (if n = 0 then Pending else ReadyOk, n)),
     sk_start_send = (\<lambda>i n. (True, n - 1)),
     sk_poll_flush = (\<lambda>n. (ReadyOk, n)),
     sk_poll_close = (\<lambda>n. (ReadyOk, n))\<rparr>"

text \<open>
  One poll of a writer whose transport is ready hands over the whole queue, in order:
  nothing stays behind.
\<close>

lemma poll_sends_everything:
  assumes "\<And>s. fst (sk_poll_ready ops s) = ReadyOk"
  shows "fst (snd (poll_writer ops es w)) = buffer w
     \<and> buffer (snd (snd (poll_writer ops es w))) = []"
  using drain_all_ready [OF assms, where s = "sink w" and xs = "buffer w"]
  by (auto simp: poll_writer_def Let_def split: prod.splits poll.splits)

text \<open>
  Polling a writer again and again. Between two polls the other end has read something (\<open>tick\<close>, a
  change of the sink's state). The result is what was sent and the writer that is left; a finished
  future is not polled.
\<close>

fun poll_rounds ::
  "('s, 'i) sink_ops \<Rightarrow> bool \<Rightarrow> ('s \<Rightarrow> 's) \<Rightarrow> nat \<Rightarrow> ('s, 'i) sink_write \<Rightarrow> 'i list \<times> ('s, 'i) sink_write" where
  "poll_rounds ops es tick 0 w = ([], w)"
| "poll_rounds ops es tick (Suc n) w =
     (case poll_writer ops es (w\<lparr>sink := tick (sink w)\<rparr>) of
        (Waiting _, sent, w1) \<Rightarrow> (case poll_rounds ops es tick n w1 of (later, w2) \<Rightarrow> (sent @ later, w2))
      | (_, sent, w1) \<Rightarrow> (sent, w1))"

lemma drain_progress:
  assumes "fst (sk_poll_ready ops s) = ReadyOk"
  shows "length (fst (snd (drain ops s xs))) \<le> length xs - 1"
proof (cases xs)
  case (Cons x rest)
  obtain s1 where s1: "sk_poll_ready ops s = (ReadyOk, s1)" using assms by (metis prod.collapse)
  obtain s3 left sent trig where d: "drain ops (snd (sk_start_send ops x s1)) rest = (s3, left, sent, trig)"
    by (metis surj_pair)
  from drain_splits [OF d] have "length left \<le> length rest" by simp
  with Cons s1 d show ?thesis by (simp add: split_beta)
qed (use assms in \<open>auto split: prod.splits poll.splits\<close>)

lemma poll_left: "buffer (snd (snd (poll_writer ops es w))) = fst (snd (drain ops (sink w) (buffer w)))"
  by (auto simp: poll_writer_def Let_def split: prod.splits poll.splits)

lemma poll_ends_only_when_empty:
  assumes "\<And>s. fst (sk_poll_flush ops s) \<noteq> ReadyErr" and "\<And>s. fst (sk_poll_close ops s) \<noteq> ReadyErr"
    and "\<not> closed w" and "poll_writer ops es w = (res, sent, w')"
  shows "(\<exists>b. res = Waiting b \<and> \<not> closed w') \<or> (res = Finished \<and> buffer w' = [])"
proof -
  obtain s1 left snt trig where d: "drain ops (sink w) (buffer w) = (s1, left, snt, trig)" by (metis surj_pair)
  show ?thesis
    using assms(1) [of s1] assms(2) [of s1] assms(3,4)
    by (auto simp: poll_writer_def d Let_def split: prod.splits poll.splits if_splits)
qed

text \<open>
  C28. Everything that was accepted is sent in the end: if the sink never fails and has room for at
  least one item whenever it is polled again, then after as many polls as there are queued items the
  whole queue has been handed over, in order, also when the writer is being closed.
\<close>

theorem writer_drains:
  assumes "\<And>s. fst (sk_poll_ready ops (tick s)) = ReadyOk"
    and "\<And>s. fst (sk_poll_flush ops s) \<noteq> ReadyErr" and "\<And>s. fst (sk_poll_close ops s) \<noteq> ReadyErr"
    and "\<not> closed w" and "length (buffer w) \<le> n"
  shows "fst (poll_rounds ops es tick n w) = buffer w \<and> buffer (snd (poll_rounds ops es tick n w)) = []"
  using assms(4,5)
proof (induction n arbitrary: w)
  case (Suc n)
  let ?w = "w\<lparr>sink := tick (sink w)\<rparr>"
  obtain res sent w1 where p: "poll_writer ops es ?w = (res, sent, w1)" by (metis surj_pair)
  have split: "buffer w = sent @ buffer w1" using poll_writer_splits [OF p] by simp
  have "length (buffer w1) \<le> length (buffer w) - 1"
    using poll_left [of ops es ?w] drain_progress [OF assms(1), of "sink w" "buffer w"] p by simp
  then have less: "length (buffer w1) \<le> n" using Suc.prems(2) by simp
  from poll_ends_only_when_empty [OF assms(2,3) _ p] Suc.prems(1)
  consider b where "res = Waiting b" "\<not> closed w1" | "res = Finished" "buffer w1 = []" by auto
  then show ?case
  proof cases
    case (1 b)
    with Suc.IH [OF 1(2) less] p split show ?thesis by (simp add: split_beta)
  next
    case 2
    with p split show ?thesis by simp
  qed
qed simp

theorem writer_drains_witness:
  "fst (poll_rounds room_sink True Suc 3 ((sink_write_new 0)\<lparr>buffer := [1, 2, 3]\<rparr>)) = [1 :: nat, 2, 3]"
  using writer_drains [of room_sink Suc "(sink_write_new 0)\<lparr>buffer := [1 :: nat, 2, 3]\<rparr>" 3 True]
  by (simp add: room_sink_def sink_write_new_def)

end
