(* ===== verification/Codec.thy ===== *)
theory Codec
  imports Proto
begin

unbundle bit_operations_syntax

text \<open>
  \<^verbatim>\<open>crates/proto/src/codec.rs\<close>: the framing of messages on a byte stream. A frame is a
  four-byte big-endian length and the protobuf encoding of a packet. The decoder keeps the
  length of a frame whose body has not arrived yet.

  The protobuf encoding itself is the third-party crate \<^verbatim>\<open>prost\<close>, a parameter here: the
  record \<open>prost\<close> holds its three operations, and \<open>frame_ok\<close> states what the code relies on
  for one message (encoding succeeds, writes \<^verbatim>\<open>encoded_len\<close> bytes, decodes back).
\<close>

section \<open>Errors and the protobuf library\<close>

datatype protocol_error =
    UnrecognizedMessageType
  | HeaderNotEnoughBytes
  | Io io_error_kind
  | Encode string
  | Decode string
  | RecvError
  | MsgTooBig

record prost =
  pr_encode :: "gsb_message option \<Rightarrow> string + bytes"
  pr_encoded_len :: "gsb_message option \<Rightarrow> nat"
  pr_decode :: "bytes \<Rightarrow> string + gsb_message option"

text \<open>Width of \<^verbatim>\<open>usize\<close> on the supported targets.\<close>

definition usize_bits :: nat where
  "usize_bits = 64"

section \<open>Frames\<close>

text \<open>\<^verbatim>\<open>BufMut::put_u32\<close> and \<^verbatim>\<open>Buf::get_u32\<close>: big-endian.\<close>

definition put_u32 :: "u32 \<Rightarrow> bytes" where
  "put_u32 n = [ucast (drop_bit 24 n), ucast (drop_bit 16 n), ucast (drop_bit 8 n), ucast n]"

definition get_u32 :: "bytes \<Rightarrow> u32" where
  "get_u32 bs = foldl (\<lambda>acc b. push_bit 8 acc OR ucast b) 0 bs"

definition decode_header :: "bytes \<Rightarrow> (protocol_error + u32 option) \<times> bytes" where
  "decode_header src =
     (if length src < 4 then (Inr None, src)
      else (Inr (Some (get_u32 (take 4 src))), drop 4 src))"

definition decode_message ::
  "prost \<Rightarrow> bytes \<Rightarrow> u32 \<Rightarrow> (protocol_error + gsb_message option) \<times> bytes" where
  "decode_message P src msg_length =
     (if unat msg_length \<ge> 2 ^ usize_bits then (Inl MsgTooBig, src)
      else let n = unat msg_length in
        if length src < n then (Inr None, src)
        else (case pr_decode P (take n src) of
                Inl e \<Rightarrow> (Inl (Decode e), drop n src)
              | Inr (Some msg) \<Rightarrow> (Inr (Some msg), drop n src)
              | Inr None \<Rightarrow> (Inl UnrecognizedMessageType, drop n src)))"

text \<open>The length is written before the body is encoded, so it stays in the buffer if that fails.\<close>

definition encode_message ::
  "prost \<Rightarrow> bytes \<Rightarrow> gsb_message \<Rightarrow> (protocol_error + unit) \<times> bytes" where
  "encode_message P dst msg =
     (let packet = Some msg;
          len = pr_encoded_len P packet;
          dst1 = dst @ put_u32 (of_nat len)
      in case pr_encode P packet of
           Inl e \<Rightarrow> (Inl (Encode e), dst1)
         | Inr bs \<Rightarrow> (Inr (), dst1 @ bs))"

record gsb_message_decoder =
  msg_header :: "u32 option"

definition decoder_new :: gsb_message_decoder where
  "decoder_new = \<lparr>msg_header = None\<rparr>"

text \<open>The part of \<^verbatim>\<open>decode\<close> after the header has been looked at.\<close>

definition decode_body ::
  "prost \<Rightarrow> gsb_message_decoder \<Rightarrow> bytes
     \<Rightarrow> (protocol_error + gsb_message option) \<times> gsb_message_decoder \<times> bytes" where
  "decode_body P d src =
     (case msg_header d of
        None \<Rightarrow> (Inr None, d, src)
      | Some msg_length \<Rightarrow>
          (case decode_message P src msg_length of
             (Inl e, src') \<Rightarrow> (Inl e, d, src')
           | (Inr None, src') \<Rightarrow> (Inr None, d, src')
           | (Inr (Some msg), src') \<Rightarrow> (Inr (Some msg), d\<lparr>msg_header := None\<rparr>, src')))"

definition decoder_decode ::
  "prost \<Rightarrow> gsb_message_decoder \<Rightarrow> bytes
     \<Rightarrow> (protocol_error + gsb_message option) \<times> gsb_message_decoder \<times> bytes" where
  "decoder_decode P d src =
     (if msg_header d = None then
        (case decode_header src of
           (Inl e, src') \<Rightarrow> (Inl e, d, src')
         | (Inr h, src') \<Rightarrow> decode_body P (d\<lparr>msg_header := h\<rparr>) src')
      else decode_body P d src)"

text \<open>\<^verbatim>\<open>GsbMessageCodec\<close> pairs an encoder without state with a decoder.\<close>

record gsb_message_codec =
  codec_decoder :: gsb_message_decoder

definition codec_encode ::
  "prost \<Rightarrow> gsb_message_codec \<Rightarrow> bytes \<Rightarrow> gsb_message \<Rightarrow> (protocol_error + unit) \<times> bytes" where
  "codec_encode P c dst item = encode_message P dst item"

definition codec_decode ::
  "prost \<Rightarrow> gsb_message_codec \<Rightarrow> bytes
     \<Rightarrow> (protocol_error + gsb_message option) \<times> gsb_message_codec \<times> bytes" where
  "codec_decode P c src =
     (case decoder_decode P (codec_decoder c) src of
        (r, d, src') \<Rightarrow> (r, c\<lparr>codec_decoder := d\<rparr>, src'))"

section \<open>Reading a stream\<close>

text \<open>
  How the framed transport drives the decoder: after each arrival it decodes until the decoder
  asks for more bytes or fails. The result is the messages, the error if there was one, and the
  decoder with the bytes left over.
\<close>

lemma decoder_decode_shrinks:
  assumes "decoder_decode P d src = (Inr (Some m), d', src')"
  shows "2 * length src' + (if msg_header d' = None then 0 else 1)
         < 2 * length src + (if msg_header d = None then 0 else (1::nat))"
  using assms
  by (auto simp: decoder_decode_def decode_body_def decode_header_def decode_message_def Let_def
      split: if_splits option.splits sum.splits prod.splits)

function decode_all ::
  "prost \<Rightarrow> gsb_message_decoder \<Rightarrow> bytes
     \<Rightarrow> gsb_message list \<times> protocol_error option \<times> gsb_message_decoder \<times> bytes" where
  "decode_all P d src =
     (case decoder_decode P d src of
        (Inl e, d', src') \<Rightarrow> ([], Some e, d', src')
      | (Inr None, d', src') \<Rightarrow> ([], None, d', src')
      | (Inr (Some m), d', src') \<Rightarrow>
          (case decode_all P d' src' of (ms, r) \<Rightarrow> (m # ms, r)))"
  by pat_completeness auto
termination
  by (relation "measure (\<lambda>(P, d, src). 2 * length src + (if msg_header d = None then 0 else 1))")
     (auto dest!: sym [of "(Inr (Some _), _)"] decoder_decode_shrinks)

declare decode_all.simps [simp del]

text \<open>The same loop with nothing said about its end: \<open>None\<close> is a loop that never returns.\<close>

partial_function (option) decode_loop ::
  "prost \<Rightarrow> gsb_message_decoder \<Rightarrow> bytes
     \<Rightarrow> (gsb_message list \<times> protocol_error option \<times> gsb_message_decoder \<times> bytes) option" where
  "decode_loop P d src =
     (case decoder_decode P d src of
        (Inl e, d', src') \<Rightarrow> Some ([], Some e, d', src')
      | (Inr None, d', src') \<Rightarrow> Some ([], None, d', src')
      | (Inr (Some m), d', src') \<Rightarrow>
          Option.bind (decode_loop P d' src') (\<lambda>(ms, r). Some (m # ms, r)))"

fun feed ::
  "prost \<Rightarrow> gsb_message_decoder \<Rightarrow> bytes \<Rightarrow> bytes list
     \<Rightarrow> gsb_message list \<times> protocol_error option \<times> gsb_message_decoder \<times> bytes" where
  "feed P d buf [] = ([], None, d, buf)"
| "feed P d buf (c # cs) =
     (case decode_all P d (buf @ c) of
        (ms, Some e, d', buf') \<Rightarrow> (ms, Some e, d', buf')
      | (ms, None, d', buf') \<Rightarrow>
          (case feed P d' buf' cs of (ms', r) \<Rightarrow> (ms @ ms', r)))"

section \<open>Frames decode to what was encoded\<close>

definition frame_ok :: "prost \<Rightarrow> gsb_message \<Rightarrow> bool" where
  "frame_ok P m =
     (case pr_encode P (Some m) of
        Inl _ \<Rightarrow> False
      | Inr bs \<Rightarrow> length bs = pr_encoded_len P (Some m) \<and> pr_encoded_len P (Some m) < 2 ^ 32
                  \<and> pr_decode P bs = Inr (Some m))"

definition frame :: "prost \<Rightarrow> gsb_message \<Rightarrow> bytes" where
  "frame P m = snd (encode_message P [] m)"

lemma get_put_u32 [simp]: "get_u32 (put_u32 n) = n"
proof (rule bit_word_eqI)
  fix i :: nat
  assume "i < LENGTH(32)"
  then have i: "i < 32" by simp
  show "bit (get_u32 (put_u32 n)) i = bit n i"
    using i by (cases "i < 8"; cases "i < 16"; cases "i < 24")
      (auto simp: get_u32_def put_u32_def bit_simps)
qed

lemma length_put_u32 [simp]: "length (put_u32 n) = 4"
  by (simp add: put_u32_def)

lemma usize_holds_u32: "\<not> 2 ^ usize_bits \<le> unat (n :: u32)"
  using unsigned_less [of n, where 'a = nat] by (simp add: usize_bits_def not_le)

lemma frame_okE:
  assumes "frame_ok P m"
  obtains bs where "pr_decode P bs = Inr (Some m)" "length bs < 2 ^ 32"
    "pr_encode P (Some m) = Inr bs" "pr_encoded_len P (Some m) = length bs"
    "frame P m = put_u32 (of_nat (length bs)) @ bs"
  using assms that
  by (auto simp: frame_ok_def frame_def encode_message_def Let_def split: sum.splits)

lemma decode_frame:
  assumes "frame_ok P m"
  shows "decoder_decode P decoder_new (frame P m @ rest) = (Inr (Some m), decoder_new, rest)"
proof -
  obtain bs where bs: "pr_decode P bs = Inr (Some m)" "length bs < 2 ^ 32"
    and f: "frame P m = put_u32 (of_nat (length bs)) @ bs"
    using assms by (rule frame_okE)
  have len: "unat (of_nat (length bs) :: u32) = length bs"
    using bs(2) by (simp add: unat_of_nat)
  have fits: "\<not> 2 ^ usize_bits \<le> length bs"
    using bs(2) by (simp add: usize_bits_def)
  show ?thesis
    using bs(1) len fits
    by (simp add: f decoder_decode_def decode_header_def decode_body_def decode_message_def
        decoder_new_def usize_holds_u32 Let_def del: unsigned_of_nat)
qed

text \<open>More bytes behind do not change what a decoding step reports.\<close>

lemma decode_message_append:
  "decode_message P src n = (Inl e, src') \<Longrightarrow> decode_message P (src @ x) n = (Inl e, src' @ x)"
  "decode_message P src n = (Inr (Some m), src') \<Longrightarrow>
     decode_message P (src @ x) n = (Inr (Some m), src' @ x)"
  "decode_message P src n = (Inr None, src') \<Longrightarrow> src' = src"
  by (auto simp: decode_message_def usize_holds_u32 Let_def
      split: if_splits sum.splits option.splits)

lemma decoder_decode_append:
  "decoder_decode P d src = (Inl e, d', src') \<Longrightarrow>
     decoder_decode P d (src @ x) = (Inl e, d', src' @ x)"
  "decoder_decode P d src = (Inr (Some m), d', src') \<Longrightarrow>
     decoder_decode P d (src @ x) = (Inr (Some m), d', src' @ x)"
  "decoder_decode P d src = (Inr None, d', src') \<Longrightarrow>
     decoder_decode P d (src @ x) = decoder_decode P d' (src' @ x)"
  by (auto simp: decoder_decode_def decode_header_def decode_body_def decode_message_append
      split: if_splits option.splits sum.splits prod.splits dest: decode_message_append)

lemma decode_all_append:
  "decode_all P d (src @ x) =
     (case decode_all P d src of
        (ms, Some e, d', src') \<Rightarrow> (ms, Some e, d', src' @ x)
      | (ms, None, d', src') \<Rightarrow>
          (case decode_all P d' (src' @ x) of (ms', r) \<Rightarrow> (ms @ ms', r)))"
proof (induction P d src rule: decode_all.induct)
  case (1 P d src)
  obtain r d1 src1 where dec: "decoder_decode P d src = (r, d1, src1)" by (metis surj_pair)
  note unfold = decode_all.simps [of P d src] decode_all.simps [of P d "src @ x"]
  consider (err) e where "r = Inl e" | (more) "r = Inr None" | (msg) m where "r = Inr (Some m)"
    by (metis not_None_eq sum.exhaust)
  then show ?case
  proof cases
    case err
    with dec show ?thesis by (simp add: unfold decoder_decode_append)
  next
    case more
    with dec show ?thesis
      by (simp add: unfold decode_all.simps [of P d1 "src1 @ x"] decoder_decode_append
          split: prod.splits sum.splits option.splits)
  next
    case (msg m)
    note IH = "1.IH" [OF dec [symmetric] msg refl refl]
    from msg dec IH show ?thesis
      by (simp add: unfold decoder_decode_append split: prod.splits option.splits)
  qed
qed

lemma decode_all_frames:
  "list_all (frame_ok P) ms \<Longrightarrow>
     decode_all P decoder_new (concat (map (frame P) ms)) = (ms, None, decoder_new, [])"
proof (induction ms)
  case Nil
  then show ?case
    by (simp add: decode_all.simps decoder_decode_def decode_header_def decode_body_def
        decoder_new_def)
next
  case (Cons m ms)
  then show ?case by (simp add: decode_all.simps [of P _ "_ @ _"] decode_frame)
qed

text \<open>What a reader sees of a result: after an error the bytes left over are never looked at.\<close>

definition observed ::
  "gsb_message list \<times> protocol_error option \<times> gsb_message_decoder \<times> bytes
     \<Rightarrow> gsb_message list \<times> protocol_error option \<times> gsb_message_decoder \<times> bytes option" where
  "observed r = (case r of (ms, e, d, buf) \<Rightarrow> (ms, e, d, if e = None then Some buf else None))"

lemma observed_prepend:
  "observed r = observed r' \<Longrightarrow>
     observed (case r of (ms', q) \<Rightarrow> (ms @ ms', q)) = observed (case r' of (ms', q) \<Rightarrow> (ms @ ms', q))"
  by (auto simp: observed_def split: prod.splits if_splits)

lemma feed_observed:
  "observed (feed P d buf (c # cs)) = observed (decode_all P d (buf @ c @ concat cs))"
proof (induction cs arbitrary: c d buf)
  case Nil
  show ?case by (simp add: observed_def split: prod.splits option.splits)
next
  case (Cons c' cs)
  obtain ms e d' buf' where one: "decode_all P d (buf @ c) = (ms, e, d', buf')"
    by (metis surj_pair)
  note split = decode_all_append [of P d "buf @ c" "concat (c' # cs)"]
  show ?case
  proof (cases e)
    case None
    have "observed (feed P d buf (c # c' # cs))
        = observed (case feed P d' buf' (c' # cs) of (ms', r) \<Rightarrow> (ms @ ms', r))"
      using one None by (simp del: feed.simps(2) add: feed.simps(2) [of P d buf c])
    also have "\<dots> = observed (case decode_all P d' (buf' @ c' @ concat cs) of (ms', r) \<Rightarrow> (ms @ ms', r))"
      by (rule observed_prepend) (rule Cons.IH)
    finally show ?thesis using split one None by simp
  next
    case (Some err)
    with one split show ?thesis by (simp add: observed_def)
  qed
qed

section \<open>Properties\<close>

text \<open>
  C6. However the bytes of a stream are split into arrivals, the decoder reports the same
  messages and the same error as if all had come at once, and it ends with the same pending
  frame length and, if there was no error, the same undecoded bytes.
\<close>

theorem feed_chunk_independent:
  "observed (feed P d buf (c # cs)) = observed (decode_all P d (buf @ concat (c # cs)))"
  using feed_observed by simp

text \<open>
  C5. Round trip: whatever messages are encoded one after the other, and however their bytes
  are split on the way, the decoder at the other end reports exactly these messages in order
  and ends ready for the next frame. The hypothesis is what is relied on of the protobuf library
  for the messages at hand, and that their encodings are shorter than four gigabytes.
\<close>

theorem codec_roundtrip:
  assumes "list_all (frame_ok P) ms"
    and "concat cs = concat (map (frame P) ms)"
  shows "feed P decoder_new [] cs = (ms, None, decoder_new, [])"
proof (cases cs)
  case Nil
  with assms have "concat (map (frame P) ms) = []" by simp
  with assms(1) have "ms = []"
    by (cases ms) (auto elim!: frame_okE simp: put_u32_def)
  with Nil show ?thesis by simp
next
  case (Cons c cs')
  have "observed (feed P decoder_new [] cs) = observed (ms, None, decoder_new, [])"
    using decode_all_frames [OF assms(1)] assms(2) Cons feed_observed [of P decoder_new "[]" c cs']
    by simp
  then show ?thesis by (simp add: observed_def split: prod.splits if_splits)
qed

text \<open>The protobuf bytes of the two messages without fields, as a concrete library.\<close>

definition ping_prost :: prost where
  "ping_prost = \<lparr>
     pr_encode = (\<lambda>p. if p = Some Ping then Inr [114, 0] else if p = Some Pong then Inr [122, 0]
                      else Inl ''unsupported''),
     pr_encoded_len = (\<lambda>_. 2),
     pr_decode = (\<lambda>bs. if bs = [114, 0] then Inr (Some Ping) else if bs = [122, 0] then Inr (Some Pong)
                       else Inl ''unsupported'')\<rparr>"

lemma ping_prost_ok: "frame_ok ping_prost Ping" "frame_ok ping_prost Pong"
  by (simp_all add: frame_ok_def ping_prost_def)

theorem codec_roundtrip_witness:
  "feed ping_prost decoder_new [] [[0, 0, 0], [2, 114], [0, 0, 0, 0, 2, 122, 0]]
   = ([Ping, Pong], None, decoder_new, [])"
proof (rule codec_roundtrip)
  show "list_all (frame_ok ping_prost) [Ping, Pong]" by (simp add: ping_prost_ok)
  show "concat [[0, 0, 0], [2, 114], [0, 0, 0, 0, 2, 122, 0]]
      = concat (map (frame ping_prost) [Ping, Pong])"
    by (simp add: frame_def encode_message_def ping_prost_def put_u32_def)
qed

text \<open>
  The encoder writes the length of the body modulo four gigabytes, then the body unchanged:
  it never refuses an oversized message, so the header of one is too small.
\<close>

lemma frame_header_modulo:
  assumes "pr_encode P (Some m) = Inr bs" and "pr_encoded_len P (Some m) = length bs"
  shows "unat (get_u32 (take 4 (frame P m))) = length bs mod 2 ^ 32 \<and> drop 4 (frame P m) = bs"
  using assms by (simp add: frame_def encode_message_def Let_def unat_of_nat)

text \<open>What one step takes: a message costs its header, unless that had been read before.\<close>

definition header_credit :: "gsb_message_decoder \<Rightarrow> nat" where
  "header_credit d = (if msg_header d = None then 0 else 4)"

lemma decoder_decode_cost:
  "decoder_decode P d src = (Inr (Some m), d', src') \<Longrightarrow> 4 + length src' + header_credit d' \<le> length src + header_credit d"
  "decoder_decode P d src = (Inr None, d', src') \<Longrightarrow>
     (case msg_header d' of None \<Rightarrow> length src' < 4 | Some n \<Rightarrow> length src' < unat n)"
  by (auto simp: decoder_decode_def decode_header_def decode_body_def decode_message_def usize_holds_u32 header_credit_def Let_def
      split: if_splits option.splits sum.splits prod.splits)

lemma decoder_decode_rest:
  "decoder_decode P d src = (r, d', src') \<Longrightarrow> length src' \<le> length src"
  by (auto simp: decoder_decode_def decode_header_def decode_body_def decode_message_def usize_holds_u32 Let_def
      split: if_splits option.splits sum.splits prod.splits)

text \<open>
  C29. Reading a buffer always ends. However the bytes came to be there, the decoding loop returns;
  every message it yields has used up at least the four bytes of its header, so that it yields at most
  a quarter as many messages as there are bytes; and unless it failed it has consumed all it could:
  what is left is less than a header, or less than the body that the header announced.
\<close>

theorem decode_loop_returns:
  "\<exists>ms e d' rest. decode_loop P d src = Some (ms, e, d', rest) \<and> decode_all P d src = (ms, e, d', rest)
     \<and> 4 * length ms + length rest \<le> length src + (if msg_header d = None then 0 else 4)
     \<and> (e = None \<longrightarrow> (case msg_header d' of None \<Rightarrow> length rest < 4 | Some n \<Rightarrow> length rest < unat n))"
proof -
  have "decode_loop P d src = Some (decode_all P d src)
     \<and> 4 * length (fst (decode_all P d src)) + length (snd (snd (snd (decode_all P d src)))) \<le> length src + header_credit d
     \<and> (fst (snd (decode_all P d src)) = None \<longrightarrow> (case msg_header (fst (snd (snd (decode_all P d src)))) of
          None \<Rightarrow> length (snd (snd (snd (decode_all P d src)))) < 4
        | Some n \<Rightarrow> length (snd (snd (snd (decode_all P d src)))) < unat n))"
  proof (induction P d src rule: decode_all.induct)
    case (1 P d src)
    obtain r d1 src1 where dec: "decoder_decode P d src = (r, d1, src1)" by (metis surj_pair)
    note unfold = decode_all.simps [of P d src] decode_loop.simps [of P d src]
    consider (err) e where "r = Inl e" | (more) "r = Inr None" | (msg) m where "r = Inr (Some m)"
      by (metis not_None_eq sum.exhaust)
    then show ?case
    proof cases
      case err
      with dec decoder_decode_rest [OF dec] show ?thesis by (simp add: unfold)
    next
      case more
      with dec decoder_decode_rest [OF dec] decoder_decode_cost(2) [of P d src d1 src1] show ?thesis
        by (simp add: unfold split: option.splits)
    next
      case (msg m)
      with "1.IH" [OF dec [symmetric] msg refl refl] dec decoder_decode_cost(1) [of P d src m d1 src1] show ?thesis
        by (simp add: unfold split_beta split: option.splits)
    qed
  qed
  then show ?thesis
    by (cases "decode_all P d src") (auto simp: header_credit_def split: if_splits option.splits)
qed

theorem decode_loop_returns_witness:
  "decode_loop ping_prost decoder_new [0, 0, 0, 2, 114, 0, 0, 0] = Some ([Ping], None, decoder_new, [0, 0])"
proof -
  have "decode_all ping_prost decoder_new [0, 0, 0, 2, 114, 0, 0, 0] = ([Ping], None, decoder_new, [0, 0])"
  proof -
    have bytes: "[0, 0, 0, 2, 114, 0, 0, 0] = frame ping_prost Ping @ [0, 0]"
      by (simp add: frame_def encode_message_def ping_prost_def put_u32_def)
    have "decode_all ping_prost decoder_new [0, 0] = ([], None, decoder_new, [0, 0])"
      by (simp add: decode_all.simps decoder_decode_def decode_header_def decode_body_def decoder_new_def)
    then show ?thesis
      unfolding bytes by (simp add: decode_all.simps [of _ _ "_ @ _"] decode_frame ping_prost_ok)
  qed
  with decode_loop_returns [of ping_prost decoder_new "[0, 0, 0, 2, 114, 0, 0, 0]"] show ?thesis by auto
qed

end
