(* ===== verification/Router_Connection.thy ===== *)
theory Router_Connection
  imports Router SinkWriter Codec
begin

text \<open>
  \<^verbatim>\<open>crates/router/src/connection.rs\<close>: the actor that serves one client of the router.

  A handler of the actor runs to completion before anything else touches the connection, so it
  is a function from a \<open>turn\<close> (the connection, the router's tables behind their lock, and the
  effects so far) to the turn it leaves. What the handler learns from outside (its own address,
  the clock, which actors are connected, the identities of channels it creates) is the record
  \<open>ctx\<close>. Messages to other actors and channels are not executed but listed as \<open>effect\<close>s, in the
  order of the calls.

  A \<^verbatim>\<open>ReplySender\<close> is named by the address of the connection that created it, since
  every connection creates exactly one (\<open>connection_new\<close>) and hands out clones of it.
\<close>

section \<open>State\<close>

type_synonym oneshot = nat
type_synonym spawn_handle = nat

datatype 'a effect =
    SendForward 'a call_request 'a    \<comment> \<open>\<^verbatim>\<open>dst.send(ForwardCallRequest { call_request, reply_to })\<close>\<close>
  | SendResponse 'a call_reply        \<comment> \<open>\<^verbatim>\<open>reply_sender.send(ForwardCallResponse { call_reply })\<close>\<close>
  | SendDrop 'a                       \<comment> \<open>\<^verbatim>\<open>old_connection.send(DropConnection)\<close>\<close>
  | Publish channel broadcast_request \<comment> \<open>\<^verbatim>\<open>sender.send(broadcast_request)\<close>\<close>
  | SpawnTopic spawn_handle channel   \<comment> \<open>\<^verbatim>\<open>ctx.spawn\<close> of the fold over a topic's receiver\<close>
  | CancelFuture spawn_handle         \<comment> \<open>\<^verbatim>\<open>ctx.cancel_future\<close>\<close>
  | NotifyHeld oneshot                \<comment> \<open>\<^verbatim>\<open>tx.send(())\<close>\<close>
  | DropHeld oneshot                  \<comment> \<open>a \<^verbatim>\<open>tx\<close> dropped without sending: its receiver is cancelled\<close>
  | StopCtx                           \<comment> \<open>\<^verbatim>\<open>ctx.stop()\<close>\<close>

record ('a, 's) connection =
  cn_config :: instance_config
  default_id :: "string option"
  instance_id :: "bytes option"
  services :: "string list"
  cn_output :: "('s, gsb_message) sink_write"
  reply_map :: "(string, 'a) hmap"
  hold_queue :: "(gsb_message \<times> oneshot) list"
  topic_map :: "(string, spawn_handle) hmap"
  conn_info :: string
  last_packet :: nat

record 'a ctx =
  address :: 'a
  now :: nat
  connected :: "'a \<Rightarrow> bool"
  sender_closed :: "'a \<Rightarrow> bool"
  canceled :: "oneshot \<Rightarrow> bool"
  fresh_channel :: channel
  fresh_handle :: spawn_handle
  fresh_tx :: oneshot

record ('a, 's) turn =
  act :: "('a, 's) connection"
  rt :: "'a router"
  effects :: "'a effect list"

definition emit :: "'a effect \<Rightarrow> ('a, 's) turn \<Rightarrow> ('a, 's) turn" where
  "emit e t = t\<lparr>effects := effects t @ [e]\<rparr>"

text \<open>\<^verbatim>\<open>connection()\<close>: the state a connection is created with.\<close>

definition connection_new :: "instance_config \<Rightarrow> string \<Rightarrow> 's \<Rightarrow> nat \<Rightarrow> ('a, 's) connection" where
  "connection_new config info writer instant = \<lparr>
     cn_config = config, default_id = None, instance_id = None, services = [],
     cn_output = sink_write_new writer, reply_map = [], hold_queue = [], topic_map = [],
     conn_info = info, last_packet = instant\<rparr>"

section \<open>Helpers of the actor\<close>

text \<open>\<^verbatim>\<open>split('/').skip(1)\<close>, then the first two pieces.\<close>

definition parse_node_id :: "string \<Rightarrow> string option" where
  "parse_node_id service =
     (case drop 1 (split_on (CHR ''/'') service) of
        net # node # _ \<Rightarrow> if net = ''net'' then Some node else None
      | _ \<Rightarrow> None)"

text \<open>\<^verbatim>\<open>self.output.write(item)\<close>, the result of which is ignored everywhere.\<close>

definition out_write :: "gsb_message \<Rightarrow> ('a, 's) connection \<Rightarrow> ('a, 's) connection" where
  "out_write m c = c\<lparr>cn_output := snd (snd (sw_write m (cn_output c)))\<rparr>"

definition send_reply :: "gsb_message \<Rightarrow> ('a, 's) turn \<Rightarrow> ('a, 's) turn" where
  "send_reply m t = t\<lparr>act := out_write m (act t)\<rparr>"

definition cleanup :: "'a ctx \<Rightarrow> ('a, 's) turn \<Rightarrow> ('a, 's) turn" where
  "cleanup x t =
     (case instance_id (act t) of
        None \<Rightarrow> t
      | Some iid \<Rightarrow>
          let r1 = fold (\<lambda>s r. snd (unregister_service (connected x) s (address x) r)) (services (act t)) (rt t);
              r2 = remove_connection iid (address x) r1;
              r3 = (case default_id (act t) of Some d \<Rightarrow> send_node_event (Lost d) r2 | None \<Rightarrow> r2)
          in t\<lparr>act := (act t)\<lparr>instance_id := None, services := []\<rparr>, rt := r3\<rparr>)"

text \<open>
  What a handler leaves for its stream to wait on: nothing; the answer of the destination of a
  forwarded call; an error reply that is already known; the answer of the destination of a push;
  the end of a displaced connection; or the moment a held message is written.
\<close>

datatype 'a future =
    FutReady
  | FutForward 'a string
  | FutRefused call_reply
  | FutPush 'a
  | FutDrop 'a
  | FutHeld oneshot

definition error_call_reply :: "string \<Rightarrow> CallReplyCode \<Rightarrow> string \<Rightarrow> call_reply" where
  "error_call_reply request_id code text = default_call_reply\<lparr>
     crp_request_id := request_id, crp_code := code_call code,
     crp_reply_type := code_reply_type Full, crp_data := as_bytes text\<rparr>"

text \<open>How the forwarding of a call can end, and the error reply it turns into.\<close>

datatype forward_result = Forwarded | ForwardCanceled | MailboxClosed | MailboxTimeout

definition forward_error :: "string \<Rightarrow> forward_result \<Rightarrow> call_reply option" where
  "forward_error request_id res =
     (case res of
        Forwarded \<Rightarrow> None
      | ForwardCanceled \<Rightarrow> Some (error_call_reply request_id ServiceFailure ''request canceled'')
      | MailboxClosed \<Rightarrow> Some (error_call_reply request_id ServiceFailure ''lost connection'')
      | MailboxTimeout \<Rightarrow> Some (error_call_reply request_id ServiceFailure ''stalled connection''))"

definition handle_call_request ::
  "'a ctx \<Rightarrow> call_request \<Rightarrow> ('a, 's) turn \<Rightarrow> 'a future \<times> ('a, 's) turn" where
  "handle_call_request x req t =
     (case resolve_node (rt t) (crq_address req) of
        Some dst \<Rightarrow> (FutForward dst (crq_request_id req), emit (SendForward dst req (address x)) t)
      | None \<Rightarrow>
          (FutRefused (error_call_reply (crq_request_id req) CallReplyBadRequest
             ''endpoint address not found''), t))"

definition handle_push_request ::
  "'a ctx \<Rightarrow> call_request \<Rightarrow> ('a, 's) turn \<Rightarrow> 'a future \<times> ('a, 's) turn" where
  "handle_push_request x req t =
     (case resolve_node (rt t) (crq_address req) of
        Some dst \<Rightarrow> (FutPush dst, emit (SendForward dst req (address x)) t)
      | None \<Rightarrow> (FutReady, t))"

text \<open>A full reply takes the pending request out, a partial one leaves it. The result is the
  error that is logged.\<close>

definition handle_call_reply ::
  "'a ctx \<Rightarrow> call_reply \<Rightarrow> ('a, 's) turn \<Rightarrow> (string + unit) \<times> ('a, 's) turn" where
  "handle_call_reply x rep t =
     (case (case get_reply_type rep of
              Full \<Rightarrow> hm_remove (crp_request_id rep) (reply_map (act t))
            | Partial \<Rightarrow> (hm_get (reply_map (act t)) (crp_request_id rep), reply_map (act t))) of
        (None, m) \<Rightarrow> (Inr (), t\<lparr>act := (act t)\<lparr>reply_map := m\<rparr>\<rparr>)
      | (Some dst, m) \<Rightarrow>
          let t1 = t\<lparr>act := (act t)\<lparr>reply_map := m\<rparr>\<rparr>
          in if sender_closed x dst
             then (Inl (''unable to send reply '' @ crp_request_id rep @ '', canceled''), t1)
             else (Inr (), emit (SendResponse dst rep) t1))"

text \<open>\<^verbatim>\<open>send_message\<close>: written now, or held back behind a fresh one-shot channel.\<close>

definition send_message ::
  "'a ctx \<Rightarrow> gsb_message \<Rightarrow> ('a, 's) turn \<Rightarrow> oneshot option \<times> ('a, 's) turn" where
  "send_message x m t =
     (let c = act t
      in if buffer_len (cn_output c) < high_buffer_mark (ic_config (cn_config c)) \<and> hold_queue c = []
         then (None, t\<lparr>act := out_write m c\<rparr>)
         else (Some (fresh_tx x), t\<lparr>act := c\<lparr>hold_queue := hold_queue c @ [(m, fresh_tx x)]\<rparr>\<rparr>))"

section \<open>Messages of the client\<close>

definition handle_register_request :: "'a ctx \<Rightarrow> register_request \<Rightarrow> ('a, 's) turn \<Rightarrow> ('a, 's) turn" where
  "handle_register_request x req t =
     (let service_id = rrq_service_id req in
      case register_service service_id (address x) (rt t) of (registered, r1) \<Rightarrow>
        if registered then
          (let c1 = (act t)\<lparr>services := hs_insert service_id (services (act t))\<rparr>;
               t1 = (if default_id c1 = None then
                       (case parse_node_id service_id of
                          Some node_id \<Rightarrow>
                            t\<lparr>act := c1\<lparr>default_id := Some node_id\<rparr>, rt := send_node_event (New node_id) r1\<rparr>
                        | None \<Rightarrow> t\<lparr>act := c1, rt := r1\<rparr>)
                     else t\<lparr>act := c1, rt := r1\<rparr>)
           in send_reply (RegisterReply default_register_reply) t1)
        else send_reply (RegisterReply (default_register_reply\<lparr>rrp_code := code_register RegisterConflict\<rparr>))
               (t\<lparr>rt := r1\<rparr>))"

definition handle_unregister_request :: "'a ctx \<Rightarrow> unregister_request \<Rightarrow> ('a, 's) turn \<Rightarrow> ('a, 's) turn" where
  "handle_unregister_request x req t =
     (let service_id = urq_service_id req in
      case unregister_service (connected x) service_id (address x) (rt t) of (unregistered, r1) \<Rightarrow>
        if unregistered then
          send_reply (UnregisterReply default_unregister_reply)
            (t\<lparr>act := (act t)\<lparr>services := hs_remove service_id (services (act t))\<rparr>, rt := r1\<rparr>)
        else send_reply (UnregisterReply (default_unregister_reply\<lparr>urp_code := code_unregister NotRegistered\<rparr>))
               (t\<lparr>rt := r1\<rparr>))"

text \<open>The source prepares a bad-request reply for a topic that is subscribed already, but sends
  the default one in both cases.\<close>

definition handle_subscribe_request :: "'a ctx \<Rightarrow> subscribe_request \<Rightarrow> ('a, 's) turn \<Rightarrow> ('a, 's) turn" where
  "handle_subscribe_request x req t =
     (let topic_id = srq_topic req;
          t1 = (if hm_contains (topic_map (act t)) topic_id then t
                else case subscribe_topic (fresh_channel x) topic_id (rt t) of (rx, r1) \<Rightarrow>
                  emit (SpawnTopic (fresh_handle x) rx)
                    (t\<lparr>act := (act t)\<lparr>topic_map := snd (hm_insert topic_id (fresh_handle x) (topic_map (act t)))\<rparr>,
                       rt := r1\<rparr>))
      in send_reply (SubscribeReply default_subscribe_reply) t1)"

definition handle_unsubscribe_request :: "unsubscribe_request \<Rightarrow> ('a, 's) turn \<Rightarrow> ('a, 's) turn" where
  "handle_unsubscribe_request req t =
     (case hm_remove (usrq_topic req) (topic_map (act t)) of
        (Some handle, m) \<Rightarrow>
          send_reply (UnsubscribeReply default_unsubscribe_reply)
            (emit (CancelFuture handle) (t\<lparr>act := (act t)\<lparr>topic_map := m\<rparr>\<rparr>))
      | (None, m) \<Rightarrow>
          send_reply (UnsubscribeReply (default_unsubscribe_reply\<lparr>usrp_code := code_unsubscribe NotSubscribed\<rparr>))
            (t\<lparr>act := (act t)\<lparr>topic_map := m\<rparr>\<rparr>))"

definition handle_broadcast_request :: "broadcast_request \<Rightarrow> ('a, 's) turn \<Rightarrow> ('a, 's) turn" where
  "handle_broadcast_request req t =
     send_reply (BroadcastReply default_broadcast_reply)
       (case find_topic (rt t) (brq_topic req) of
          Some sender \<Rightarrow> emit (Publish sender req) t
        | None \<Rightarrow> t)"

definition handle_hello :: "'a ctx \<Rightarrow> hello \<Rightarrow> ('a, 's) turn \<Rightarrow> 'a future \<times> ('a, 's) turn" where
  "handle_hello x h t =
     (if instance_id (act t) \<noteq> None then (FutReady, emit StopCtx t)
      else
        let t1 = t\<lparr>act := (act t)\<lparr>instance_id := Some (hl_instance_id h)\<rparr>\<rparr>
        in case new_connection (hl_instance_id h) (address x) (rt t1) of
             (Some old, r1) \<Rightarrow> (FutDrop old, emit (SendDrop old) (t1\<lparr>rt := r1\<rparr>))
           | (None, r1) \<Rightarrow> (FutReady, t1\<lparr>rt := r1\<rparr>))"

text \<open>Every message of the client; those a router never expects stop the connection.\<close>

definition handle_message ::
  "'a ctx \<Rightarrow> gsb_message \<Rightarrow> ('a, 's) turn \<Rightarrow> 'a future \<times> ('a, 's) turn" where
  "handle_message x m t =
     (case m of
        CallRequest req \<Rightarrow>
          if crq_no_reply req then handle_push_request x req t else handle_call_request x req t
      | CallReply rep \<Rightarrow> (FutReady, snd (handle_call_reply x rep t))
      | RegisterRequest req \<Rightarrow> (FutReady, handle_register_request x req t)
      | UnregisterRequest req \<Rightarrow> (FutReady, handle_unregister_request x req t)
      | SubscribeRequest req \<Rightarrow> (FutReady, handle_subscribe_request x req t)
      | UnsubscribeRequest req \<Rightarrow> (FutReady, handle_unsubscribe_request req t)
      | BroadcastRequest req \<Rightarrow> (FutReady, handle_broadcast_request req t)
      | Hello h \<Rightarrow> handle_hello x h t
      | Ping \<Rightarrow> (FutReady, send_reply Ping t)
      | Pong \<Rightarrow> (FutReady, t)
      | _ \<Rightarrow> (FutReady, emit StopCtx t))"

definition handle_input ::
  "'a ctx \<Rightarrow> protocol_error + gsb_message \<Rightarrow> ('a, 's) turn \<Rightarrow> 'a future \<times> ('a, 's) turn" where
  "handle_input x item t =
     (let t1 = t\<lparr>act := (act t)\<lparr>last_packet := now x\<rparr>\<rparr>
      in case item of
           Inl (Io ConnectionReset) \<Rightarrow> (FutReady, emit StopCtx t1)
         | Inl e \<Rightarrow> (FutReady, emit StopCtx t1)
         | Inr m \<Rightarrow> handle_message x m t1)"

definition input_started :: "('a, 's) turn \<Rightarrow> ('a, 's) turn" where
  "input_started t = t\<lparr>act := out_write (Hello (ic_hello (cn_config (act t)))) (act t)\<rparr>"

text \<open>The default \<^verbatim>\<open>InputHandler::finished\<close>.\<close>

definition input_finished :: "('a, 's) turn \<Rightarrow> ('a, 's) turn" where
  "input_finished t = emit StopCtx t"

section \<open>Messages of other actors, timers and the writer\<close>

definition handle_drop_connection :: "'a ctx \<Rightarrow> ('a, 's) turn \<Rightarrow> ('a, 's) turn" where
  "handle_drop_connection x t = emit StopCtx (cleanup x t)"

text \<open>\<^verbatim>\<open>Actor::stopped\<close>\<close>

definition stopped :: "'a ctx \<Rightarrow> ('a, 's) turn \<Rightarrow> ('a, 's) turn" where
  "stopped x t = cleanup x t"

definition handle_forward_request ::
  "'a ctx \<Rightarrow> call_request \<Rightarrow> 'a \<Rightarrow> ('a, 's) turn \<Rightarrow> oneshot option \<times> ('a, 's) turn" where
  "handle_forward_request x req reply_to t =
     send_message x (CallRequest req)
       (if crq_no_reply req then t
        else t\<lparr>act := (act t)\<lparr>reply_map := snd (hm_insert (crq_request_id req) reply_to (reply_map (act t)))\<rparr>\<rparr>)"

definition handle_forward_response ::
  "'a ctx \<Rightarrow> call_reply \<Rightarrow> ('a, 's) turn \<Rightarrow> 'a future \<times> ('a, 's) turn" where
  "handle_forward_response x rep t =
     (case send_message x (CallReply rep) t of
        (None, t1) \<Rightarrow> (FutReady, t1)
      | (Some tx, t1) \<Rightarrow> (FutHeld tx, t1))"

text \<open>An item of a subscribed topic's receiver; \<open>None\<close> is the receiver's lag error.\<close>

definition handle_topic_item ::
  "'a ctx \<Rightarrow> broadcast_request option \<Rightarrow> ('a, 's) turn \<Rightarrow> oneshot option \<times> ('a, 's) turn" where
  "handle_topic_item x item t =
     (case item of
        Some req \<Rightarrow> send_message x (BroadcastRequest req) t
      | None \<Rightarrow> (None, t))"

text \<open>
  \<^verbatim>\<open>buffer_empty\<close>: the queue is drained; the messages whose sender still waits are written
  until \<^verbatim>\<open>high_buffer_mark\<close> of them have been taken; whatever the iterator has not reached by
  then is dropped with it.
\<close>

fun drain_hold ::
  "(oneshot \<Rightarrow> bool) \<Rightarrow> nat \<Rightarrow> (gsb_message \<times> oneshot) list \<Rightarrow> ('a, 's) turn \<Rightarrow> ('a, 's) turn" where
  "drain_hold gone 0 q t = fold (\<lambda>(m, tx). emit (DropHeld tx)) q t"
| "drain_hold gone (Suc n) [] t = t"
| "drain_hold gone (Suc n) ((m, tx) # q) t =
     (if gone tx then drain_hold gone (Suc n) q (emit (DropHeld tx) t)
      else drain_hold gone n q (emit (NotifyHeld tx) (t\<lparr>act := out_write m (act t)\<rparr>)))"

definition buffer_empty :: "'a ctx \<Rightarrow> ('a, 's) turn \<Rightarrow> ('a, 's) turn" where
  "buffer_empty x t =
     (if hold_queue (act t) = [] then t
      else drain_hold (canceled x) (high_buffer_mark (ic_config (cn_config (act t))))
             (hold_queue (act t)) (t\<lparr>act := (act t)\<lparr>hold_queue := []\<rparr>\<rparr>))"

text \<open>The closure of \<^verbatim>\<open>run_interval\<close> in \<^verbatim>\<open>Actor::started\<close>.\<close>

definition remove_dead_replies :: "'a ctx \<Rightarrow> ('a, 's) connection \<Rightarrow> ('a, 's) connection" where
  "remove_dead_replies x c =
     (let dead_replies = map fst (filter (\<lambda>(i, s). sender_closed x s) (reply_map c))
      in c\<lparr>reply_map := fold (\<lambda>i m. snd (hm_remove i m)) dead_replies (reply_map c)\<rparr>)"

definition ping_tick :: "'a ctx \<Rightarrow> ('a, 's) turn \<Rightarrow> ('a, 's) turn" where
  "ping_tick x t =
     (let cfg = ic_config (cn_config (act t));
          since_last = Nanos (now x - last_packet (act t))
      in if since_last > duration_div (ping_interval cfg) 2 then
           if since_last > ping_timeout cfg then emit StopCtx t
           else t\<lparr>act := remove_dead_replies x (out_write Ping (act t))\<rparr>
         else t\<lparr>act := remove_dead_replies x (act t)\<rparr>)"

text \<open>\<^verbatim>\<open>GetNodeInfo\<close>; \<open>hex\<close> stands for \<^verbatim>\<open>hex::encode\<close> of a crate outside the repository.\<close>

record node_info =
  ni_identities :: "string list"
  ni_seen :: string
  ni_peer :: string
  ni_session_id :: string
  ni_id :: "string option"

definition get_node_info :: "(bytes \<Rightarrow> string) \<Rightarrow> 'a ctx \<Rightarrow> ('a, 's) connection \<Rightarrow> node_info" where
  "get_node_info hex x c =
     (let last_seen = now x - last_packet c
      in \<lparr>ni_identities = List.map_filter parse_node_id (services c),
          ni_seen = show_nat (last_seen div 1000000000) @ ''.''
            @ show_nat (last_seen mod 1000000000 div 1000000) @ ''s'',
          ni_peer = conn_info c,
          ni_session_id = (case instance_id c of Some i \<Rightarrow> hex i | None \<Rightarrow> ''unknown''),
          ni_id = default_id c\<rparr>)"

section \<open>Polling what a handler left\<close>

text \<open>
  \<open>answer\<close> is what has come back so far on the future's channel, if anything. The error of a call
  is written to the caller when its future completes; the other futures end silently.
\<close>

definition poll_future ::
  "('a future \<Rightarrow> forward_result option) \<Rightarrow> 'a future \<Rightarrow> ('a, 's) turn \<Rightarrow> bool \<times> ('a, 's) turn" where
  "poll_future answer fut t =
     (case fut of
        FutReady \<Rightarrow> (True, t)
      | FutRefused reply \<Rightarrow> (True, send_reply (CallReply reply) t)
      | FutForward dst request_id \<Rightarrow>
          (case answer fut of
             None \<Rightarrow> (False, t)
           | Some res \<Rightarrow>
               (case forward_error request_id res of
                  Some reply \<Rightarrow> (True, send_reply (CallReply reply) t)
                | None \<Rightarrow> (True, t)))
      | _ \<Rightarrow> (answer fut \<noteq> None, t))"

lemmas conn_op_defs [conn_defs] =
  emit_def send_reply_def cleanup_def handle_call_request_def handle_push_request_def
  handle_call_reply_def send_message_def handle_register_request_def
  handle_unregister_request_def handle_subscribe_request_def handle_unsubscribe_request_def
  handle_broadcast_request_def handle_hello_def handle_message_def handle_input_def
  input_started_def input_finished_def handle_drop_connection_def stopped_def
  handle_forward_request_def handle_forward_response_def handle_topic_item_def
  ping_tick_def poll_future_def

section \<open>Facts about the operations\<close>

definition writable :: "('a, 's) connection \<Rightarrow> bool" where
  "writable c \<longleftrightarrow> \<not> closing (cn_output c) \<and> \<not> closed (cn_output c)"

definition queued :: "('a, 's) connection \<Rightarrow> gsb_message list" where
  "queued c = buffer (cn_output c)"

text \<open>Everything on its way to the client, in the order in which it is to be sent.\<close>

definition outgoing :: "('a, 's) connection \<Rightarrow> gsb_message list" where
  "outgoing c = queued c @ map fst (hold_queue c)"

lemma out_write_frame [simp]:
  "cn_config (out_write m c) = cn_config c"
  "default_id (out_write m c) = default_id c"
  "instance_id (out_write m c) = instance_id c"
  "services (out_write m c) = services c"
  "reply_map (out_write m c) = reply_map c"
  "hold_queue (out_write m c) = hold_queue c"
  "topic_map (out_write m c) = topic_map c"
  "conn_info (out_write m c) = conn_info c"
  "last_packet (out_write m c) = last_packet c"
  "writable (out_write m c) = writable c"
  by (simp_all add: out_write_def writable_def sw_write_def)

lemma queued_out_write [simp]: "queued (out_write m c) = (if writable c then queued c @ [m] else queued c)"
  by (simp add: out_write_def queued_def writable_def sw_write_def)

lemma queued_update [simp]:
  "queued (c\<lparr>services := ss\<rparr>) = queued c" "queued (c\<lparr>default_id := d\<rparr>) = queued c"
  "queued (c\<lparr>instance_id := i\<rparr>) = queued c" "queued (c\<lparr>reply_map := m\<rparr>) = queued c"
  "queued (c\<lparr>hold_queue := q\<rparr>) = queued c" "queued (c\<lparr>topic_map := tm\<rparr>) = queued c"
  "queued (c\<lparr>last_packet := n\<rparr>) = queued c"
  "writable (c\<lparr>services := ss\<rparr>) = writable c" "writable (c\<lparr>default_id := d\<rparr>) = writable c"
  "writable (c\<lparr>instance_id := i\<rparr>) = writable c" "writable (c\<lparr>reply_map := m\<rparr>) = writable c"
  "writable (c\<lparr>hold_queue := q\<rparr>) = writable c" "writable (c\<lparr>topic_map := tm\<rparr>) = writable c"
  "writable (c\<lparr>last_packet := n\<rparr>) = writable c"
  by (simp_all add: queued_def writable_def)

lemma emit_simps [simp]:
  "act (emit e t) = act t" "rt (emit e t) = rt t" "effects (emit e t) = effects t @ [e]"
  by (simp_all add: emit_def)

lemma send_reply_simps [simp]:
  "act (send_reply m t) = out_write m (act t)" "rt (send_reply m t) = rt t"
  "effects (send_reply m t) = effects t"
  by (simp_all add: send_reply_def)

lemma split_on_segment:
  "c \<notin> set a \<Longrightarrow> split_on c (a @ c # b) = a # split_on c b"
  by (induction a) auto

lemma split_on_single: "c \<notin> set a \<Longrightarrow> split_on c a = [a]"
  by (induction a) auto

lemma parse_node_id_net:
  "CHR ''/'' \<notin> set node \<Longrightarrow> parse_node_id (''/net/'' @ node) = Some node"
  "CHR ''/'' \<notin> set node \<Longrightarrow> parse_node_id (''/net/'' @ node @ CHR ''/'' # rest) = Some node"
  by (simp_all add: parse_node_id_def split_on_segment split_on_single)

lemma send_message_cases:
  obtains "send_message x m t = (None, t\<lparr>act := out_write m (act t)\<rparr>)"
      and "length (queued (act t)) < high_buffer_mark (ic_config (cn_config (act t)))"
      and "hold_queue (act t) = []"
  | "send_message x m t =
       (Some (fresh_tx x), t\<lparr>act := (act t)\<lparr>hold_queue := hold_queue (act t) @ [(m, fresh_tx x)]\<rparr>\<rparr>)"
  by (force simp: send_message_def Let_def buffer_len_def queued_def)

lemma send_message_frame [simp]:
  "rt (snd (send_message x m t)) = rt t"
  "effects (snd (send_message x m t)) = effects t"
  "cn_config (act (snd (send_message x m t))) = cn_config (act t)"
  "default_id (act (snd (send_message x m t))) = default_id (act t)"
  "instance_id (act (snd (send_message x m t))) = instance_id (act t)"
  "services (act (snd (send_message x m t))) = services (act t)"
  "reply_map (act (snd (send_message x m t))) = reply_map (act t)"
  "topic_map (act (snd (send_message x m t))) = topic_map (act t)"
  "writable (act (snd (send_message x m t))) = writable (act t)"
  by (simp_all add: send_message_def Let_def)

fun told :: "'a effect \<Rightarrow> oneshot option" where
  "told (NotifyHeld tx) = Some tx"
| "told (DropHeld tx) = Some tx"
| "told _ = None"

definition is_notify :: "'a effect \<Rightarrow> bool" where
  "is_notify e = (case e of NotifyHeld _ \<Rightarrow> True | _ \<Rightarrow> False)"

lemma is_notify_simps [simp]: "is_notify (NotifyHeld tx)" "\<not> is_notify (DropHeld tx)"
  by (simp_all add: is_notify_def)

text \<open>The held messages that are written when the buffer runs empty.\<close>

definition released :: "(oneshot \<Rightarrow> bool) \<Rightarrow> nat \<Rightarrow> (gsb_message \<times> oneshot) list \<Rightarrow> (gsb_message \<times> oneshot) list" where
  "released gone n q = take n (filter (\<lambda>(m, tx). \<not> gone tx) q)"

lemma released_simps [simp]:
  "released gone 0 q = []" "released gone n [] = []"
  "released gone (Suc n) ((m, tx) # q) =
     (if gone tx then released gone (Suc n) q else (m, tx) # released gone n q)"
  by (simp_all add: released_def)

lemma drop_all_effects:
  "fold (\<lambda>(m, tx). emit (DropHeld tx)) q t = t\<lparr>effects := effects t @ map (DropHeld \<circ> snd) q\<rparr>"
  by (induction q arbitrary: t) (auto simp: emit_def)

lemma drain_hold_act:
  "act (drain_hold gone n q t) = fold out_write (map fst (released gone n q)) (act t)
   \<and> rt (drain_hold gone n q t) = rt t"
  by (induction gone n q t rule: drain_hold.induct) (auto simp: drop_all_effects)

lemma drain_hold_effects:
  "\<exists>es. effects (drain_hold gone n q t) = effects t @ es
     \<and> map told es = map (Some \<circ> snd) q
     \<and> filter is_notify es = map (NotifyHeld \<circ> snd) (released gone n q)"
proof (induction gone n q t rule: drain_hold.induct)
  case (1 gone q t)
  have "filter is_notify (map (DropHeld \<circ> snd) q) = []" by (induction q) auto
  then show ?case
    by (intro exI [of _ "map (DropHeld \<circ> snd) q"]) (simp add: drop_all_effects)
next
  case (3 gone n m tx q t)
  show ?case
  proof (cases "gone tx")
    case True
    with 3(1) obtain es where "effects (drain_hold gone (Suc n) q (emit (DropHeld tx) t)) = effects t @ DropHeld tx # es"
      "map told es = map (Some \<circ> snd) q" "filter is_notify es = map (NotifyHeld \<circ> snd) (released gone (Suc n) q)"
      by auto
    with True show ?thesis by (intro exI [of _ "DropHeld tx # es"]) simp
  next
    case False
    with 3(2) obtain es where
      "effects (drain_hold gone n q (emit (NotifyHeld tx) (t\<lparr>act := out_write m (act t)\<rparr>))) = effects t @ NotifyHeld tx # es"
      "map told es = map (Some \<circ> snd) q" "filter is_notify es = map (NotifyHeld \<circ> snd) (released gone n q)"
      by auto
    with False show ?thesis by (intro exI [of _ "NotifyHeld tx # es"]) simp
  qed
qed simp

lemma drain_hold_overflow:
  assumes "\<And>tx. \<not> gone tx"
  shows "effects (drain_hold gone (length q) (q @ q') t) =
     effects t @ map (NotifyHeld \<circ> snd) q @ map (DropHeld \<circ> snd) q'"
  by (induction q arbitrary: t) (auto simp: assms drop_all_effects)

lemma fold_out_write:
  "queued (fold out_write ms c) = (if writable c then queued c @ ms else queued c)"
  "hold_queue (fold out_write ms c) = hold_queue c"
  "services (fold out_write ms c) = services c"
  "instance_id (fold out_write ms c) = instance_id c"
  "default_id (fold out_write ms c) = default_id c"
  "reply_map (fold out_write ms c) = reply_map c"
  "topic_map (fold out_write ms c) = topic_map c"
  "cn_config (fold out_write ms c) = cn_config c"
  "writable (fold out_write ms c) = writable c"
  by (induction ms arbitrary: c) auto

lemma buffer_empty_act:
  "act (buffer_empty x t) = fold out_write
     (map fst (released (canceled x) (high_buffer_mark (ic_config (cn_config (act t)))) (hold_queue (act t))))
     ((act t)\<lparr>hold_queue := []\<rparr>)
   \<and> rt (buffer_empty x t) = rt t"
  by (simp add: buffer_empty_def drain_hold_act)

lemma remove_dead_replies_frame [simp]:
  "queued (remove_dead_replies x c) = queued c" "services (remove_dead_replies x c) = services c"
  "instance_id (remove_dead_replies x c) = instance_id c"
  "default_id (remove_dead_replies x c) = default_id c"
  "writable (remove_dead_replies x c) = writable c"
  by (simp_all add: remove_dead_replies_def Let_def)

lemma remove_all_lookup:
  "hm_get (fold (\<lambda>i m. snd (hm_remove i m)) is m) k = (if k \<in> set is then None else hm_get m k)"
  by (induction "is" arbitrary: m) auto

lemma remove_dead_replies_lookup:
  assumes "hm_ok (reply_map c)"
  shows "hm_get (reply_map (remove_dead_replies x c)) k =
     (case hm_get (reply_map c) k of
        Some s \<Rightarrow> if sender_closed x s then None else Some s
      | None \<Rightarrow> None)"
proof -
  have "k \<in> set (map fst (filter (\<lambda>(i, s). sender_closed x s) (reply_map c)))
      \<longleftrightarrow> (\<exists>s. hm_get (reply_map c) k = Some s \<and> sender_closed x s)"
    using hm_get_entry [OF assms] by force
  then show ?thesis
    by (auto simp: remove_dead_replies_def Let_def remove_all_lookup split: option.splits)
qed

text \<open>What a clean-up leaves in the tables.\<close>

lemma fold_unregister_frame [simp]:
  "registered_instances (fold (\<lambda>s r. snd (unregister_service live s c r)) ss r) = registered_instances r"
  "topics (fold (\<lambda>s r. snd (unregister_service live s c r)) ss r) = topics r"
  "node_trace (fold (\<lambda>s r. snd (unregister_service live s c r)) ss r) = node_trace r"
  by (induction ss arbitrary: r) auto

lemma fold_unregister_instance [simp]:
  "instance_of (fold (\<lambda>s r. snd (unregister_service live s c r)) ss r) = instance_of r"
  by (simp add: instance_of_def)

lemma cleanup_owner:
  "owner (rt (cleanup x t)) s =
     (if instance_id (act t) \<noteq> None \<and> s \<in> set (services (act t))
         \<and> removable (connected x) (address x) (owner (rt t) s)
      then None else owner (rt t) s)"
  using registry.unreg_all_own [of "connected x" "address x" "services (act t)" "rt t" s]
  by (auto simp: cleanup_def Let_def split: option.splits)

lemma cleanup_instance:
  "instance_of (rt (cleanup x t)) =
     (case instance_id (act t) of
        Some i \<Rightarrow> (if instance_of (rt t) i = Some (address x)
                   then (instance_of (rt t))(i := None) else instance_of (rt t))
      | None \<Rightarrow> instance_of (rt t))"
  by (auto simp: cleanup_def Let_def remove_connection_instance split: option.splits)

lemma cleanup_act [simp]:
  "instance_id (act (cleanup x t)) = None"
  "effects (cleanup x t) = effects t"
  "services (act (cleanup x t)) = (if instance_id (act t) = None then services (act t) else [])"
  "reply_map (act (cleanup x t)) = reply_map (act t)"
  "topics (rt (cleanup x t)) = topics (rt t)"
  by (auto simp: cleanup_def Let_def split: option.splits)

lemma cleanup_twice: "cleanup x (cleanup y t) = cleanup y t"
  by (simp add: cleanup_def [of x "cleanup y t"])

section \<open>Properties\<close>

text \<open>
  A request to register a name is answered by exactly one reply, and the reply tells the
  truth: it is a success exactly when nobody held the name, in which case the connection now
  owns it and remembers it for its clean-up, and a conflict otherwise, in which case no table
  and no field of the connection changed.
\<close>

lemma register_reply_tells_truth:
  assumes "writable (act t)"
  shows "let (fut, t') = handle_input x (Inr (RegisterRequest req)) t;
             s = rrq_service_id req;
             free = (owner (rt t) s = None)
         in fut = FutReady
          \<and> queued (act t') = queued (act t) @ [RegisterReply \<lparr>rrp_code = (if free then 0 else 409), rrp_message = []\<rparr>]
          \<and> owner (rt t') = (if free then (owner (rt t))(s \<mapsto> address x) else owner (rt t))
          \<and> set (services (act t')) = (if free then insert s (set (services (act t))) else set (services (act t)))
          \<and> instance_of (rt t') = instance_of (rt t) \<and> topics (rt t') = topics (rt t)
          \<and> effects t' = effects t"
proof -
  obtain ok r1 where reg: "register_service (rrq_service_id req) (address x) (rt t) = (ok, r1)"
    by (metis surj_pair)
  have ok: "ok \<longleftrightarrow> owner (rt t) (rrq_service_id req) = None"
    and own: "owner r1 = (if owner (rt t) (rrq_service_id req) = None
       then (owner (rt t))(rrq_service_id req \<mapsto> address x) else owner (rt t))"
    and frame: "instance_of r1 = instance_of (rt t)" "topics r1 = topics (rt t)"
    using register_service_effect [of "rrq_service_id req" "address x" "rt t"]
      instance_frames(1) [of "rrq_service_id req" "address x" "rt t"]
      router_frames(2) [of "rrq_service_id req" "address x" "rt t"] reg
    by simp_all
  show ?thesis
    using assms reg ok own frame
    by (auto simp: handle_input_def handle_message_def handle_register_request_def Let_def
        default_register_reply_def split: option.splits)
qed

text \<open>A connection at address 1 and its environment, for the witnesses.\<close>

definition sample_ctx :: "nat ctx" where
  "sample_ctx = \<lparr>address = 1, now = 0, connected = (\<lambda>_. True), sender_closed = (\<lambda>_. False),
     canceled = (\<lambda>_. False), fresh_channel = 100, fresh_handle = 200, fresh_tx = 300\<rparr>"

definition sample_turn :: "(nat, nat) turn" where
  "sample_turn = \<lparr>act = connection_new sample_instance ''peer'' 16 0, rt = empty_router, effects = []\<rparr>"

lemma sample_turn_simps [simp]:
  "writable (act sample_turn)" "queued (act sample_turn) = []" "rt sample_turn = empty_router"
  "effects sample_turn = []" "services (act sample_turn) = []" "instance_id (act sample_turn) = None"
  "reply_map (act sample_turn) = []" "hold_queue (act sample_turn) = []"
  "high_buffer_mark (ic_config (cn_config (act sample_turn))) = 16"
  "last_packet (act sample_turn) = 0"
  by (simp_all add: sample_turn_def connection_new_def sink_write_new_def writable_def queued_def
      sample_instance_def with_app_def gc_interval_secs_def default_config_def)

lemma register_reply_tells_truth_example:
  "queued (act (snd (handle_input sample_ctx (Inr (RegisterRequest \<lparr>rrq_service_id = ''/a''\<rparr>)) sample_turn)))
     = [RegisterReply \<lparr>rrp_code = 0, rrp_message = []\<rparr>]"
  using register_reply_tells_truth [of sample_turn sample_ctx "\<lparr>rrq_service_id = ''/a''\<rparr>"]
  by (simp add: Let_def split_beta)

text \<open>
  A request to give a name back is answered by exactly one reply: success exactly when the
  name was held by this connection or by one that is gone, after which nobody owns it; in every
  other case the answer is \<open>NotRegistered\<close> and no name changes its owner.
\<close>

lemma unregister_reply_tells_truth:
  assumes "writable (act t)"
  shows "let (fut, t') = handle_input x (Inr (UnregisterRequest req)) t;
             s = urq_service_id req;
             done = removable (connected x) (address x) (owner (rt t) s)
         in fut = FutReady
          \<and> queued (act t') = queued (act t) @ [UnregisterReply \<lparr>urp_code = (if done then 0 else 404)\<rparr>]
          \<and> owner (rt t') = (if done then (owner (rt t))(s := None) else owner (rt t))
          \<and> set (services (act t')) = (if done then set (services (act t)) - {s} else set (services (act t)))
          \<and> effects t' = effects t"
proof -
  obtain ok r1 where unreg:
    "unregister_service (connected x) (urq_service_id req) (address x) (rt t) = (ok, r1)"
    by (metis surj_pair)
  with unregister_service_effect [of "connected x" "urq_service_id req" "address x" "rt t"]
  have "ok \<longleftrightarrow> removable (connected x) (address x) (owner (rt t) (urq_service_id req))"
    and "owner r1 = (if ok then (owner (rt t))(urq_service_id req := None) else owner (rt t))"
    by simp_all
  with assms unreg show ?thesis
    by (auto simp: handle_input_def handle_message_def handle_unregister_request_def Let_def
        default_unregister_reply_def)
qed

lemma unregister_reply_tells_truth_example:
  "queued (act (snd (handle_input sample_ctx (Inr (UnregisterRequest \<lparr>urq_service_id = ''/a''\<rparr>)) sample_turn)))
     = [UnregisterReply \<lparr>urp_code = 404\<rparr>]"
  using unregister_reply_tells_truth [of sample_turn sample_ctx "\<lparr>urq_service_id = ''/a''\<rparr>"]
  by (simp add: Let_def split_beta)

text \<open>
  C13. Life of a call at the caller's side. The longest registered prefix of the address decides
  where the call goes. With no such prefix the caller gets one bad-request reply (code 400); otherwise
  the call is forwarded once, to that connection, and when the forwarding ends the caller gets one
  failure reply (code 500) if and only if the forwarding failed, whose text says how. Every error reply
  carries the request's id and is a full one (type 0). (For a call that expects a reply, while the
  caller's connection is open for writing.)
\<close>

theorem call_forwarded_or_refused:
  assumes "writable (act t)" and "\<not> crq_no_reply req"
  shows "let (fut, t1) = handle_input x (Inr (CallRequest req)) t;
             (fin, t2) = poll_future answer fut t1;
             failure = (\<lambda>code text. CallReply \<lparr>crp_request_id = crq_request_id req, crp_code = code,
               crp_reply_type = 0, crp_data = as_bytes text\<rparr>)
         in (case resolve_node (rt t) (crq_address req) of
               None \<Rightarrow> fin \<and> effects t2 = effects t
                 \<and> queued (act t2) = queued (act t) @ [failure 400 ''endpoint address not found'']
             | Some dst \<Rightarrow> effects t2 = effects t @ [SendForward dst req (address x)]
                 \<and> (fin \<longleftrightarrow> answer (FutForward dst (crq_request_id req)) \<noteq> None)
                 \<and> queued (act t2) = queued (act t) @
                     (case answer (FutForward dst (crq_request_id req)) of
                        None \<Rightarrow> [] | Some Forwarded \<Rightarrow> []
                      | Some ForwardCanceled \<Rightarrow> [failure 500 ''request canceled'']
                      | Some MailboxClosed \<Rightarrow> [failure 500 ''lost connection'']
                      | Some MailboxTimeout \<Rightarrow> [failure 500 ''stalled connection'']))
            \<and> rt t2 = rt t"
  using assms
  by (auto simp: handle_input_def handle_message_def handle_call_request_def Let_def error_call_reply_def
      default_call_reply_def poll_future_def forward_error_def split: option.splits forward_result.splits)

definition sample_call :: call_request where
  "sample_call = \<lparr>crq_caller = ''me'', crq_address = ''/x/y'', crq_request_id = ''r1'',
     crq_data = [1], crq_no_reply = False\<rparr>"

theorem call_forwarded_or_refused_witness:
  "queued (act (snd (poll_future (\<lambda>_. None) (fst (handle_input sample_ctx (Inr (CallRequest sample_call)) sample_turn))
      (snd (handle_input sample_ctx (Inr (CallRequest sample_call)) sample_turn)))))
   = [CallReply \<lparr>crp_request_id = ''r1'', crp_code = 400, crp_reply_type = 0,
       crp_data = as_bytes ''endpoint address not found''\<rparr>]"
proof -
  have none: "resolve_node empty_router (crq_address sample_call) = None"
    by (simp add: sample_call_def empty_router_def new_router_def resolve_node_def pb_get_def
        pb_default_def find_map_None)
  have "\<not> crq_no_reply sample_call" "crq_request_id sample_call = ''r1''"
    by (simp_all add: sample_call_def)
  with none show ?thesis
    using call_forwarded_or_refused [of sample_turn sample_call sample_ctx "\<lambda>_. None"]
    by (simp add: Let_def split_beta)
qed

text \<open>
  C14. Replies go back to the caller that is waiting under their id, and to nobody else. A full
  reply ends the wait, so a second reply with the same id is not passed on; a partial one keeps
  the caller waiting. A reply nobody waits for changes nothing.
\<close>

theorem reply_routed_to_waiting_caller:
  "let (fut, t') = handle_input x (Inr (CallReply rep)) t;
       waiting = hm_get (reply_map (act t)) (crp_request_id rep)
   in fut = FutReady \<and> rt t' = rt t \<and> queued (act t') = queued (act t)
    \<and> effects t' = effects t @
        (case waiting of Some dst \<Rightarrow> if sender_closed x dst then [] else [SendResponse dst rep] | None \<Rightarrow> [])
    \<and> hm_get (reply_map (act t')) = (if get_reply_type rep = Full
         then (hm_get (reply_map (act t)))(crp_request_id rep := None)
         else hm_get (reply_map (act t)))"
proof (cases "get_reply_type rep")
  case Full
  obtain old m where "hm_remove (crp_request_id rep) (reply_map (act t)) = (old, m)" by (metis surj_pair)
  moreover from this have "old = hm_get (reply_map (act t)) (crp_request_id rep)"
      "hm_get m = (hm_get (reply_map (act t)))(crp_request_id rep := None)"
    using hm.rem_old [of "crp_request_id rep" "reply_map (act t)"]
      hm.rem_get [of "crp_request_id rep" "reply_map (act t)"] by simp_all
  ultimately show ?thesis
    using Full by (auto simp: handle_input_def handle_message_def handle_call_reply_def Let_def
        split: option.splits)
next
  case Partial
  then show ?thesis
    by (auto simp: handle_input_def handle_message_def handle_call_reply_def Let_def
        split: option.splits)
qed

text \<open>
  C17. Flow control keeps order and bound: whatever is forwarded to a client (calls, replies and
  broadcasts alike) is appended to what was on its way before, and it goes straight into the
  output buffer only while the buffer is below the high mark and nothing is held back.
\<close>

theorem forwarding_keeps_order:
  assumes "writable (act t)"
  shows "outgoing (act (snd (send_message x m t))) = outgoing (act t) @ [m]
     \<and> length (queued (act (snd (send_message x m t))))
         \<le> max (length (queued (act t))) (high_buffer_mark (ic_config (cn_config (act t))))
     \<and> (fst (send_message x m t) = None \<longleftrightarrow>
          hold_queue (act t) = [] \<and> length (queued (act t)) < high_buffer_mark (ic_config (cn_config (act t))))"
  using assms by (auto simp: send_message_def Let_def outgoing_def buffer_len_def queued_def [symmetric])

theorem forwarding_keeps_order_witness:
  "outgoing (act (snd (send_message sample_ctx Ping sample_turn))) = [Ping]"
  using forwarding_keeps_order [of sample_turn sample_ctx Ping] by (simp add: outgoing_def)

text \<open>
  C15. When the output buffer has run empty, every sender of a held message is told exactly once
  what became of it, in the order of the queue: it is notified exactly when its message is among
  the first \<open>high_buffer_mark\<close> messages whose sender still waits, and exactly those messages are
  written, in order; the queue is empty afterwards.
\<close>

theorem held_messages_resolved:
  assumes "writable (act t)"
  shows "\<exists>es. effects (buffer_empty x t) = effects t @ es
     \<and> map told es = map (Some \<circ> snd) (hold_queue (act t))
     \<and> (let rel = released (canceled x) (high_buffer_mark (ic_config (cn_config (act t)))) (hold_queue (act t))
        in filter is_notify es = map (NotifyHeld \<circ> snd) rel
         \<and> queued (act (buffer_empty x t)) = queued (act t) @ map fst rel)
     \<and> hold_queue (act (buffer_empty x t)) = []"
proof -
  let ?n = "high_buffer_mark (ic_config (cn_config (act t)))"
  have "\<exists>es. effects (buffer_empty x t) = effects t @ es
     \<and> map told es = map (Some \<circ> snd) (hold_queue (act t))
     \<and> filter is_notify es = map (NotifyHeld \<circ> snd) (released (canceled x) ?n (hold_queue (act t)))"
    using drain_hold_effects [of "canceled x" ?n "hold_queue (act t)" "t\<lparr>act := (act t)\<lparr>hold_queue := []\<rparr>\<rparr>"]
    by (simp add: buffer_empty_def)
  with assms buffer_empty_act [of x t] show ?thesis
    by (simp add: fold_out_write Let_def)
qed

definition held_turn :: "(nat, nat) turn" where
  "held_turn = sample_turn\<lparr>act := (act sample_turn)\<lparr>hold_queue := [(Ping, 1), (Pong, 2)]\<rparr>\<rparr>"

theorem held_messages_resolved_witness:
  "queued (act (buffer_empty sample_ctx held_turn)) = [Ping, Pong]"
  using held_messages_resolved [of held_turn sample_ctx]
  by (auto simp: held_turn_def sample_ctx_def released_def)

text \<open>
  The same step loses messages when more are held than the high mark allows, even though
  the output buffer is empty and every sender still waits: the message behind the mark is
  neither written nor kept, and its sender is told that it was cancelled.
\<close>

lemma buffer_empty_loses_overflow:
  assumes "hold_queue (act t) = q @ [(m, tx)]"
    and "high_buffer_mark (ic_config (cn_config (act t))) = length q"
    and "\<And>tx. \<not> canceled x tx" and "writable (act t)" and "queued (act t) = []"
  shows "queued (act (buffer_empty x t)) = map fst q \<and> hold_queue (act (buffer_empty x t)) = []
     \<and> DropHeld tx \<in> set (effects (buffer_empty x t))"
proof -
  have "released (canceled x) (length q) (q @ [(m, tx)]) = q"
    using assms(3) by (simp add: released_def)
  then show ?thesis
    using assms buffer_empty_act [of x t]
      drain_hold_overflow [of "canceled x" q "[(m, tx)]" "t\<lparr>act := (act t)\<lparr>hold_queue := []\<rparr>\<rparr>"]
    by (simp add: fold_out_write buffer_empty_def)
qed

definition overflow_turn :: "(nat, nat) turn" where
  "overflow_turn = sample_turn\<lparr>act := (act sample_turn)\<lparr>
     hold_queue := map (Pair Ping) [0..<16] @ [(Pong, 16)]\<rparr>\<rparr>"

lemma buffer_empty_loses_overflow_example:
  "queued (act (buffer_empty sample_ctx overflow_turn)) = replicate 16 Ping
   \<and> hold_queue (act (buffer_empty sample_ctx overflow_turn)) = []"
proof -
  have "hold_queue (act overflow_turn) = map (Pair Ping) [0..<16] @ [(Pong, 16)]"
    "high_buffer_mark (ic_config (cn_config (act overflow_turn))) = length (map (Pair Ping) [0..<16])"
    "writable (act overflow_turn)" "queued (act overflow_turn) = []" "\<And>tx. \<not> canceled sample_ctx tx"
    by (simp_all add: overflow_turn_def sample_ctx_def)
  from buffer_empty_loses_overflow [OF this(1,2,5,3,4)] show ?thesis
    by (simp add: map_replicate_const comp_def)
qed

text \<open>
  C18. The connection watches its client. At each tick, a client that has been silent for longer than
  the timeout, and for more than half of the ping interval, is cut off; any other that has been silent
  for more than half of the ping interval is sent a ping; and, unless the client is cut off, pending
  requests whose caller is gone are forgotten, no others. Both times are options of the router; only a
  timeout below half of the interval makes the second condition of a cut matter. (While the connection
  is open for writing.)
\<close>

theorem ping_tick_watches_client:
  assumes "writable (act t)" and "hm_ok (reply_map (act t))"
    and silent: "silent = now x - last_packet (act t)"
    and cfg: "cfg = ic_config (cn_config (act t))"
  shows "if silent > nanos (ping_timeout cfg) \<and> silent > nanos (ping_interval cfg) div 2
     then ping_tick x t = emit StopCtx t
     else effects (ping_tick x t) = effects t \<and> rt (ping_tick x t) = rt t
      \<and> queued (act (ping_tick x t)) = queued (act t) @
          (if silent > nanos (ping_interval cfg) div 2 then [Ping] else [])
      \<and> (\<forall>k s. hm_get (reply_map (act (ping_tick x t))) k = Some s \<longleftrightarrow>
           hm_get (reply_map (act t)) k = Some s \<and> \<not> sender_closed x s)"
proof -
  have dead: "hm_get (reply_map (remove_dead_replies x c)) k = Some s \<longleftrightarrow>
      hm_get (reply_map (act t)) k = Some s \<and> \<not> sender_closed x s"
    if "reply_map c = reply_map (act t)" for c :: "('a, 'b) connection" and k s
    using that assms(2) remove_dead_replies_lookup [of c x k] by (auto split: option.splits)
  show ?thesis
    using assms(1) dead [of "out_write Ping (act t)"] dead [of "act t"]
    by (auto simp: ping_tick_def Let_def silent cfg duration_simps)
qed

theorem ping_tick_watches_client_witness:
  "queued (act (ping_tick (sample_ctx\<lparr>now := 6000000000\<rparr>) sample_turn)) = [Ping]"
proof -
  have "ping_interval (ic_config (cn_config (act sample_turn))) = from_secs 10"
    "ping_timeout (ic_config (cn_config (act sample_turn))) = from_secs 20"
    by (simp_all add: sample_turn_def connection_new_def sample_instance_def with_app_def
        gc_interval_secs_def default_config_def)
  then show ?thesis
    using ping_tick_watches_client [of sample_turn _ "sample_ctx\<lparr>now := 6000000000\<rparr>", OF _ _ refl refl]
    by (simp add: duration_simps)
qed

text \<open>With a timeout of one second and the default interval, a client silent for five seconds is not even pinged.\<close>

lemma short_timeout_not_kept:
  assumes "ping_timeout (ic_config (cn_config (act t))) = from_secs 1"
    and "ping_interval (ic_config (cn_config (act t))) = from_secs 10"
    and "now x = last_packet (act t) + 5000000000"
  shows "ping_tick x t = t\<lparr>act := remove_dead_replies x (act t)\<rparr>"
  using assms by (simp add: ping_tick_def Let_def duration_simps)

text \<open>
  C16. Cleaning up releases what a connection holds and nothing else. After a connection that
  has said hello is cleaned up, none of the names it recorded points to it, its instance is not
  registered as it, and every name and instance of another live connection is as before; doing
  it a second time (a forced drop is followed by the actor's own stop) changes nothing.
\<close>

theorem cleanup_releases_own_names:
  assumes "instance_id (act t) = Some i"
  shows "(\<forall>s \<in> set (services (act t)). owner (rt (cleanup x t)) s \<noteq> Some (address x))
     \<and> instance_of (rt (cleanup x t)) i \<noteq> Some (address x)
     \<and> (\<forall>s p. owner (rt t) s = Some p \<longrightarrow> p \<noteq> address x \<longrightarrow> connected x p \<longrightarrow> owner (rt (cleanup x t)) s = Some p)
     \<and> (\<forall>j p. instance_of (rt t) j = Some p \<longrightarrow> p \<noteq> address x \<longrightarrow> instance_of (rt (cleanup x t)) j = Some p)
     \<and> stopped x (handle_drop_connection x t) = handle_drop_connection x t"
proof -
  have "stopped x (handle_drop_connection x t) = handle_drop_connection x t"
    by (simp add: stopped_def handle_drop_connection_def cleanup_def [of x "emit StopCtx _"])
  then show ?thesis
    using assms by (auto simp: cleanup_owner cleanup_instance)
qed

definition registered_turn :: "(nat, nat) turn" where
  "registered_turn = sample_turn\<lparr>act := (act sample_turn)\<lparr>instance_id := Some [1], services := [''/a'']\<rparr>,
     rt := snd (register_service ''/a'' 1 empty_router)\<rparr>"

theorem cleanup_releases_own_names_witness:
  "owner (rt registered_turn) ''/a'' = Some 1
   \<and> owner (rt (cleanup sample_ctx registered_turn)) ''/a'' \<noteq> Some 1"
proof -
  have "instance_id (act registered_turn) = Some [1]" by (simp add: registered_turn_def)
  from cleanup_releases_own_names [OF this, of sample_ctx] show ?thesis
    by (simp add: registered_turn_def sample_ctx_def register_service_effect)
qed

text \<open>
  Subscribing twice to a topic changes nothing at the router, but the client is told that
  it succeeded: the reply is the same default one in both cases, never the bad-request reply
  the code prepares.
\<close>

lemma resubscribe_reports_ok:
  assumes "writable (act t)"
  shows "let (fut, t') = handle_input x (Inr (SubscribeRequest req)) t
         in queued (act t') = queued (act t) @ [SubscribeReply default_subscribe_reply]
          \<and> (if hm_get (topic_map (act t)) (srq_topic req) \<noteq> None
             then rt t' = rt t \<and> effects t' = effects t \<and> topic_map (act t') = topic_map (act t)
             else effects t' = effects t @ [SpawnTopic (fresh_handle x)
                    (case find_topic (rt t) (srq_topic req) of None \<Rightarrow> fresh_channel x | Some ch \<Rightarrow> ch)])"
  using assms subscribe_topic_effect(1) [of "fresh_channel x" "srq_topic req" "rt t"]
  by (auto simp: handle_input_def handle_message_def handle_subscribe_request_def Let_def split_beta)

lemma resubscribe_reports_ok_example:
  "queued (act (snd (handle_input sample_ctx (Inr (SubscribeRequest \<lparr>srq_topic = ''t''\<rparr>))
     (sample_turn\<lparr>act := (act sample_turn)\<lparr>topic_map := [(''t'', 1)]\<rparr>\<rparr>))))
   = [SubscribeReply default_subscribe_reply]"
  using resubscribe_reports_ok [of "sample_turn\<lparr>act := (act sample_turn)\<lparr>topic_map := [(''t'', 1)]\<rparr>\<rparr>"
      sample_ctx "\<lparr>srq_topic = ''t''\<rparr>"]
  by (simp add: Let_def split_beta)

end
