(* ===== verification/Reader.thy ===== *)
theory Reader
  imports Router_Connection
begin

text \<open>
  \<^verbatim>\<open>crates/router/src/connection/reader.rs\<close>: the future that feeds a stream into an actor, one
  item at a time. \<^verbatim>\<open>handle\<close> returns a future, and the next item is not taken before that
  future is done, which is how a client that floods the router is slowed down.

  The handler is a record of its four functions over the actor's world; the stream is its
  \<^verbatim>\<open>poll_next\<close> over an abstract state. Besides the result, a poll returns the trace of what it did.
\<close>

section \<open>The stream reader\<close>

datatype 'i stream_poll = Item 'i | EndOfStream | NotYet

record ('i, 'f, 'w) input_handler =
  ih_started :: "'w \<Rightarrow> 'w"
  ih_handle :: "'i \<Rightarrow> 'w \<Rightarrow> 'f \<times> 'w"
  ih_finished :: "'w \<Rightarrow> 'w"
  ih_poll :: "'f \<Rightarrow> 'w \<Rightarrow> bool \<times> 'w"

record 'f actor_stream =
  processing :: "'f option"
  started :: bool

definition actor_stream_new :: "'f actor_stream" where
  "actor_stream_new = \<lparr>processing = None, started = False\<rparr>"

datatype 'i reader_event = EvStarted | EvHandled 'i | EvCompleted | EvFinished

text \<open>The part of \<^verbatim>\<open>poll\<close> after the pending future: ask the stream for the next item.\<close>

definition take_next ::
  "('i, 'f, 'w) input_handler \<Rightarrow> ('st \<Rightarrow> 'i stream_poll \<times> 'st) \<Rightarrow> 'st \<Rightarrow> 'f actor_stream \<Rightarrow> 'w
   \<Rightarrow> bool \<times> 'i reader_event list \<times> 'st \<times> 'f actor_stream \<times> 'w" where
  "take_next h poll_next st s w =
     (case poll_next st of
        (Item msg, st') \<Rightarrow>
          (case ih_handle h msg w of (fut, w') \<Rightarrow> (False, [EvHandled msg], st', s\<lparr>processing := Some fut\<rparr>, w'))
      | (EndOfStream, st') \<Rightarrow> (True, [EvFinished], st', s, ih_finished h w)
      | (NotYet, st') \<Rightarrow> (False, [], st', s, w))"

definition start_once ::
  "('i, 'f, 'w) input_handler \<Rightarrow> 'f actor_stream \<Rightarrow> 'w \<Rightarrow> 'i reader_event list \<times> 'f actor_stream \<times> 'w" where
  "start_once h s w =
     (if \<not> started s then ([EvStarted], s\<lparr>started := True\<rparr>, ih_started h w) else ([], s, w))"

definition actor_stream_poll ::
  "('i, 'f, 'w) input_handler \<Rightarrow> ('st \<Rightarrow> 'i stream_poll \<times> 'st) \<Rightarrow> 'st \<Rightarrow> 'f actor_stream \<Rightarrow> 'w
   \<Rightarrow> bool \<times> 'i reader_event list \<times> 'st \<times> 'f actor_stream \<times> 'w" where
  "actor_stream_poll h poll_next st s w =
     (case start_once h s w of (ev0, s1, w1) \<Rightarrow>
        case processing s1 of
          None \<Rightarrow> (case take_next h poll_next st s1 w1 of (r, ev, rest) \<Rightarrow> (r, ev0 @ ev, rest))
        | Some fut \<Rightarrow>
            (case ih_poll h fut w1 of
               (False, w2) \<Rightarrow> (False, ev0, st, s1, w2)
             | (True, w2) \<Rightarrow>
                 (case take_next h poll_next st (s1\<lparr>processing := None\<rparr>) w2 of
                    (r, ev, rest) \<Rightarrow> (r, ev0 @ EvCompleted # ev, rest))))"

section \<open>The two streams of a connection\<close>

definition client_handler ::
  "'a ctx \<Rightarrow> ('a future \<Rightarrow> forward_result option)
   \<Rightarrow> (protocol_error + gsb_message, 'a future, ('a, 's) turn) input_handler" where
  "client_handler x answer = \<lparr>ih_started = input_started, ih_handle = handle_input x,
     ih_finished = input_finished, ih_poll = poll_future answer\<rparr>"

text \<open>The stream of responses uses the trait's empty \<^verbatim>\<open>started\<close>.\<close>

definition response_handler ::
  "'a ctx \<Rightarrow> ('a future \<Rightarrow> forward_result option) \<Rightarrow> (call_reply, 'a future, ('a, 's) turn) input_handler" where
  "response_handler x answer = \<lparr>ih_started = (\<lambda>t. t), ih_handle = handle_forward_response x,
     ih_finished = input_finished, ih_poll = poll_future answer\<rparr>"

section \<open>The contract between reader and handler\<close>

text \<open>
  What a handler keeps of an invariant of the actor's world, the reader keeps too; and what the
  handler's parts do not touch, the reader does not touch.
\<close>

locale handler_contract =
  fixes h :: "('i, 'f, 'w) input_handler" and inv :: "'w \<Rightarrow> bool"
  assumes started_inv: "inv w \<Longrightarrow> inv (ih_started h w)"
    and handle_inv: "inv w \<Longrightarrow> inv (snd (ih_handle h i w))"
    and finished_inv: "inv w \<Longrightarrow> inv (ih_finished h w)"
    and poll_inv: "inv w \<Longrightarrow> inv (snd (ih_poll h f w))"
begin

lemma take_next_inv:
  assumes "inv w" and "take_next h pn st s w = (r, ev, st', s', w')"
  shows "inv w'"
  using assms(2) handle_inv [OF assms(1)] finished_inv [OF assms(1)] assms(1)
  by (auto simp: take_next_def split: prod.splits stream_poll.splits) (metis snd_conv)

lemma stream_poll_inv:
  assumes "inv w" and "actor_stream_poll h pn st s w = (r, ev, st', s', w')"
  shows "inv w'"
proof -
  obtain ev0 s1 w1 where st: "start_once h s w = (ev0, s1, w1)" by (metis prod_cases3)
  have w1: "inv w1" using st assms(1) started_inv by (auto simp: start_once_def split: if_splits)
  show ?thesis
  proof (cases "processing s1")
    case None
    with assms(2) st obtain ev1 where "take_next h pn st s1 w1 = (r, ev1, st', s', w')"
      by (auto simp: actor_stream_poll_def split: prod.splits)
    with w1 show ?thesis by (rule take_next_inv)
  next
    case (Some fut)
    obtain fin w2 where p: "ih_poll h fut w1 = (fin, w2)" by (metis surj_pair)
    then have w2: "inv w2" using poll_inv [OF w1, of fut] by simp
    show ?thesis
    proof (cases fin)
      case True
      with assms(2) st Some p obtain ev1 where
        "take_next h pn st (s1\<lparr>processing := None\<rparr>) w2 = (r, ev1, st', s', w')"
        by (auto simp: actor_stream_poll_def split: prod.splits)
      with w2 show ?thesis by (rule take_next_inv)
    next
      case False
      with assms(2) st Some p w2 show ?thesis by (auto simp: actor_stream_poll_def)
    qed
  qed
qed

lemma poll_keeps: "inv w \<Longrightarrow> inv (snd (snd (snd (snd (actor_stream_poll h pn st s w)))))"
  by (rule stream_poll_inv) (simp_all add: prod_eq_iff)

end

section \<open>The invariant of a connection\<close>

definition turn_ok :: "('a, 's) turn \<Rightarrow> bool" where
  "turn_ok t \<longleftrightarrow> router_ok (rt t) \<and> hm_ok (reply_map (act t)) \<and> hm_ok (topic_map (act t))
     \<and> distinct (services (act t)) \<and> writable (act t)"

lemma turn_okI:
  "router_ok (rt t) \<Longrightarrow> hm_ok (reply_map (act t)) \<Longrightarrow> hm_ok (topic_map (act t)) \<Longrightarrow>
   distinct (services (act t)) \<Longrightarrow> writable (act t) \<Longrightarrow> turn_ok t"
  by (simp add: turn_ok_def)

lemma turn_ok_emit [simp]: "turn_ok (emit e t) = turn_ok t"
  by (simp add: turn_ok_def)

lemma turn_ok_send_reply [simp]: "turn_ok (send_reply m t) = turn_ok t"
  by (simp add: turn_ok_def)

lemma turn_ok_send_message [simp]: "turn_ok (snd (send_message x m t)) = turn_ok t"
  by (simp add: turn_ok_def)

lemma turn_ok_last_packet [simp]: "turn_ok (t\<lparr>act := (act t)\<lparr>last_packet := n\<rparr>\<rparr>) = turn_ok t"
  by (simp add: turn_ok_def)

lemma turn_ok_call_request: "turn_ok t \<Longrightarrow> turn_ok (snd (handle_call_request x req t))"
  by (simp add: handle_call_request_def split: option.splits)

lemma turn_ok_push_request: "turn_ok t \<Longrightarrow> turn_ok (snd (handle_push_request x req t))"
  by (simp add: handle_push_request_def split: option.splits)

lemma turn_ok_call_reply: "turn_ok t \<Longrightarrow> turn_ok (snd (handle_call_reply x rep t))"
  by (auto simp: handle_call_reply_def turn_ok_def Let_def split_beta hm.ok_ins hm.ok_rem split: option.splits CallReplyType.splits)

lemma turn_ok_register: "turn_ok t \<Longrightarrow> turn_ok (handle_register_request x req t)"
  by (auto simp: handle_register_request_def turn_ok_def Let_def split_beta hm.ok_ins hm.ok_rem split: option.splits CallReplyType.splits)

lemma turn_ok_unregister: "turn_ok t \<Longrightarrow> turn_ok (handle_unregister_request x req t)"
  by (auto simp: handle_unregister_request_def turn_ok_def Let_def split_beta hm.ok_ins hm.ok_rem split: option.splits CallReplyType.splits)

lemma turn_ok_subscribe: "turn_ok t \<Longrightarrow> turn_ok (handle_subscribe_request x req t)"
  by (auto simp: handle_subscribe_request_def turn_ok_def Let_def split_beta hm.ok_ins hm.ok_rem split: option.splits CallReplyType.splits)

lemma turn_ok_unsubscribe: "turn_ok t \<Longrightarrow> turn_ok (handle_unsubscribe_request req t)"
  by (auto simp: handle_unsubscribe_request_def turn_ok_def Let_def split_beta hm.ok_ins hm.ok_rem split: option.splits CallReplyType.splits)

lemma turn_ok_broadcast: "turn_ok t \<Longrightarrow> turn_ok (handle_broadcast_request req t)"
  by (simp add: handle_broadcast_request_def split: option.splits)

lemma turn_ok_hello: "turn_ok t \<Longrightarrow> turn_ok (snd (handle_hello x hl t))"
  by (auto simp: handle_hello_def turn_ok_def Let_def split_beta hm.ok_ins hm.ok_rem split: option.splits CallReplyType.splits)

lemmas turn_ok_handlers = turn_ok_call_request turn_ok_push_request turn_ok_call_reply
  turn_ok_register turn_ok_unregister turn_ok_subscribe turn_ok_unsubscribe turn_ok_broadcast
  turn_ok_hello

lemma turn_ok_message: "turn_ok t \<Longrightarrow> turn_ok (snd (handle_message x m t))"
  by (cases m) (simp_all add: handle_message_def turn_ok_handlers)

lemma turn_ok_input: "turn_ok t \<Longrightarrow> turn_ok (snd (handle_input x item t))"
  by (auto simp: handle_input_def Let_def turn_ok_message
      split: sum.splits protocol_error.splits io_error_kind.splits)

lemma turn_ok_poll: "turn_ok t \<Longrightarrow> turn_ok (snd (poll_future answer f t))"
  by (auto simp: poll_future_def split: future.splits option.splits)

lemma turn_ok_response: "turn_ok t \<Longrightarrow> turn_ok (snd (handle_forward_response x rep t))"
  by (auto simp: handle_forward_response_def split_beta split: option.splits)

lemma turn_ok_started: "turn_ok t \<Longrightarrow> turn_ok (input_started t)"
  by (simp add: input_started_def turn_ok_def)

lemma turn_ok_fold_unregister:
  "router_ok r \<Longrightarrow> router_ok (fold (\<lambda>s r. snd (unregister_service live s c r)) ss r)"
  by (induction ss arbitrary: r) simp_all

lemma turn_ok_cleanup: "turn_ok t \<Longrightarrow> turn_ok (cleanup x t)"
  by (auto simp: cleanup_def turn_ok_def Let_def turn_ok_fold_unregister split: option.splits)

lemma turn_ok_forward_request: "turn_ok t \<Longrightarrow> turn_ok (snd (handle_forward_request x req a t))"
  by (simp add: handle_forward_request_def turn_ok_def hm.ok_ins)

lemma hm_ok_remove_all: "hm_ok m \<Longrightarrow> hm_ok (fold (\<lambda>i m. snd (hm_remove i m)) is m)"
  by (induction "is" arbitrary: m) (simp_all add: hm.ok_rem)

lemma turn_ok_ping_tick: "turn_ok t \<Longrightarrow> turn_ok (ping_tick x t)"
  by (auto simp: ping_tick_def turn_ok_def Let_def remove_dead_replies_def hm_ok_remove_all)

lemma turn_ok_buffer_empty: "turn_ok t \<Longrightarrow> turn_ok (buffer_empty x t)"
  using buffer_empty_act [of x t] by (simp add: turn_ok_def fold_out_write)

interpretation client_stream: handler_contract "client_handler x answer" turn_ok
  by unfold_locales
     (simp_all add: client_handler_def turn_ok_input turn_ok_poll input_finished_def turn_ok_started)

interpretation response_stream: handler_contract "response_handler x answer" turn_ok
  by unfold_locales
     (simp_all add: response_handler_def turn_ok_response turn_ok_poll input_finished_def)

section \<open>The protocol of a reader\<close>

text \<open>
  The phases of a reader: before its first poll, idle, busy with an item, and over. \<open>next_phase\<close>
  says which events are allowed in which phase.
\<close>

datatype phase = Fresh | Idle | Busy | Over

fun next_phase :: "phase \<Rightarrow> 'i reader_event \<Rightarrow> phase option" where
  "next_phase Fresh EvStarted = Some Idle"
| "next_phase Idle (EvHandled i) = Some Busy"
| "next_phase Busy EvCompleted = Some Idle"
| "next_phase Idle EvFinished = Some Over"
| "next_phase _ _ = None"

fun follows :: "phase \<Rightarrow> 'i reader_event list \<Rightarrow> phase option" where
  "follows p [] = Some p"
| "follows p (e # es) = Option.bind (next_phase p e) (\<lambda>q. follows q es)"

lemma follows_append: "follows p (es @ fs) = Option.bind (follows p es) (\<lambda>q. follows q fs)"
  by (induction p es rule: follows.induct) (auto split: bind_splits)

definition phase_of :: "'f actor_stream \<Rightarrow> phase" where
  "phase_of s = (if \<not> started s then Fresh else if processing s = None then Idle else Busy)"

text \<open>
  A life of the reader: it is polled any number of times, but not after it has completed;
  between two polls the actor's world changes in any way (\<open>others\<close> of the poll), since other
  handlers of the actor run in between.
\<close>

fun reader_run ::
  "('i, 'f, 'w) input_handler \<Rightarrow> ('st \<Rightarrow> 'i stream_poll \<times> 'st) \<Rightarrow> ('w \<Rightarrow> 'w) list \<Rightarrow> 'st
   \<Rightarrow> 'f actor_stream \<Rightarrow> 'w \<Rightarrow> bool \<times> 'i reader_event list \<times> 'st \<times> 'f actor_stream \<times> 'w" where
  "reader_run h pn [] st s w = (False, [], st, s, w)"
| "reader_run h pn (others # rest) st s w =
     (case actor_stream_poll h pn st s (others w) of
        (True, ev, st1, s1, w1) \<Rightarrow> (True, ev, st1, s1, w1)
      | (False, ev, st1, s1, w1) \<Rightarrow>
          (case reader_run h pn rest st1 s1 w1 of (r, evs, fin) \<Rightarrow> (r, ev @ evs, fin)))"

lemma take_next_phase:
  assumes "take_next h pn st s w = (r, ev, st', s', w')" and "started s" and "processing s = None"
  shows "follows Idle ev = Some (if r then Over else phase_of s') \<and> started s'"
  using assms by (auto simp: take_next_def phase_of_def split: prod.splits stream_poll.splits)

lemma stream_poll_phase:
  assumes "actor_stream_poll h pn st s w = (r, ev, st', s', w')"
    and "processing s \<noteq> None \<longrightarrow> started s"
  shows "follows (phase_of s) ev = Some (if r then Over else phase_of s') \<and> started s'"
proof -
  obtain ev0 s1 w1 where st: "start_once h s w = (ev0, s1, w1)" by (metis prod_cases3)
  then have s1: "started s1" "processing s1 = processing s" "follows (phase_of s) ev0 = Some (phase_of s1)"
    using assms(2) by (auto simp: start_once_def phase_of_def split: if_splits)
  show ?thesis
  proof (cases "processing s1")
    case None
    with assms(1) st obtain ev1 where t: "take_next h pn st s1 w1 = (r, ev1, st', s', w')" "ev = ev0 @ ev1"
      by (auto simp: actor_stream_poll_def split: prod.splits)
    from take_next_phase [OF this(1) s1(1) None] t(2) s1 None show ?thesis
      by (simp add: follows_append phase_of_def)
  next
    case (Some fut)
    obtain fin w2 where p: "ih_poll h fut w1 = (fin, w2)" by (metis surj_pair)
    show ?thesis
    proof (cases fin)
      case True
      with assms(1) st Some p obtain ev1 where
        t: "take_next h pn st (s1\<lparr>processing := None\<rparr>) w2 = (r, ev1, st', s', w')" "ev = ev0 @ EvCompleted # ev1"
        by (auto simp: actor_stream_poll_def split: prod.splits)
      have "phase_of s1 = Busy" using s1(1) Some by (simp add: phase_of_def)
      with take_next_phase [OF t(1)] t(2) s1 show ?thesis by (simp add: follows_append)
    next
      case False
      with assms(1) st Some p s1 show ?thesis by (auto simp: actor_stream_poll_def phase_of_def)
    qed
  qed
qed

lemma reader_run_phase:
  assumes "reader_run h pn ps st s w = (r, ev, st', s', w')"
    and "processing s \<noteq> None \<longrightarrow> started s"
  shows "follows (phase_of s) ev = Some (if r then Over else phase_of s')"
  using assms
proof (induction ps arbitrary: st s w r ev)
  case Nil
  then show ?case by simp
next
  case (Cons p ps)
  obtain r1 ev1 st1 s1 w1 where p: "actor_stream_poll h pn st s (p w) = (r1, ev1, st1, s1, w1)"
    by (metis prod_cases5)
  note ph = stream_poll_phase [OF p Cons.prems(2)]
  show ?case
  proof (cases r1)
    case True
    with Cons.prems(1) p ph show ?thesis by simp
  next
    case False
    with Cons.prems(1) p obtain ev2 where
      "reader_run h pn ps st1 s1 w1 = (r, ev2, st', s', w')" "ev = ev1 @ ev2"
      by (auto split: prod.splits)
    with Cons.IH [of st1 s1 w1 r ev2] ph False show ?thesis by (simp add: follows_append)
  qed
qed

section \<open>Properties\<close>

text \<open>
  C19. A reader follows its protocol whatever the stream yields, whatever its handler does and
  however the polls interleave with other work: it starts once, before anything else; it hands
  over the next item only after the future of the previous one has completed; it finishes at most
  once, and nothing follows.
\<close>

theorem reader_one_item_at_a_time:
  "case reader_run h pn ps st actor_stream_new w of
     (over, ev, st', s', w') \<Rightarrow> follows Fresh ev = Some (if over then Over else phase_of s')"
proof -
  obtain r ev st' s' w' where run: "reader_run h pn ps st actor_stream_new w = (r, ev, st', s', w')"
    by (metis prod_cases5)
  then show ?thesis
    using reader_run_phase [OF run] by (simp add: actor_stream_new_def phase_of_def)
qed

text \<open>
  Backpressure: while the destination of a client's call has not answered, polling the
  client's stream does nothing at all, so no further message of that client is read, the
  router's tables stay as they are, and nothing is sent.
\<close>

lemma pending_call_blocks_client:
  assumes "started s" and "processing s = Some (FutForward dst i)" and "answer (FutForward dst i) = None"
  shows "actor_stream_poll (client_handler x answer) pn st s t = (False, [], st, s, t)"
  using assms
  by (simp add: actor_stream_poll_def start_once_def client_handler_def poll_future_def)

text \<open>
  Every activity of a connection keeps its invariant and the router's: tables with distinct
  keys, services without repetition, an open writer. The activities are a poll of either input
  stream, a forwarded request, a forced drop, a tick, an empty buffer and the stop.
\<close>

lemma connection_keeps_invariant:
  assumes "turn_ok t"
  shows "turn_ok (snd (snd (snd (snd (actor_stream_poll (client_handler x answer) pn st s t)))))
     \<and> turn_ok (snd (snd (snd (snd (actor_stream_poll (response_handler x answer) pn' st' s t)))))
     \<and> turn_ok (snd (handle_forward_request x req a t)) \<and> turn_ok (handle_drop_connection x t)
     \<and> turn_ok (snd (handle_topic_item x item t))
     \<and> turn_ok (ping_tick x t) \<and> turn_ok (buffer_empty x t) \<and> turn_ok (stopped x t)"
proof -
  have "turn_ok (snd (snd (snd (snd (actor_stream_poll (client_handler x answer) pn st s t)))))"
    by (rule client_stream.poll_keeps [OF assms])
  moreover have "turn_ok (snd (snd (snd (snd (actor_stream_poll (response_handler x answer) pn' st' s t)))))"
    by (rule response_stream.poll_keeps [OF assms])
  ultimately show ?thesis
    using assms
    by (simp add: turn_ok_forward_request turn_ok_ping_tick turn_ok_buffer_empty
        turn_ok_cleanup stopped_def handle_drop_connection_def handle_topic_item_def split: option.splits)
qed

lemma connection_keeps_invariant_example:
  "turn_ok (ping_tick sample_ctx sample_turn)"
proof -
  have "turn_ok sample_turn"
    by (rule turn_okI) (simp_all add: sample_turn_def connection_new_def writable_def sink_write_new_def)
  from connection_keeps_invariant [OF this, of sample_ctx "\<lambda>_. None" "\<lambda>n :: nat. (NotYet, n)" 0
      actor_stream_new "\<lambda>n :: nat. (NotYet, n)" 0 sample_call 2 None]
  show ?thesis by simp
qed

end
