(* ===== verification/Router_System.thy ===== *)
theory Router_System
  imports Reader
begin

text \<open>
  The router as a whole: its tables, the live connections and the messages between them.

  Actors take turns; a turn of one connection (\<open>take_turn\<close>) runs one of its handlers on the shared
  tables, hands its effects to the mailboxes, and, if the handler stopped the context, runs the
  actor's \<^verbatim>\<open>stopped\<close> and removes it. Which connection is next, in which order mail is delivered,
  whether it is lost, and what the clients send is left open: \<open>step\<close> relates a state to every
  state that one turn can lead to, and a theorem about \<open>reachable\<close> states holds for every
  interleaving.

  A polite client says hello before it registers anything. \<open>step True\<close> is the system with polite
  clients only, \<open>step False\<close> the one with arbitrary clients.
\<close>

section \<open>State and turns\<close>

datatype mail = MForward call_request nat | MResponse nat call_reply | MDrop

record 's system =
  tables :: "nat router"
  conns :: "nat \<Rightarrow> (nat, 's) connection option"
  flight :: "(nat \<times> mail) list"
  mailed :: "(nat \<times> mail) list"   \<comment> \<open>everything ever put into \<open>flight\<close>\<close>
  next_addr :: nat

definition system_init :: "instance_config \<Rightarrow> 's system" where
  "system_init ic = \<lparr>tables = new_router ic, conns = (\<lambda>_. None), flight = [], mailed = [], next_addr = 0\<rparr>"

text \<open>The mail among the effects of a turn of the connection \<open>a\<close>.\<close>

fun mail_of :: "nat \<Rightarrow> nat effect \<Rightarrow> (nat \<times> mail) list" where
  "mail_of a (SendForward dst req reply_to) = [(dst, MForward req reply_to)]"
| "mail_of a (SendResponse dst rep) = [(dst, MResponse a rep)]"
| "mail_of a (SendDrop dst) = [(dst, MDrop)]"
| "mail_of a _ = []"

definition take_turn ::
  "nat ctx \<Rightarrow> ((nat, 's) turn \<Rightarrow> (nat, 's) turn) \<Rightarrow> nat \<Rightarrow> (nat, 's) connection \<Rightarrow> 's system \<Rightarrow> 's system" where
  "take_turn x f a c s =
     (let t = f \<lparr>act = c, rt = tables s, effects = []\<rparr>;
          stop = (StopCtx \<in> set (effects t));
          t' = (if stop then stopped x t else t);
          post = concat (map (mail_of a) (effects t))
      in s\<lparr>tables := rt t', conns := (conns s)(a := if stop then None else Some (act t')),
           flight := flight s @ post, mailed := mailed s @ post\<rparr>)"

datatype activity =
    ClientStart
  | ClientItem "protocol_error + gsb_message"
  | StreamEnd
  | Resume "nat future" forward_result
  | TopicItem "broadcast_request option"
  | Tick
  | BufferEmpty
  | WriterStop

text \<open>What a connection does by itself. \<open>WriterStop\<close> is the default \<^verbatim>\<open>WriteHandler::finished\<close>,
  which stops the context when the transport fails.\<close>

fun perform :: "nat ctx \<Rightarrow> activity \<Rightarrow> (nat, 's) turn \<Rightarrow> (nat, 's) turn" where
  "perform x ClientStart t = input_started t"
| "perform x (ClientItem item) t = snd (handle_input x item t)"
| "perform x StreamEnd t = input_finished t"
| "perform x (Resume fut res) t = snd (poll_future (\<lambda>_. Some res) fut t)"
| "perform x (TopicItem item) t = snd (handle_topic_item x item t)"
| "perform x Tick t = ping_tick x t"
| "perform x BufferEmpty t = buffer_empty x t"
| "perform x WriterStop t = emit StopCtx t"

text \<open>What it does with mail.\<close>

fun receive :: "nat ctx \<Rightarrow> mail \<Rightarrow> (nat, 's) turn \<Rightarrow> (nat, 's) turn" where
  "receive x (MForward req reply_to) t = snd (handle_forward_request x req reply_to t)"
| "receive x (MResponse from rep) t = snd (handle_forward_response x rep t)"
| "receive x MDrop t = handle_drop_connection x t"

text \<open>What a handler at \<open>a\<close> sees of the rest of the system.\<close>

definition sees :: "nat ctx \<Rightarrow> nat \<Rightarrow> 's system \<Rightarrow> bool" where
  "sees x a s \<longleftrightarrow> address x = a \<and> connected x = (\<lambda>b. conns s b \<noteq> None)
     \<and> sender_closed x = (\<lambda>b. conns s b = None)"

definition polite_activity :: "(nat, 's) connection \<Rightarrow> activity \<Rightarrow> bool" where
  "polite_activity c w =
     (case w of ClientItem (Inr (RegisterRequest _)) \<Rightarrow> instance_id c \<noteq> None | _ \<Rightarrow> True)"

inductive step :: "bool \<Rightarrow> 's system \<Rightarrow> 's system \<Rightarrow> bool" for polite where
  accept:
    "step polite s (s\<lparr>conns := (conns s)(next_addr s \<mapsto> connection_new ic info writer instant),
                      next_addr := Suc (next_addr s)\<rparr>)"
| activity:
    "conns s a = Some c \<Longrightarrow> sees x a s \<Longrightarrow> (polite \<longrightarrow> polite_activity c w) \<Longrightarrow>
     step polite s (take_turn x (perform x w) a c s)"
| deliver:
    "(a, m) \<in> set (flight s) \<Longrightarrow> conns s a = Some c \<Longrightarrow> sees x a s \<Longrightarrow>
     step polite s (take_turn x (receive x m) a c (s\<lparr>flight := remove1 (a, m) (flight s)\<rparr>))"
| lose:
    "step polite s (s\<lparr>flight := remove1 am (flight s)\<rparr>)"
| collect:
    "step polite s (s\<lparr>tables := gc_remove unused (tables s)\<rparr>)"

definition reachable :: "bool \<Rightarrow> instance_config \<Rightarrow> 's system \<Rightarrow> bool" where
  "reachable polite ic s = (step polite)\<^sup>*\<^sup>* (system_init ic) s"

inductive_cases stepE: "step polite s s'"

text \<open>Invariants of a transition system.\<close>

locale invariant =
  fixes init :: 's and trans :: "'s \<Rightarrow> 's \<Rightarrow> bool" and inv :: "'s \<Rightarrow> bool"
  assumes init_inv: "inv init" and trans_inv: "inv s \<Longrightarrow> trans s s' \<Longrightarrow> inv s'"
begin

lemma always: "trans\<^sup>*\<^sup>* init s \<Longrightarrow> inv s"
  by (induction rule: rtranclp_induct) (auto intro: init_inv trans_inv)

end

section \<open>What one turn can change\<close>

text \<open>
  Of the tables of names and instances, a turn changes nothing, or registers one name, or gives
  one back, or announces an instance, or cleans up.
\<close>

inductive net_change :: "nat ctx \<Rightarrow> (nat, 's) turn \<Rightarrow> (nat, 's) turn \<Rightarrow> bool" for x where
  quiet:
    "owner (rt t') = owner (rt t) \<Longrightarrow> instance_of (rt t') = instance_of (rt t) \<Longrightarrow>
     set (services (act t')) = set (services (act t)) \<Longrightarrow> instance_id (act t') = instance_id (act t) \<Longrightarrow>
     net_change x t t'"
| registers:
    "owner (rt t) n = None \<Longrightarrow> owner (rt t') = (owner (rt t))(n \<mapsto> address x) \<Longrightarrow>
     instance_of (rt t') = instance_of (rt t) \<Longrightarrow>
     set (services (act t')) = insert n (set (services (act t))) \<Longrightarrow> instance_id (act t') = instance_id (act t) \<Longrightarrow>
     net_change x t t'"
| unregisters:
    "removable (connected x) (address x) (owner (rt t) n) \<Longrightarrow> owner (rt t') = (owner (rt t))(n := None) \<Longrightarrow>
     instance_of (rt t') = instance_of (rt t) \<Longrightarrow>
     set (services (act t')) = set (services (act t)) - {n} \<Longrightarrow> instance_id (act t') = instance_id (act t) \<Longrightarrow>
     net_change x t t'"
| announces:
    "instance_id (act t) = None \<Longrightarrow> owner (rt t') = owner (rt t) \<Longrightarrow>
     instance_of (rt t') = (instance_of (rt t))(i \<mapsto> address x) \<Longrightarrow>
     set (services (act t')) = set (services (act t)) \<Longrightarrow> instance_id (act t') = Some i \<Longrightarrow>
     (\<And>b. instance_of (rt t) i = Some b \<Longrightarrow> SendDrop b \<in> set (effects t')) \<Longrightarrow>
     net_change x t t'"
| cleans:
    "owner (rt t') = owner (rt (cleanup x t)) \<Longrightarrow> instance_of (rt t') = instance_of (rt (cleanup x t)) \<Longrightarrow>
     set (services (act t')) = set (services (act (cleanup x t))) \<Longrightarrow> instance_id (act t') = None \<Longrightarrow>
     StopCtx \<in> set (effects t') \<Longrightarrow>
     net_change x t t'"

lemma quiet_poll_future: "net_change x t (snd (poll_future answer f t))"
  by (rule quiet) (auto simp: poll_future_def split: future.splits option.splits)

lemma quiet_send_message: "net_change x t (snd (send_message x m t))"
  by (rule quiet) simp_all

lemma quiet_ping_tick: "net_change x t (ping_tick x t)"
  by (rule quiet) (auto simp: ping_tick_def Let_def)

lemma quiet_buffer_empty: "net_change x t (buffer_empty x t)"
  using buffer_empty_act [of x t] by (intro quiet) (simp_all add: fold_out_write)

lemma net_change_register:
  "net_change x t (handle_register_request x req t)"
proof (cases "owner (rt t) (rrq_service_id req)")
  case None
  then show ?thesis
    using register_service_effect [of "rrq_service_id req" "address x" "rt t"]
    by (intro registers [of _ "rrq_service_id req"])
       (auto simp: handle_register_request_def Let_def split_beta split: option.splits)
next
  case (Some p)
  then show ?thesis
    using register_service_effect [of "rrq_service_id req" "address x" "rt t"]
    by (intro quiet) (auto simp: handle_register_request_def Let_def split_beta)
qed

lemma net_change_unregister:
  "net_change x t (handle_unregister_request x req t)"
proof (cases "removable (connected x) (address x) (owner (rt t) (urq_service_id req))")
  case True
  then show ?thesis
    using unregister_service_effect [of "connected x" "urq_service_id req" "address x" "rt t"]
    by (intro unregisters [of _ _ "urq_service_id req"])
       (auto simp: handle_unregister_request_def Let_def split_beta)
next
  case False
  then show ?thesis
    using unregister_service_effect [of "connected x" "urq_service_id req" "address x" "rt t"]
    by (intro quiet) (auto simp: handle_unregister_request_def Let_def split_beta)
qed

lemma net_change_hello:
  "net_change x t (snd (handle_hello x h t))"
proof (cases "instance_id (act t)")
  case None
  then show ?thesis
    using new_connection_instance [of "hl_instance_id h" "address x" "rt t"]
    by (intro announces [of _ _ "hl_instance_id h"])
       (auto simp: handle_hello_def Let_def split_beta split: option.splits)
next
  case (Some i)
  then show ?thesis by (intro quiet) (simp_all add: handle_hello_def)
qed

lemma quiet_other_requests:
  "net_change x t (snd (handle_call_request x req t))"
  "net_change x t (snd (handle_push_request x req t))"
  "net_change x t (snd (handle_call_reply x rep t))"
  "net_change x t (handle_subscribe_request x sreq t)"
  "net_change x t (handle_unsubscribe_request ureq t)"
  "net_change x t (handle_broadcast_request breq t)"
  by (intro quiet;
      auto simp: conn_defs split_beta Let_def split: option.splits CallReplyType.splits)+

lemma net_change_last_packet:
  assumes "net_change x (t\<lparr>act := (act t)\<lparr>last_packet := n\<rparr>\<rparr>) t'"
  shows "net_change x t t'"
  using assms
proof cases
  case cleans
  have "owner (rt (cleanup x (t\<lparr>act := (act t)\<lparr>last_packet := n\<rparr>\<rparr>))) = owner (rt (cleanup x t))"
    by (rule ext) (auto simp: cleanup_owner)
  with cleans show ?thesis
    by (intro net_change.cleans) (simp_all add: cleanup_instance split: option.splits)
qed (auto intro: net_change.intros)

lemma net_change_message: "net_change x t (snd (handle_message x m t))"
  by (cases m)
     (auto simp: handle_message_def quiet_other_requests net_change_register net_change_unregister
        net_change_hello intro: quiet)

lemma net_change_input: "net_change x t (snd (handle_input x item t))"
proof (cases item)
  case (Inl e)
  then show ?thesis
    by (intro quiet) (auto simp: handle_input_def Let_def split: protocol_error.splits io_error_kind.splits)
next
  case (Inr m)
  then show ?thesis
    using net_change_message [of x "t\<lparr>act := (act t)\<lparr>last_packet := now x\<rparr>\<rparr>" m]
    by (simp add: handle_input_def Let_def net_change_last_packet)
qed

lemma net_change_perform: "net_change x t (perform x w t)"
proof (cases w)
  case ClientStart
  then show ?thesis by (intro quiet) (simp_all add: input_started_def)
next
  case (TopicItem item)
  then show ?thesis
    using quiet_send_message [of x t]
    by (cases item) (auto simp: handle_topic_item_def intro: quiet)
qed (auto simp: net_change_input quiet_poll_future quiet_ping_tick quiet_buffer_empty
       input_finished_def intro: quiet)

lemma net_change_receive: "net_change x t (receive x m t)"
proof (cases m)
  case (MForward req reply_to)
  then show ?thesis
    by (intro quiet) (simp_all add: handle_forward_request_def)
next
  case (MResponse a rep)
  then show ?thesis
    by (intro quiet) (auto simp: handle_forward_response_def split_beta split: option.splits)
next
  case MDrop
  then show ?thesis
    by (intro cleans) (simp_all add: handle_drop_connection_def)
qed

section \<open>Ownership of names and instances\<close>

lemma cleanup_instance_iff:
  "instance_of (rt (cleanup x t)) i = Some b \<longleftrightarrow>
     instance_of (rt t) i = Some b \<and> \<not> (instance_id (act t) = Some i \<and> b = address x)"
  by (cases "instance_id (act t)") (auto simp: cleanup_instance)

lemma cleanup_owner_iff:
  "owner (rt (cleanup x t)) n = Some b \<longleftrightarrow>
     owner (rt t) n = Some b
     \<and> \<not> (instance_id (act t) \<noteq> None \<and> n \<in> set (services (act t)) \<and> (b = address x \<or> \<not> connected x b))"
  by (auto simp: cleanup_owner)

definition owns_exactly :: "'s system \<Rightarrow> bool" where
  "owns_exactly s \<longleftrightarrow>
     (\<forall>a c n. conns s a = Some c \<longrightarrow> (n \<in> set (services c) \<longleftrightarrow> owner (tables s) n = Some a))"

definition instances_live :: "'s system \<Rightarrow> bool" where
  "instances_live s \<longleftrightarrow>
     (\<forall>i a. instance_of (tables s) i = Some a \<longrightarrow> (\<exists>c. conns s a = Some c \<and> instance_id c = Some i))"

definition displaced_told :: "'s system \<Rightarrow> bool" where
  "displaced_told s \<longleftrightarrow>
     (\<forall>a c i. conns s a = Some c \<longrightarrow> instance_id c = Some i \<longrightarrow>
        instance_of (tables s) i = Some a \<or> (a, MDrop) \<in> set (mailed s))"

definition addresses_fresh :: "'s system \<Rightarrow> bool" where
  "addresses_fresh s \<longleftrightarrow>
     (\<forall>a \<ge> next_addr s. conns s a = None \<and> (\<forall>n. owner (tables s) n \<noteq> Some a)
        \<and> (\<forall>i. instance_of (tables s) i \<noteq> Some a))"

definition ownership :: "'s system \<Rightarrow> bool" where
  "ownership s \<longleftrightarrow> owns_exactly s \<and> instances_live s \<and> displaced_told s \<and> addresses_fresh s"

text \<open>The additional facts of a system with polite clients.\<close>

definition no_orphans :: "'s system \<Rightarrow> bool" where
  "no_orphans s \<longleftrightarrow>
     (\<forall>a c. conns s a = Some c \<longrightarrow> instance_id c = None \<longrightarrow> services c = [])
     \<and> (\<forall>n a. owner (tables s) n = Some a \<longrightarrow> conns s a \<noteq> None)"

lemmas ownership_defs = ownership_def owns_exactly_def instances_live_def displaced_told_def
  addresses_fresh_def

text \<open>The state after the handler, before the mailboxes are served: the connection still lives.\<close>

definition after_handler :: "nat \<Rightarrow> (nat, 's) turn \<Rightarrow> 's system \<Rightarrow> 's system" where
  "after_handler a t s = s\<lparr>tables := rt t, conns := (conns s)(a \<mapsto> act t),
     flight := flight s @ concat (map (mail_of a) (effects t)),
     mailed := mailed s @ concat (map (mail_of a) (effects t))\<rparr>"

lemma after_handler_simps [simp]:
  "tables (after_handler a t s) = rt t" "conns (after_handler a t s) = (conns s)(a \<mapsto> act t)"
  "mailed (after_handler a t s) = mailed s @ concat (map (mail_of a) (effects t))"
  "next_addr (after_handler a t s) = next_addr s"
  by (simp_all add: after_handler_def)

lemma take_turn_unfold:
  "take_turn x f a c s =
     (let t = f \<lparr>act = c, rt = tables s, effects = []\<rparr>; s1 = after_handler a t s
      in if StopCtx \<in> set (effects t)
         then s1\<lparr>tables := rt (cleanup x t), conns := (conns s1)(a := None)\<rparr> else s1)"
  by (simp add: take_turn_def Let_def after_handler_def stopped_def)

lemma owns_exactly_handler:
  assumes turn: "net_change x \<lparr>act = c, rt = tables s, effects = []\<rparr> t"
    and here: "conns s a = Some c" and env: "sees x a s" and inv: "owns_exactly s"
  shows "owns_exactly (after_handler a t s)"
proof -
  have mine: "n \<in> set (services c) \<longleftrightarrow> owner (tables s) n = Some a" for n
    using inv here by (simp add: owns_exactly_def)
  have other: "n \<in> set (services d) \<longleftrightarrow> owner (tables s) n = Some b" if "conns s b = Some d" for b d n
    using inv that by (simp add: owns_exactly_def)
  from turn show ?thesis
  proof cases
    case quiet
    with mine other show ?thesis by (simp add: owns_exactly_def)
  next
    case (registers n)
    with mine other env show ?thesis by (auto simp: owns_exactly_def sees_def)
  next
    case (unregisters n)
    with mine other env show ?thesis
      by (auto simp: owns_exactly_def sees_def removable_def split: option.splits)
  next
    case (announces i)
    with mine other show ?thesis by (simp add: owns_exactly_def)
  next
    case cleans
    with mine other env show ?thesis
      by (auto simp: owns_exactly_def sees_def cleanup_owner split: if_splits)
  qed
qed

lemma instances_live_handler:
  assumes turn: "net_change x \<lparr>act = c, rt = tables s, effects = []\<rparr> t"
    and here: "conns s a = Some c" and env: "sees x a s" and inv: "instances_live s"
  shows "instances_live (after_handler a t s)"
proof -
  have mine: "instance_of (tables s) i = Some a \<Longrightarrow> instance_id c = Some i" for i
    using inv here by (fastforce simp: instances_live_def)
  have other: "instance_of (tables s) i = Some b \<Longrightarrow> \<exists>d. conns s b = Some d \<and> instance_id d = Some i" for b i
    using inv by (simp add: instances_live_def)
  from turn show ?thesis
  proof cases
    case (announces j)
    have "\<exists>d. conns (after_handler a t s) b = Some d \<and> instance_id d = Some i"
      if "instance_of (rt t) i = Some b" for i b
      using that announces env mine [of i] other [of i b] by (cases "i = j"; auto simp: sees_def)
    then show ?thesis by (simp add: instances_live_def)
  next
    case cleans
    have "\<exists>d. conns (after_handler a t s) b = Some d \<and> instance_id d = Some i"
      if "instance_of (rt t) i = Some b" for i b
      using that cleans env mine [of i] other [of i b]
      by (cases "b = a"; auto simp: sees_def cleanup_instance_iff)
    then show ?thesis by (simp add: instances_live_def)
  qed (use mine other in \<open>simp_all add: instances_live_def\<close>)
qed

lemma displaced_told_handler:
  assumes turn: "net_change x \<lparr>act = c, rt = tables s, effects = []\<rparr> t"
    and here: "conns s a = Some c" and env: "sees x a s" and inv: "displaced_told s"
  shows "displaced_told (after_handler a t s)"
  unfolding displaced_told_def
proof (intro allI impI)
  fix b d i
  assume d: "conns (after_handler a t s) b = Some d" and i: "instance_id d = Some i"
  have told: "instance_of (tables s) i = Some b \<or> (b, MDrop) \<in> set (mailed s)"
    if "conns s b = Some d'" "instance_id d' = Some i" for d'
    using inv that by (simp add: displaced_told_def)
  have a: "address x = a" using env by (simp add: sees_def)
  show "instance_of (tables (after_handler a t s)) i = Some b \<or> (b, MDrop) \<in> set (mailed (after_handler a t s))"
  proof (cases "b = a")
    case True
    with d have dt: "d = act t" by simp
    from turn show ?thesis
      by cases (use dt i told [of c] here a True in \<open>auto simp: cleanup_instance\<close>)
  next
    case False
    with d told [of d] i have was: "instance_of (tables s) i = Some b \<or> (b, MDrop) \<in> set (mailed s)" by simp
    from turn show ?thesis
    proof cases
      case (announces j)
      have "(b, MDrop) \<in> set (concat (map (mail_of a) (effects t)))" if "instance_of (tables s) j = Some b"
        using announces(6) that by force
      with was announces(3) show ?thesis by (cases "i = j") auto
    qed (use was a False in \<open>auto simp: cleanup_instance split: option.splits\<close>)
  qed
qed

lemma addresses_fresh_handler:
  assumes turn: "net_change x \<lparr>act = c, rt = tables s, effects = []\<rparr> t"
    and here: "conns s a = Some c" and env: "sees x a s" and inv: "addresses_fresh s"
  shows "addresses_fresh (after_handler a t s)"
proof -
  have fresh: "b \<noteq> a" "conns s b = None" "owner (tables s) n \<noteq> Some b" "instance_of (tables s) i \<noteq> Some b"
    if "next_addr s \<le> b" for b n i
    using inv here that by (auto simp: addresses_fresh_def)
  from turn show ?thesis
  proof cases
    case cleans
    with fresh env show ?thesis
      by (auto simp: addresses_fresh_def sees_def cleanup_owner cleanup_instance split: option.splits if_splits)
  qed (use fresh env in \<open>auto simp: addresses_fresh_def sees_def\<close>)
qed

lemma ownership_stop:
  assumes "ownership s" and "conns s a = Some (act t)" and "tables s = rt t" and "address x = a"
  shows "ownership (s\<lparr>tables := rt (cleanup x t), conns := (conns s)(a := None)\<rparr>)"
proof -
  let ?s = "s\<lparr>tables := rt (cleanup x t), conns := (conns s)(a := None)\<rparr>"
  have inv: "owns_exactly s" "instances_live s" "displaced_told s" "addresses_fresh s"
    using assms(1) by (simp_all add: ownership_def)
  have inst: "instance_of (rt t) i = Some a \<Longrightarrow> instance_id (act t) = Some i" for i
    using inv(2) assms(2,3) by (fastforce simp: instances_live_def)
  have "owns_exactly ?s"
    using inv(1) assms(2-) by (auto simp: owns_exactly_def cleanup_owner split: if_splits)
  moreover have "instances_live ?s"
    unfolding instances_live_def
  proof (intro allI impI)
    fix i b
    assume "instance_of (tables ?s) i = Some b"
    then have "instance_of (rt t) i = Some b" "b \<noteq> a"
      using inst [of i] assms(4) by (auto simp: cleanup_instance_iff)
    then show "\<exists>c. conns ?s b = Some c \<and> instance_id c = Some i"
      using inv(2) assms(3) by (simp add: instances_live_def)
  qed
  moreover have "displaced_told ?s"
    using inv(3) assms(3,4) by (auto simp: displaced_told_def cleanup_instance_iff)
  moreover have "addresses_fresh ?s"
    using inv(4) assms(3,4)
    by (auto simp: addresses_fresh_def cleanup_owner cleanup_instance split: option.splits if_splits)
  ultimately show ?thesis by (simp add: ownership_def)
qed

lemma ownership_handler:
  assumes "net_change x \<lparr>act = c, rt = tables s, effects = []\<rparr> t"
    and "ownership s" and "conns s a = Some c" and "sees x a s"
  shows "ownership (after_handler a t s)"
  using assms(2) owns_exactly_handler [OF assms(1,3,4)] instances_live_handler [OF assms(1,3,4)]
    displaced_told_handler [OF assms(1,3,4)] addresses_fresh_handler [OF assms(1,3,4)]
  by (simp add: ownership_def)

lemma ownership_turn:
  assumes "\<And>t. net_change x t (f t)"
    and "ownership s" and "conns s a = Some c" and "sees x a s"
  shows "ownership (take_turn x f a c s)"
proof -
  let ?t = "f \<lparr>act = c, rt = tables s, effects = []\<rparr>"
  have mid: "ownership (after_handler a ?t s)" by (rule ownership_handler [OF assms])
  moreover have "address x = a" using assms(4) by (simp add: sees_def)
  ultimately show ?thesis
    using ownership_stop [OF mid, of a ?t x] by (simp add: take_turn_unfold Let_def)
qed

lemma ownership_flight [simp]: "ownership (s\<lparr>flight := fl\<rparr>) = ownership s"
  by (simp add: ownership_defs)

lemma sees_flight [simp]: "sees x a (s\<lparr>flight := fl\<rparr>) = sees x a s"
  by (simp add: sees_def)

lemma ownership_tables:
  "owner r = owner (tables s) \<Longrightarrow> instance_of r = instance_of (tables s) \<Longrightarrow>
   ownership (s\<lparr>tables := r\<rparr>) = ownership s"
  by (simp add: ownership_defs)

lemma gc_remove_frame [simp]:
  "owner (gc_remove ts r) = owner r" "instance_of (gc_remove ts r) = instance_of r"
  by (simp_all add: gc_remove_def owner_def instance_of_def)

lemma ownership_accept:
  assumes "ownership s"
  shows "ownership (s\<lparr>conns := (conns s)(next_addr s \<mapsto> connection_new ic info writer instant),
     next_addr := Suc (next_addr s)\<rparr>)"
proof -
  have "owner (tables s) n \<noteq> Some (next_addr s)" "instance_of (tables s) i \<noteq> Some (next_addr s)" for n i
    using assms by (simp_all add: ownership_def addresses_fresh_def)
  with assms show ?thesis by (auto simp: ownership_defs connection_new_def)
qed

lemma ownership_step: "step polite s s' \<Longrightarrow> ownership s \<Longrightarrow> ownership s'"
proof (induction rule: step.induct)
  case (accept s ic info writer instant)
  then show ?case by (rule ownership_accept)
next
  case (activity s a c x w)
  then show ?case by (intro ownership_turn) (auto simp: net_change_perform)
next
  case (deliver a m s c x)
  then show ?case by (intro ownership_turn) (auto simp: net_change_receive)
qed (simp_all add: ownership_tables)

lemma ownership_init: "ownership (system_init ic)"
  by (simp add: system_init_def ownership_defs)

interpretation any_client: invariant "system_init ic" "step polite" ownership
  by unfold_locales (auto intro: ownership_init ownership_step)

text \<open>Only a request to register adds a name to a connection.\<close>

lemma message_services:
  "set (services (act (snd (handle_message x m t)))) \<subseteq> set (services (act t))
   \<or> (\<exists>req. m = RegisterRequest req)"
  by (cases m)
     (auto simp: conn_defs split_beta Let_def split: option.splits CallReplyType.splits)

lemma perform_services:
  "set (services (act (perform x w t))) \<subseteq> set (services (act t))
   \<or> (\<exists>req. w = ClientItem (Inr (RegisterRequest req)))"
proof (cases w)
  case (ClientItem item)
  show ?thesis
  proof (cases item)
    case (Inr m)
    then show ?thesis
      using ClientItem message_services [of x m "t\<lparr>act := (act t)\<lparr>last_packet := now x\<rparr>\<rparr>"]
      by (auto simp: handle_input_def Let_def)
  next
    case (Inl e)
    then show ?thesis
      using ClientItem by (auto simp: handle_input_def Let_def split: protocol_error.splits io_error_kind.splits)
  qed
next
  case BufferEmpty
  then show ?thesis using buffer_empty_act [of x t] by (simp add: fold_out_write)
qed (auto simp: conn_defs Let_def split: option.splits future.splits)

lemma receive_services: "set (services (act (receive x m t))) \<subseteq> set (services (act t))"
  by (cases m) (auto simp: handle_forward_request_def handle_forward_response_def
      handle_drop_connection_def split_beta split: option.splits)

lemma no_orphansI:
  "(\<And>a c. conns s a = Some c \<Longrightarrow> instance_id c = None \<Longrightarrow> services c = []) \<Longrightarrow>
   (\<And>n a. owner (tables s) n = Some a \<Longrightarrow> conns s a \<noteq> None) \<Longrightarrow> no_orphans s"
  by (simp add: no_orphans_def)

lemma no_orphans_handler:
  assumes turn: "net_change x \<lparr>act = c, rt = tables s, effects = []\<rparr> t"
    and names: "instance_id c = None \<longrightarrow> set (services (act t)) \<subseteq> set (services c)"
    and inv: "no_orphans s" and here: "conns s a = Some c" and env: "sees x a s"
  shows "no_orphans (after_handler a t s)"
proof (rule no_orphansI)
  fix b d
  assume d: "conns (after_handler a t s) b = Some d" "instance_id d = None"
  have start: "services c = []" if "instance_id c = None"
    using inv here that by (simp add: no_orphans_def)
  have "services (act t) = []" if "instance_id (act t) = None"
    using turn names that start by cases (auto simp: set_empty [symmetric] simp del: set_empty)
  moreover have "conns s b = Some d \<Longrightarrow> services d = []" using inv d(2) by (simp add: no_orphans_def)
  ultimately show "services d = []" using d by (cases "b = a") simp_all
next
  fix n b
  assume n: "owner (tables (after_handler a t s)) n = Some b"
  have "conns s b \<noteq> None" if "owner (tables s) n = Some b"
    using inv that by (simp add: no_orphans_def)
  moreover have "b = a \<or> owner (tables s) n = Some b"
    using turn n env by cases (auto simp: sees_def cleanup_owner_iff split: if_splits)
  ultimately show "conns (after_handler a t s) b \<noteq> None" by auto
qed

lemma no_orphans_stop:
  assumes "ownership s" and "no_orphans s" and "conns s a = Some (act t)" and "tables s = rt t"
    and "address x = a"
  shows "no_orphans (s\<lparr>tables := rt (cleanup x t), conns := (conns s)(a := None)\<rparr>)"
proof (rule no_orphansI)
  fix b d
  assume "conns (s\<lparr>tables := rt (cleanup x t), conns := (conns s)(a := None)\<rparr>) b = Some d" "instance_id d = None"
  then show "services d = []" using assms(2) by (auto simp: no_orphans_def split: if_splits)
next
  fix n b
  assume n: "owner (tables (s\<lparr>tables := rt (cleanup x t), conns := (conns s)(a := None)\<rparr>)) n = Some b"
  have "n \<in> set (services (act t)) \<longleftrightarrow> owner (rt t) n = Some a"
    using assms by (simp add: ownership_def owns_exactly_def)
  moreover have "instance_id (act t) = None \<longrightarrow> services (act t) = []" "owner (rt t) n = Some b \<longrightarrow> conns s b \<noteq> None"
    using assms(2-4) by (simp_all add: no_orphans_def)
  ultimately show "conns (s\<lparr>tables := rt (cleanup x t), conns := (conns s)(a := None)\<rparr>) b \<noteq> None"
    using n assms(5) by (cases "b = a") (auto simp: cleanup_owner_iff)
qed

lemma no_orphans_turn:
  assumes turn: "\<And>t. net_change x t (f t)"
    and names: "instance_id c = None \<longrightarrow>
        set (services (act (f \<lparr>act = c, rt = tables s, effects = []\<rparr>))) \<subseteq> set (services c)"
    and own: "ownership s" and inv: "no_orphans s"
    and here: "conns s a = Some c" and env: "sees x a s"
  shows "no_orphans (take_turn x f a c s)"
proof -
  let ?t = "f \<lparr>act = c, rt = tables s, effects = []\<rparr>"
  have "no_orphans (after_handler a ?t s)" by (rule no_orphans_handler [OF turn names inv here env])
  moreover have "ownership (after_handler a ?t s)" by (rule ownership_handler [OF turn own here env])
  moreover have "address x = a" using env by (simp add: sees_def)
  ultimately show ?thesis
    using no_orphans_stop [of "after_handler a ?t s" a ?t x] by (simp add: take_turn_unfold Let_def)
qed

lemma no_orphans_flight [simp]: "no_orphans (s\<lparr>flight := fl\<rparr>) = no_orphans s"
  by (simp add: no_orphans_def)

lemma no_orphans_step:
  "step True s s' \<Longrightarrow> ownership s \<and> no_orphans s \<Longrightarrow> ownership s' \<and> no_orphans s'"
proof (rule conjI)
  assume st: "step True s s'" and inv: "ownership s \<and> no_orphans s"
  then show "ownership s'" using ownership_step by blast
  from st inv show "no_orphans s'"
  proof (induction rule: step.induct)
    case (activity s a c x w)
    then show ?case
      using perform_services [of x w]
      by (intro no_orphans_turn) (fastforce simp: net_change_perform polite_activity_def)+
  next
    case (deliver a m s c x)
    then show ?case
      using receive_services [of x m]
      by (intro no_orphans_turn) (fastforce simp: net_change_receive)+
  qed (auto simp: no_orphans_def connection_new_def)
qed

interpretation polite_client: invariant "system_init ic" "step True" "\<lambda>s. ownership s \<and> no_orphans s"
proof unfold_locales
  show "ownership (system_init ic) \<and> no_orphans (system_init ic)"
    by (simp add: ownership_init) (simp add: system_init_def no_orphans_def)
qed (rule no_orphans_step)

section \<open>Replies and requests\<close>

text \<open>\<open>asked s d a k\<close>: at some moment a call with the id \<open>k\<close> was forwarded to \<open>d\<close> on behalf of \<open>a\<close>.\<close>

definition asked :: "'s system \<Rightarrow> nat \<Rightarrow> nat \<Rightarrow> string \<Rightarrow> bool" where
  "asked s d a k \<longleftrightarrow>
     (\<exists>req. (d, MForward req a) \<in> set (mailed s) \<and> crq_request_id req = k \<and> \<not> crq_no_reply req)"

definition replies_asked :: "'s system \<Rightarrow> bool" where
  "replies_asked s \<longleftrightarrow>
     (\<forall>d c k a. conns s d = Some c \<longrightarrow> hm_get (reply_map c) k = Some a \<longrightarrow> asked s d a k)
     \<and> (\<forall>a d rep. (a, MResponse d rep) \<in> set (mailed s) \<longrightarrow> asked s d a (crp_request_id rep))
     \<and> set (flight s) \<subseteq> set (mailed s)"

lemma message_replies:
  "hm_get (reply_map (act (snd (handle_message x m t)))) k = Some v \<Longrightarrow>
     hm_get (reply_map (act t)) k = Some v"
  by (cases m)
     (auto simp: conn_defs split_beta Let_def split: option.splits CallReplyType.splits if_splits)

lemma input_replies:
  "hm_get (reply_map (act (snd (handle_input x item t)))) k = Some v \<Longrightarrow>
     hm_get (reply_map (act t)) k = Some v"
  by (auto simp: handle_input_def Let_def dest!: message_replies
      split: sum.splits protocol_error.splits io_error_kind.splits)

lemma tick_replies:
  "hm_get (reply_map (act (ping_tick x t))) k = Some v \<Longrightarrow> hm_get (reply_map (act t)) k = Some v"
  by (auto simp: ping_tick_def remove_dead_replies_def Let_def remove_all_lookup split: if_splits)

lemma perform_replies:
  "hm_get (reply_map (act (perform x w t))) k = Some v \<Longrightarrow> hm_get (reply_map (act t)) k = Some v"
proof (cases w)
  case BufferEmpty
  assume "hm_get (reply_map (act (perform x w t))) k = Some v"
  with BufferEmpty buffer_empty_act [of x t] show ?thesis by (simp add: fold_out_write)
qed (auto simp: input_started_def input_finished_def handle_topic_item_def poll_future_def
       dest: input_replies tick_replies split: option.splits future.splits)

lemma message_responses:
  "SendResponse a rep \<in> set (effects (snd (handle_message x m t))) \<Longrightarrow> effects t = [] \<Longrightarrow>
     hm_get (reply_map (act t)) (crp_request_id rep) = Some a"
  by (cases m)
     (auto simp: conn_defs hm_remove_def hm_get_def split_beta Let_def
        split: option.splits CallReplyType.splits if_splits)

lemma input_responses:
  "SendResponse a rep \<in> set (effects (snd (handle_input x item t))) \<Longrightarrow> effects t = [] \<Longrightarrow>
     hm_get (reply_map (act t)) (crp_request_id rep) = Some a"
  by (auto simp: handle_input_def Let_def dest!: message_responses
      split: sum.splits protocol_error.splits io_error_kind.splits)

lemma buffer_empty_responses:
  assumes "effects t = []"
  shows "SendResponse a rep \<notin> set (effects (buffer_empty x t))"
proof -
  let ?n = "high_buffer_mark (ic_config (cn_config (act t)))"
  obtain es where "effects (drain_hold (canceled x) ?n (hold_queue (act t))
        (t\<lparr>act := (act t)\<lparr>hold_queue := []\<rparr>\<rparr>)) = es"
      and es: "map told es = map (Some \<circ> snd) (hold_queue (act t))"
    using drain_hold_effects [of "canceled x" ?n "hold_queue (act t)" "t\<lparr>act := (act t)\<lparr>hold_queue := []\<rparr>\<rparr>"] assms
    by auto
  moreover have "SendResponse a rep \<notin> set es"
  proof
    assume "SendResponse a rep \<in> set es"
    then have "told (SendResponse a rep) \<in> set (map told es)" by (metis image_eqI set_map)
    with es show False by auto
  qed
  ultimately show ?thesis using assms by (simp add: buffer_empty_def)
qed

lemma perform_responses:
  "SendResponse a rep \<in> set (effects (perform x w t)) \<Longrightarrow> effects t = [] \<Longrightarrow>
     hm_get (reply_map (act t)) (crp_request_id rep) = Some a"
  using buffer_empty_responses [of t a rep x]
  by (cases w)
     (auto simp: input_started_def input_finished_def handle_topic_item_def poll_future_def
        ping_tick_def Let_def dest: input_responses split: option.splits future.splits if_splits)

lemma receive_responses:
  "effects t = [] \<Longrightarrow> SendResponse a rep \<notin> set (effects (receive x m t))"
  by (cases m) (auto simp: handle_forward_request_def handle_forward_response_def
      handle_drop_connection_def split_beta split: option.splits)

lemma receive_replies:
  "hm_get (reply_map (act (receive x m t))) k = Some v \<Longrightarrow>
     hm_get (reply_map (act t)) k = Some v
     \<or> (\<exists>req. m = MForward req v \<and> crq_request_id req = k \<and> \<not> crq_no_reply req)"
  by (cases m) (auto simp: handle_forward_request_def handle_forward_response_def
      handle_drop_connection_def split_beta split: option.splits if_splits)

lemma mail_of_response: "(d, MResponse a rep) \<in> set (mail_of b e) \<longleftrightarrow> e = SendResponse d rep \<and> a = b"
  by (cases e) auto

lemma replies_asked_turn:
  assumes new: "\<And>t k v. effects t = [] \<Longrightarrow> hm_get (reply_map (act (f t))) k = Some v \<Longrightarrow>
        hm_get (reply_map (act t)) k = Some v \<or> asked s a v k"
    and resp: "\<And>t d rep. effects t = [] \<Longrightarrow> SendResponse d rep \<in> set (effects (f t)) \<Longrightarrow>
        hm_get (reply_map (act t)) (crp_request_id rep) = Some d"
    and inv: "replies_asked s" and here: "conns s a = Some c"
  shows "replies_asked (take_turn x f a c s)"
proof -
  let ?t = "f \<lparr>act = c, rt = tables s, effects = []\<rparr>"
  let ?s = "take_turn x f a c s"
  have mailed: "mailed ?s = mailed s @ concat (map (mail_of a) (effects ?t))"
    and flight: "flight ?s = flight s @ concat (map (mail_of a) (effects ?t))"
    by (simp_all add: take_turn_def Let_def)
  have mono: "asked s d b k \<Longrightarrow> asked ?s d b k" for d b k
    by (auto simp: asked_def mailed)
  have old: "conns s d = Some e \<Longrightarrow> hm_get (reply_map e) k = Some b \<Longrightarrow> asked s d b k" for d e k b
    using inv by (simp add: replies_asked_def)
  have "asked ?s d b k" if "conns ?s d = Some e" "hm_get (reply_map e) k = Some b" for d e k b
  proof (cases "d = a")
    case True
    with that have "hm_get (reply_map (act ?t)) k = Some b"
      by (auto simp: take_turn_def Let_def stopped_def split: if_splits)
    then have "asked s a b k"
      using new [of "\<lparr>act = c, rt = tables s, effects = []\<rparr>" k b] old [OF here, of k b] by auto
    with True mono show ?thesis by simp
  next
    case False
    with that show ?thesis using old mono by (simp add: take_turn_def Let_def)
  qed
  moreover have "asked ?s d b (crp_request_id rep)" if mem: "(b, MResponse d rep) \<in> set (mailed ?s)" for b d rep
  proof (cases "(b, MResponse d rep) \<in> set (mailed s)")
    case True
    then show ?thesis using inv mono by (simp add: replies_asked_def)
  next
    case False
    with mem have "SendResponse b rep \<in> set (effects ?t)" "d = a"
      by (auto simp: mailed mail_of_response)
    then show ?thesis
      using resp [of "\<lparr>act = c, rt = tables s, effects = []\<rparr>" b rep] old [OF here] mono by simp
  qed
  ultimately show ?thesis
    using inv unfolding replies_asked_def by (auto simp: mailed flight)
qed

lemma asked_flight [simp]: "asked (s\<lparr>flight := fl\<rparr>) = asked s"
  by (simp add: asked_def fun_eq_iff)

lemma replies_asked_subset: "replies_asked s \<Longrightarrow> set fl \<subseteq> set (flight s) \<Longrightarrow> replies_asked (s\<lparr>flight := fl\<rparr>)"
  by (auto simp: replies_asked_def)

lemma replies_asked_step: "step polite s s' \<Longrightarrow> replies_asked s \<Longrightarrow> replies_asked s'"
proof (induction rule: step.induct)
  case (activity s a c x w)
  then show ?case
    by (intro replies_asked_turn) (auto dest: perform_replies perform_responses)
next
  case (deliver a m s c x)
  have "asked s a v (crq_request_id req)" if "m = MForward req v" "\<not> crq_no_reply req" for req v
    using that deliver by (auto simp: replies_asked_def asked_def)
  with deliver show ?case
    by (intro replies_asked_turn replies_asked_subset)
       (auto dest: receive_replies receive_responses set_remove1_subset [THEN subsetD])
next
  case (lose s am)
  then show ?case by (intro replies_asked_subset) (auto dest: set_remove1_subset [THEN subsetD])
qed (auto simp: replies_asked_def asked_def connection_new_def split: if_splits)

interpretation reply_routing: invariant "system_init ic" "step polite" replies_asked
  by unfold_locales (simp add: system_init_def replies_asked_def, rule replies_asked_step)

section \<open>An executable scheduler\<close>

text \<open>
  One way to choose the next turn: \<open>make_move\<close> performs the named move when it is possible and
  polite, and otherwise leaves the system alone. Every run of it is a run of \<open>step\<close>.
\<close>

definition ctx_at :: "nat \<Rightarrow> 's system \<Rightarrow> nat ctx" where
  "ctx_at a s = \<lparr>address = a, now = 0, connected = (\<lambda>b. conns s b \<noteq> None),
     sender_closed = (\<lambda>b. conns s b = None), canceled = (\<lambda>_. False),
     fresh_channel = 100, fresh_handle = 200, fresh_tx = 300\<rparr>"

datatype move = Accept string | Act nat activity | Deliver nat mail

fun make_move :: "instance_config \<Rightarrow> 's \<Rightarrow> move \<Rightarrow> 's system \<Rightarrow> 's system" where
  "make_move ic w (Accept info) s =
     s\<lparr>conns := (conns s)(next_addr s \<mapsto> connection_new ic info w 0), next_addr := Suc (next_addr s)\<rparr>"
| "make_move ic w (Act a k) s =
     (case conns s a of
        Some c \<Rightarrow> if polite_activity c k then take_turn (ctx_at a s) (perform (ctx_at a s) k) a c s else s
      | None \<Rightarrow> s)"
| "make_move ic w (Deliver a m) s =
     (case conns s a of
        Some c \<Rightarrow> if (a, m) \<in> set (flight s)
                  then take_turn (ctx_at a s) (receive (ctx_at a s) m) a c (s\<lparr>flight := remove1 (a, m) (flight s)\<rparr>)
                  else s
      | None \<Rightarrow> s)"

lemma sees_ctx_at [simp]: "sees (ctx_at a s) a s"
  by (simp add: sees_def ctx_at_def)

lemma make_move_reachable: "reachable polite ic s \<Longrightarrow> reachable polite ic (make_move ic w mv s)"
  unfolding reachable_def
  by (cases mv) (auto split: option.splits intro!: rtranclp.rtrancl_into_rtrancl [of _ _ s] step.intros)

lemma moves_reachable: "reachable polite ic s \<Longrightarrow> reachable polite ic (fold (make_move ic w) mvs s)"
  by (induction mvs arbitrary: s) (auto intro: make_move_reachable)

text \<open>A service says hello and registers a name; another client calls an address below it; the call
  is delivered and answered, and the answer is on its way back.\<close>

definition scene_request :: call_request where
  "scene_request = \<lparr>crq_caller = ''me'', crq_address = ''/s/x'', crq_request_id = ''r'',
     crq_data = [1], crq_no_reply = False\<rparr>"

definition scene_reply :: call_reply where
  "scene_reply = default_call_reply\<lparr>crp_request_id := ''r'', crp_data := [2]\<rparr>"

definition scene :: "nat system" where
  "scene = fold (make_move sample_instance 16)
     [Accept ''caller'', Accept ''service'',
      Act 1 (ClientItem (Inr (Hello \<lparr>hl_name = ''n'', hl_version = ''v'', hl_instance_id = [1]\<rparr>))),
      Act 1 (ClientItem (Inr (RegisterRequest \<lparr>rrq_service_id = ''/s''\<rparr>))),
      Act 0 (ClientItem (Inr (CallRequest scene_request))),
      Deliver 1 (MForward scene_request 0),
      Act 1 (ClientItem (Inr (CallReply scene_reply)))]
     (system_init sample_instance)"

lemma scene_reachable: "reachable polite sample_instance scene"
  unfolding scene_def by (rule moves_reachable) (simp add: reachable_def)

lemma scene_lookup: "RevPrefixes ''/s/x'' = [''/s/x'', ''/s'']"
  by (simp add: RevPrefixes.simps rev_prefixes_next_def)

lemmas scene_defs = scene_def system_init_def take_turn_def ctx_at_def Let_def conn_op_defs router_op_defs
  polite_activity_def connection_new_def new_router_def pb_get_def pb_insert_def pb_default_def
  hm_get_def hm_insert_def hm_remove_def hs_insert_def out_write_def sw_write_def sink_write_new_def
  buffer_len_def parse_node_id_def scene_lookup get_reply_type_def default_call_reply_def
  scene_request_def scene_reply_def sample_instance_def with_app_def default_config_def gc_interval_secs_def

lemma scene_state:
  "owner (tables scene) ''/s'' = Some 1" "instance_of (tables scene) [1] = Some 1"
  "flight scene = [(0, MResponse 1 scene_reply)]" "conns scene 1 \<noteq> None"
  by (simp_all add: scene_defs owner_def instance_of_def pb_content_def)

section \<open>Properties\<close>

text \<open>
  C9. Who owns what, for arbitrary clients and every interleaving: a live connection has recorded
  exactly the names the router resolves to it; an instance is registered only as a live connection
  that announced it; and a live connection that announced an instance either still is the one
  registered for it or has been sent the order to drop.
\<close>

theorem tables_agree_with_connections:
  assumes "reachable polite ic s" and "conns s a = Some c"
  shows "(n \<in> set (services c) \<longleftrightarrow> owner (tables s) n = Some a)
     \<and> (instance_of (tables s) i = Some b \<longrightarrow> (\<exists>d. conns s b = Some d \<and> instance_id d = Some i))
     \<and> (instance_id c = Some i \<longrightarrow> instance_of (tables s) i = Some a \<or> (a, MDrop) \<in> set (mailed s))"
  using any_client.always [OF assms(1) [unfolded reachable_def]] assms(2)
  unfolding ownership_defs by blast

theorem tables_agree_with_connections_witness:
  "\<exists>c. conns scene 1 = Some c \<and> ''/s'' \<in> set (services c) \<and> instance_id c = Some [1]"
proof -
  obtain c where c: "conns scene 1 = Some c" using scene_state(4) by blast
  show ?thesis
    using tables_agree_with_connections [OF scene_reachable [of False] c, of "''/s''" "[1]" 1]
      scene_state(1,2) c by simp
qed

text \<open>
  C2. With polite clients the table of names never points to a connection that is gone: a name is
  owned by \<open>a\<close> exactly when \<open>a\<close> is a live connection that registered it. So no caller is sent to
  a dead connection by a stale entry, and a name is free again as soon as its holder has stopped.
\<close>

theorem polite_names_are_live:
  assumes "reachable True ic s"
  shows "owner (tables s) n = Some a \<longleftrightarrow> (\<exists>c. conns s a = Some c \<and> n \<in> set (services c))"
proof -
  have inv: "ownership s" "no_orphans s"
    using polite_client.always [OF assms [unfolded reachable_def]] by simp_all
  then have "owner (tables s) n = Some a \<Longrightarrow> conns s a \<noteq> None"
    by (simp add: no_orphans_def)
  with inv(1) show ?thesis by (auto simp: ownership_def owns_exactly_def)
qed

theorem polite_names_are_live_witness:
  "\<exists>c. conns scene 1 = Some c \<and> ''/s'' \<in> set (services c)"
  using polite_names_are_live [OF scene_reachable, of "''/s''" 1] scene_state(1) by simp

lemma register_input_effect:
  "effects (snd (handle_input x (Inr (RegisterRequest req)) t)) = effects t"
  "instance_id (act (snd (handle_input x (Inr (RegisterRequest req)) t))) = instance_id (act t)"
  "owner (rt (snd (handle_input x (Inr (RegisterRequest req)) t))) =
     (if owner (rt t) (rrq_service_id req) = None
      then (owner (rt t))(rrq_service_id req \<mapsto> address x) else owner (rt t))"
  by (auto simp: handle_input_def handle_message_def handle_register_request_def Let_def split_beta
      register_service_effect split: option.splits)

text \<open>
  C39. Without politeness this fails: a client that registers a name without having said hello and
  then disconnects leaves the name pointing to its dead connection, so that the next client that
  asks for the name is told it is taken.
\<close>

theorem silent_client_leaves_orphan:
  "\<exists>s :: unit system. reachable False ic s \<and> conns s 0 = None \<and> owner (tables s) n = Some 0
     \<and> \<not> fst (register_service n 1 (tables s))"
proof -
  let ?c = "connection_new ic [] () 0 :: (nat, unit) connection"
  let ?s1 = "(system_init ic)\<lparr>conns := [0 \<mapsto> ?c], next_addr := 1\<rparr> :: unit system"
  let ?x = "sample_ctx\<lparr>address := 0, connected := \<lambda>b. b = 0, sender_closed := \<lambda>b. b \<noteq> 0\<rparr>"
  let ?s2 = "take_turn ?x (perform ?x (ClientItem (Inr (RegisterRequest \<lparr>rrq_service_id = n\<rparr>)))) 0 ?c ?s1"
  obtain c2 where c2: "conns ?s2 = [0 \<mapsto> c2]" "instance_id c2 = None" "owner (tables ?s2) n = Some 0"
    by (simp add: take_turn_def Let_def register_input_effect system_init_def connection_new_def)
  let ?s3 = "take_turn ?x (perform ?x StreamEnd) 0 c2 ?s2"
  have "step False (system_init ic) ?s1"
    using accept [of False "system_init ic :: unit system" ic "[]" "()" 0] by (simp add: system_init_def)
  moreover have "step False ?s1 ?s2"
    by (rule activity) (auto simp: sees_def system_init_def)
  moreover have "step False ?s2 ?s3"
    using c2 by (intro activity) (auto simp: sees_def)
  ultimately have "reachable False ic ?s3"
    by (auto simp: reachable_def)
  moreover have "conns ?s3 0 = None" "owner (tables ?s3) n = Some 0"
    using c2 by (simp_all add: take_turn_def input_finished_def stopped_def cleanup_def)
  ultimately show ?thesis
    by (intro exI [of _ ?s3]) (simp add: register_service_effect(1))
qed

text \<open>
  C3. Nobody receives an answer to a call they did not make: whenever a reply is on its way from
  one connection to another, a call with the reply's id, not marked as needing no reply, had been
  forwarded to the answering connection on behalf of the receiving one. The same holds for every
  entry in a connection's map of pending requests.
\<close>

theorem replies_answer_calls:
  assumes "reachable polite ic s"
  shows "((a, MResponse d rep) \<in> set (flight s) \<longrightarrow> asked s d a (crp_request_id rep))
     \<and> (conns s d = Some c \<longrightarrow> hm_get (reply_map c) k = Some a \<longrightarrow> asked s d a k)"
  using reply_routing.always [OF assms [unfolded reachable_def]]
  unfolding replies_asked_def by blast

theorem replies_answer_calls_witness:
  "(0, MResponse 1 scene_reply) \<in> set (flight scene) \<and> asked scene 1 0 ''r''"
  using replies_answer_calls [OF scene_reachable [of True], of 0 1 scene_reply "the (conns scene 1)" "''r''"]
  by (simp add: scene_state(3) scene_reply_def)

end
