(* ===== verification/Gsb_Addr.thy ===== *)
theory Gsb_Addr
  imports Prelude
begin

text \<open>
  The endpoint part of \<^verbatim>\<open>crates/proto/src/lib.rs\<close>: where the socket of a router lives by
  default, and how a URL or the environment selects another address. A path is its string;
  \<^verbatim>\<open>Path::join\<close> is \<open>path_join\<close>. URLs belong to a crate outside the repository: their operations are
  the record \<open>url_ops\<close>, an argument of the functions that use them. The environment variables and
  the platform's data directory are arguments. A panic is an \<open>Inl\<close> with its message. The
  definitions are those of a Unix build (\<open>Portability\<close> has the others); \<open>linux_default_gsb_endpoint\<close>
  and \<open>macos_default_gsb_endpoint\<close> are both public on every platform.
\<close>

unbundle bit_operations_syntax

section \<open>Paths\<close>

definition is_absolute :: "string \<Rightarrow> bool" where
  "is_absolute p = starts_with p ''/''"

definition path_join :: "string \<Rightarrow> string \<Rightarrow> string" where
  "path_join base p =
     (if is_absolute p \<or> base = [] then p
      else if ends_with_char base (CHR ''/'') then base @ p
      else base @ ''/'' @ p)"

section \<open>Default endpoints\<close>

definition default_gsb_port :: nat where
  "default_gsb_port = 7464"

definition gsb_app_dir :: string where
  "gsb_app_dir = ''yagna''"

definition gsb_run_dir :: string where
  "gsb_run_dir = ''run''"

definition gsb_socket_name :: string where
  "gsb_socket_name = ''gsb.sock''"

record unix_gsb_endpoint =
  socket_path :: string
  trusted_root :: string
  private_dirs :: "string list"

text \<open>The 64-bit FNV-1a hash of the path's bytes, printed with sixteen hexadecimal digits.\<close>

definition fnv_step :: "u64 \<Rightarrow> u8 \<Rightarrow> u64" where
  "fnv_step hash byte = (hash XOR ucast byte) * 0x100000001b3"

definition fnv_hash :: "bytes \<Rightarrow> u64" where
  "fnv_hash bs = foldl fnv_step 0xcbf29ce484222325 bs"

definition hex_digit :: "nat \<Rightarrow> char" where
  "hex_digit n = char_of (if n < 10 then 48 + n else 87 + n)"

definition hex16 :: "u64 \<Rightarrow> string" where
  "hex16 w = map (\<lambda>i. hex_digit (unat (drop_bit (4 * (15 - i)) w AND 15))) [0..<16]"

definition data_dir_namespace :: "string \<Rightarrow> string" where
  "data_dir_namespace data_dir = hex16 (fnv_hash (as_bytes data_dir))"

definition linux_default_gsb_endpoint ::
  "string \<Rightarrow> bool \<Rightarrow> string option \<Rightarrow> unix_gsb_endpoint" where
  "linux_default_gsb_endpoint data_dir is_default_data_dir runtime_dir =
     (case (case runtime_dir of Some d \<Rightarrow> if is_absolute d then Some d else None | None \<Rightarrow> None) of
        Some d \<Rightarrow>
          let app_dir = path_join d gsb_app_dir in
          if is_default_data_dir
          then \<lparr>socket_path = path_join app_dir gsb_socket_name, trusted_root = d, private_dirs = [app_dir]\<rparr>
          else let instance_dir = path_join app_dir (data_dir_namespace data_dir)
               in \<lparr>socket_path = path_join instance_dir gsb_socket_name, trusted_root = d,
                   private_dirs = [app_dir, instance_dir]\<rparr>
      | None \<Rightarrow>
          let private_dir = path_join data_dir gsb_run_dir
          in \<lparr>socket_path = path_join private_dir gsb_socket_name, trusted_root = data_dir,
              private_dirs = [private_dir]\<rparr>)"

definition macos_default_gsb_endpoint :: "string \<Rightarrow> bool \<Rightarrow> string \<Rightarrow> unix_gsb_endpoint" where
  "macos_default_gsb_endpoint data_dir is_default_data_dir temp_dir =
     (let app_dir = path_join temp_dir gsb_app_dir in
      if is_default_data_dir
      then \<lparr>socket_path = path_join app_dir gsb_socket_name, trusted_root = temp_dir, private_dirs = [app_dir]\<rparr>
      else let instance_dir = path_join app_dir (data_dir_namespace data_dir)
           in \<lparr>socket_path = path_join instance_dir gsb_socket_name, trusted_root = temp_dir,
               private_dirs = [app_dir, instance_dir]\<rparr>)"

text \<open>\<open>xdg\<close> is the value of \<^verbatim>\<open>XDG_RUNTIME_DIR\<close>, if it is set.\<close>

definition default_unix_gsb_endpoint :: "string option \<Rightarrow> string \<Rightarrow> bool \<Rightarrow> unix_gsb_endpoint" where
  "default_unix_gsb_endpoint xdg data_dir is_default_data_dir =
     linux_default_gsb_endpoint data_dir is_default_data_dir
       (case xdg of
          Some v \<Rightarrow> if v \<noteq> [] \<and> is_absolute v then Some v else None
        | None \<Rightarrow> None)"

section \<open>Addresses\<close>

datatype gsb_addr = Tcp string | Unix string

datatype generated_gsb_endpoint = GeneratedTcp string | GeneratedUnix unix_gsb_endpoint

definition for_data_dir :: "string option \<Rightarrow> string \<Rightarrow> bool \<Rightarrow> generated_gsb_endpoint" where
  "for_data_dir xdg data_dir is_default_data_dir =
     GeneratedUnix (default_unix_gsb_endpoint xdg data_dir is_default_data_dir)"

definition into_addr :: "generated_gsb_endpoint \<Rightarrow> gsb_addr" where
  "into_addr e = (case e of GeneratedTcp addr \<Rightarrow> Tcp addr | GeneratedUnix ep \<Rightarrow> Unix (socket_path ep))"

text \<open>\<open>project_dir\<close> is the data directory that the platform suggests, if it does.\<close>

definition default_yagna_data_dir :: "string option \<Rightarrow> string" where
  "default_yagna_data_dir project_dir =
     (case project_dir of Some d \<Rightarrow> d | None \<Rightarrow> path_join ''GolemFactory'' gsb_app_dir)"

definition generated_default :: "string option \<Rightarrow> string option \<Rightarrow> generated_gsb_endpoint" where
  "generated_default xdg project_dir = for_data_dir xdg (default_yagna_data_dir project_dir) True"

datatype url_error = RelativeUrlWithoutBase | OtherUrlError

record 'u url_ops =
  url_parse :: "string \<Rightarrow> url_error + 'u"
  url_scheme :: "'u \<Rightarrow> string"
  url_host_str :: "'u \<Rightarrow> string option"
  url_port :: "'u \<Rightarrow> nat option"
  url_to_file_path :: "'u \<Rightarrow> string option"
  url_from_file_path :: "string \<Rightarrow> 'u option"
  url_path :: "'u \<Rightarrow> string"

definition parse_tcp_url :: "'u url_ops \<Rightarrow> 'u \<Rightarrow> string + string" where
  "parse_tcp_url ops url =
     (case url_host_str ops url of
        None \<Rightarrow> Inl ''need host for GSB URL''
      | Some host \<Rightarrow>
          let port = (case url_port ops url of Some p \<Rightarrow> p | None \<Rightarrow> default_gsb_port)
          in Inr (host @ '':'' @ show_nat port))"

definition parse_unix_url :: "'u url_ops \<Rightarrow> 'u \<Rightarrow> string + string" where
  "parse_unix_url ops url =
     (case url_to_file_path ops url of
        None \<Rightarrow> Inl ''invalid socket path in GSB URL''
      | Some path \<Rightarrow> Inr path)"

definition into_url :: "'u url_ops \<Rightarrow> generated_gsb_endpoint \<Rightarrow> string + 'u" where
  "into_url ops e =
     (case e of
        GeneratedTcp addr \<Rightarrow>
          (case url_parse ops (''tcp://'' @ addr) of
             Inl _ \<Rightarrow> Inl ''invalid platform DEFAULT_GSB_URL''
           | Inr u \<Rightarrow> Inr u)
      | GeneratedUnix ep \<Rightarrow>
          (case url_from_file_path ops (socket_path ep) of
             None \<Rightarrow> Inl (''cannot encode default GSB socket path '' @ socket_path ep @ '' as a URL; set GSB_URL'')
           | Some file_url \<Rightarrow>
               (case url_parse ops (''unix:'' @ url_path ops file_url) of
                  Inl _ \<Rightarrow> Inl ''cannot encode default GSB socket URL''
                | Inr u \<Rightarrow> Inr u)))"

definition default_gsb_url :: "'u url_ops \<Rightarrow> string option \<Rightarrow> string option \<Rightarrow> string + 'u" where
  "default_gsb_url ops xdg project_dir = into_url ops (generated_default xdg project_dir)"

text \<open>The URL from the environment variable \<^verbatim>\<open>GSB_URL\<close>: an address without a scheme is TCP.\<close>

definition env_url :: "'u url_ops \<Rightarrow> string \<Rightarrow> string + 'u" where
  "env_url ops url =
     (case (case url_parse ops url of
              Inl RelativeUrlWithoutBase \<Rightarrow> url_parse ops (''tcp://'' @ url)
            | parsed \<Rightarrow> parsed) of
        Inl _ \<Rightarrow> Inl ''provide GSB URL in format tcp://<ip:port> or unix:<path>''
      | Inr u \<Rightarrow> Inr u)"

text \<open>The URL that \<^verbatim>\<open>from_url\<close> goes by: the one given, or else that of the environment variable.\<close>

definition requested_url :: "'u url_ops \<Rightarrow> string option \<Rightarrow> 'u option \<Rightarrow> string + 'u option" where
  "requested_url ops gsb_url_var gsb_url =
     (case gsb_url of
        Some u \<Rightarrow> Inr (Some u)
      | None \<Rightarrow> (case gsb_url_var of
                   None \<Rightarrow> Inr None
                 | Some v \<Rightarrow> map_sum id Some (env_url ops v)))"

text \<open>\<open>generated\<close> is \<^verbatim>\<open>GeneratedGsbEndpoint::default()\<close>, \<open>gsb_url_var\<close> the environment variable.\<close>

definition addr_from_url ::
  "'u url_ops \<Rightarrow> generated_gsb_endpoint \<Rightarrow> string option \<Rightarrow> 'u option \<Rightarrow> string + gsb_addr" where
  "addr_from_url ops generated gsb_url_var gsb_url =
     (case requested_url ops gsb_url_var gsb_url of
        Inl panic \<Rightarrow> Inl panic
      | Inr None \<Rightarrow> Inr (into_addr generated)
      | Inr (Some u) \<Rightarrow>
          if url_scheme ops u = ''tcp'' then map_sum id Tcp (parse_tcp_url ops u)
          else if url_scheme ops u = ''unix'' then map_sum id Unix (parse_unix_url ops u)
          else Inl (''unimplemented protocol for GSB URL: '' @ url_scheme ops u))"

definition addr_default :: "'u url_ops \<Rightarrow> generated_gsb_endpoint \<Rightarrow> string option \<Rightarrow> string + gsb_addr" where
  "addr_default ops generated gsb_url_var = addr_from_url ops generated gsb_url_var None"

definition show_addr :: "gsb_addr \<Rightarrow> string" where
  "show_addr a = (case a of Tcp addr \<Rightarrow> addr | Unix path \<Rightarrow> path)"

section \<open>Facts\<close>

lemma hex_digit_range: "n < 16 \<Longrightarrow> hex_digit n \<in> set ''0123456789abcdef''"
proof -
  have "\<forall>n \<in> set [0..<16]. hex_digit n \<in> set ''0123456789abcdef''" by code_simp
  then show "n < 16 \<Longrightarrow> hex_digit n \<in> set ''0123456789abcdef''" by simp
qed

lemma hex16_digits: "length (hex16 w) = 16" "set (hex16 w) \<subseteq> set ''0123456789abcdef''"
proof -
  show "length (hex16 w) = 16" by (simp add: hex16_def)
  have "unat (drop_bit k w AND 15) < 16" for k
  proof -
    have "drop_bit k w AND 15 = take_bit 4 (drop_bit k w)"
      by (simp add: take_bit_eq_mask mask_eq_exp_minus_1)
    then have "unat (drop_bit k w AND 15) = take_bit 4 (unat (drop_bit k w))"
      by (simp add: unsigned_take_bit_eq)
    then show ?thesis using take_bit_nat_less_exp [of 4 "unat (drop_bit k w)"] by simp
  qed
  then show "set (hex16 w) \<subseteq> set ''0123456789abcdef''"
    unfolding hex16_def using hex_digit_range by fastforce
qed

lemma path_join_component:
  "base \<noteq> [] \<Longrightarrow> \<not> is_absolute p \<Longrightarrow>
     \<exists>b. path_join base p = b @ ''/'' @ p \<and> (base = b \<or> base = b @ ''/'')"
  by (auto simp: path_join_def ends_with_char_def) (metis append_butlast_last_id)

lemma namespace_component:
  "data_dir_namespace d \<noteq> []" "\<not> is_absolute (data_dir_namespace d)" "CHR ''/'' \<notin> set (data_dir_namespace d)"
proof -
  note digits = hex16_digits [of "fnv_hash (as_bytes d)", folded data_dir_namespace_def]
  show slash: "CHR ''/'' \<notin> set (data_dir_namespace d)" using digits(2) by auto
  show "data_dir_namespace d \<noteq> []" using digits(1) by auto
  show "\<not> is_absolute (data_dir_namespace d)"
    using slash by (auto simp: is_absolute_def starts_with_iff)
qed

lemma constants_relative [simp]:
  "\<not> is_absolute gsb_app_dir" "\<not> is_absolute gsb_run_dir" "\<not> is_absolute gsb_socket_name"
  "length gsb_app_dir = 5" "length gsb_socket_name = 8" "length gsb_run_dir = 3" "gsb_app_dir \<noteq> []"
  by (simp_all add: is_absolute_def starts_with_def gsb_app_dir_def gsb_run_dir_def gsb_socket_name_def)

text \<open>Joining two or three relative components to a directory.\<close>

lemma path_join_twice:
  assumes "base \<noteq> []" and "\<not> is_absolute p" and "p \<noteq> []" and "last p \<noteq> CHR ''/''" and "\<not> is_absolute q"
  shows "path_join (path_join base p) q = path_join base p @ ''/'' @ q"
proof -
  obtain b where "path_join base p = b @ ''/'' @ p" using path_join_component assms(1,2) by blast
  then show ?thesis
    using assms by (simp add: path_join_def [of "b @ CHR ''/'' # p"] ends_with_char_def)
qed

lemma path_join_prefix: "base \<noteq> [] \<Longrightarrow> \<not> is_absolute p \<Longrightarrow> \<exists>r. path_join base p = base @ r"
  by (auto simp: path_join_def)

text \<open>
  What the code expects of the URLs it makes from paths: the path of a file URL, put behind
  \<^verbatim>\<open>unix:\<close>, gives a URL with that scheme from which the path can be read back. This is expected only of
  paths that have nothing to normalise: absolute ones without an empty component and without \<^verbatim>\<open>.\<close> and \<^verbatim>\<open>..\<close>.
\<close>

definition normal_path :: "string \<Rightarrow> bool" where
  "normal_path path \<longleftrightarrow> is_absolute path \<and> list_all (\<lambda>c. c \<notin> {[], ''.'', ''..''}) (split_on (CHR ''/'') (tl path))"

definition unix_urls_ok :: "'u url_ops \<Rightarrow> bool" where
  "unix_urls_ok ops \<longleftrightarrow>
     (\<forall>path u v. normal_path path \<longrightarrow> url_from_file_path ops path = Some u \<longrightarrow> url_parse ops (''unix:'' @ url_path ops u) = Inr v \<longrightarrow>
        url_scheme ops v = ''unix'' \<and> url_to_file_path ops v = Some path)"

lemma default_url_leads_to_socket:
  assumes "unix_urls_ok ops" and "normal_path (socket_path ep)" and "into_url ops (GeneratedUnix ep) = Inr u"
  shows "addr_from_url ops g var (Some u) = Inr (Unix (socket_path ep))"
  using assms
  by (force simp: into_url_def addr_from_url_def requested_url_def unix_urls_ok_def parse_unix_url_def split: option.splits sum.splits)

section \<open>Properties\<close>

text \<open>
  The default socket of a router under an absolute runtime directory sits directly in the
  innermost of its private directories, all of which lie below the trusted root; and the socket of
  the default data directory never coincides with the socket of another data directory, whatever
  the hash of that directory is.
\<close>

lemma default_socket_layout:
  assumes "is_absolute d"
  shows "let e = linux_default_gsb_endpoint dir dflt (Some d)
         in socket_path e = last (private_dirs e) @ ''/gsb.sock''
          \<and> trusted_root e = d
          \<and> (\<forall>p \<in> set (private_dirs e). starts_with p d)
          \<and> socket_path (linux_default_gsb_endpoint dir' True (Some d))
              \<noteq> socket_path (linux_default_gsb_endpoint dir'' False (Some d))"
proof -
  have d: "d \<noteq> []" using assms by (auto simp: is_absolute_def starts_with_def)
  let ?app = "path_join d gsb_app_dir"
  obtain r where app: "?app = d @ r" using path_join_prefix [OF d] by fastforce
  have sock: "path_join ?app q = ?app @ ''/'' @ q" if "\<not> is_absolute q" for q
    by (rule path_join_twice) (use d that in \<open>simp_all add: gsb_app_dir_def is_absolute_def starts_with_def\<close>)
  have inst: "path_join (path_join ?app (data_dir_namespace x)) gsb_socket_name
      = (?app @ ''/'' @ data_dir_namespace x) @ ''/'' @ gsb_socket_name" for x
  proof -
    have "last (data_dir_namespace x) \<noteq> CHR ''/''"
      using namespace_component [of x] last_in_set by metis
    then show ?thesis
      using path_join_twice [of ?app "data_dir_namespace x" gsb_socket_name] namespace_component [of x]
        sock [of "data_dir_namespace x"] app d by simp
  qed
  have "path_join ?app ''gsb.sock'' = ?app @ ''/gsb.sock''"
    using sock [of gsb_socket_name] constants_relative(3) by (simp add: gsb_socket_name_def)
  then show ?thesis
    using assms sock inst app
    by (cases dflt)
       (auto simp: linux_default_gsb_endpoint_def Let_def starts_with_iff namespace_component gsb_socket_name_def
          dest: arg_cong [of _ _ length])
qed

lemma default_socket_layout_example:
  "starts_with (last (private_dirs (linux_default_gsb_endpoint ''/data'' True (Some ''/run/user/1'')))) ''/run/user/1''"
proof -
  have "is_absolute ''/run/user/1''" by (simp add: is_absolute_def starts_with_def)
  from default_socket_layout [OF this, of "''/data''" True "''/data''" "''/data''"] show ?thesis
    by (simp add: linux_default_gsb_endpoint_def Let_def split: option.splits)
qed

end
