(* ===== verification/Rpc_Types.thy ===== *)
theory Rpc_Types
  imports Proto Gsb_Addr
begin

text \<open>
  The vocabulary of the client library: the errors of \<^verbatim>\<open>src/error.rs\<close>, the raw calls and
  response chunks of \<^verbatim>\<open>src/lib.rs\<close>, and the body encoding of \<^verbatim>\<open>src/serialization.rs\<close>. The
  serialization format (flexbuffers or JSON) and zlib come from other crates and are arguments,
  the records \<open>format\<close> and \<open>zlib\<close>.
\<close>

section \<open>Errors\<close>

datatype mailbox_error = MailboxErrorClosed | MailboxErrorTimeout

datatype decode_error = Deserialize string | TooLarge nat

datatype encode_error = EncodeError string

datatype gsb_error =
    ConnectionFail gsb_addr io_error_kind
  | ConnectionTimeout gsb_addr
  | Closed string
  | Cancelled
  | NoEndpoint string
  | BadContent decode_error
  | EncodingProblem string
  | Timeout string
  | GsbBadRequest string
  | GsbAlreadyRegistered string
  | GsbFailure string
  | RemoteError string string

definition from_mailbox_error :: "mailbox_error \<Rightarrow> gsb_error" where
  "from_mailbox_error e =
     (case e of MailboxErrorClosed \<Rightarrow> Closed ''unknown'' | MailboxErrorTimeout \<Rightarrow> Timeout ''unknown'')"

definition from_addr :: "string \<Rightarrow> mailbox_error \<Rightarrow> gsb_error" where
  "from_addr addr e =
     (case e of MailboxErrorClosed \<Rightarrow> Closed addr | MailboxErrorTimeout \<Rightarrow> Timeout addr)"

definition from_encode_error :: "encode_error \<Rightarrow> gsb_error" where
  "from_encode_error e = (case e of EncodeError msg \<Rightarrow> EncodingProblem msg)"

text \<open>\<^verbatim>\<open>Display\<close> of an error, from the attributes of the enumeration.\<close>

definition show_decode_error :: "decode_error \<Rightarrow> string" where
  "show_decode_error e =
     (case e of Deserialize msg \<Rightarrow> msg
      | TooLarge n \<Rightarrow> ''decompressed body exceeds '' @ show_nat n @ '' bytes'')"

definition show_error :: "(io_error_kind \<Rightarrow> string) \<Rightarrow> gsb_error \<Rightarrow> string" where
  "show_error show_io e =
     (case e of
        ConnectionFail a io \<Rightarrow> ''Connecting GSB at `'' @ show_addr a @ ''` failure: '' @ show_io io
      | ConnectionTimeout a \<Rightarrow> ''Timeout connecting GSB at `'' @ show_addr a @ ''`''
      | Closed s \<Rightarrow> ''Called service `'' @ s @ ''` is unavailable''
      | Cancelled \<Rightarrow> ''Service receiver was cancelled''
      | NoEndpoint s \<Rightarrow> ''No such endpoint `'' @ s @ ''`''
      | BadContent d \<Rightarrow> ''Bad content: '' @ show_decode_error d
      | EncodingProblem s \<Rightarrow> ''Encoding problem: '' @ s
      | Timeout s \<Rightarrow> ''Timeout calling `'' @ s @ ''` service''
      | GsbBadRequest s \<Rightarrow> ''Bad request: '' @ s
      | GsbAlreadyRegistered s \<Rightarrow> ''Already registered: `'' @ s @ ''`''
      | GsbFailure s \<Rightarrow> ''GSB failure: '' @ s
      | RemoteError s t \<Rightarrow> ''Remote service at `'' @ s @ ''` error: '' @ t)"

section \<open>Calls and chunks\<close>

datatype response_chunk = Part bytes | FullChunk bytes

fun into_bytes :: "response_chunk \<Rightarrow> bytes" where
  "into_bytes (Part d) = d"
| "into_bytes (FullChunk d) = d"

fun is_full :: "response_chunk \<Rightarrow> bool" where
  "is_full (FullChunk _) = True"
| "is_full (Part _) = False"

fun is_eos :: "response_chunk \<Rightarrow> bool" where
  "is_eos (FullChunk d) = (d = [])"
| "is_eos (Part _) = False"

fun chunk_reply_type :: "response_chunk \<Rightarrow> CallReplyType" where
  "chunk_reply_type (FullChunk _) = Full"
| "chunk_reply_type (Part _) = Partial"

record rpc_raw_call =
  rc_caller :: string
  rc_addr :: string
  rc_body :: bytes
  rc_no_reply :: bool

text \<open>\<open>reply\<close> of a streaming call is the identity of its channel.\<close>

record rpc_raw_stream_call =
  rsc_caller :: string
  rsc_addr :: string
  rsc_body :: bytes
  rsc_reply :: nat

record 't rpc_envelope =
  env_caller :: string
  env_body :: 't

definition envelope_local :: "'t \<Rightarrow> 't rpc_envelope" where
  "envelope_local body = \<lparr>env_caller = ''local'', env_body = body\<rparr>"

definition with_caller :: "string \<Rightarrow> 't \<Rightarrow> 't rpc_envelope" where
  "with_caller caller body = \<lparr>env_caller = caller, env_body = body\<rparr>"

section \<open>Body encoding\<close>

text \<open>
  A serialization crate, with its errors as the texts they display, and the two modules that wrap
  the one that is compiled in.
\<close>

record 't serde_crate =
  sc_to_vec :: "'t \<Rightarrow> string + bytes"
  sc_from_slice :: "bytes \<Rightarrow> string + 't"

record 't format =
  fm_to_vec :: "'t \<Rightarrow> encode_error + bytes"
  fm_from_slice :: "bytes \<Rightarrow> decode_error + 't"

definition flex :: "'t serde_crate \<Rightarrow> 't format" where
  "flex flexbuffers = \<lparr>fm_to_vec = (\<lambda>value. map_sum EncodeError id (sc_to_vec flexbuffers value)),
     fm_from_slice = (\<lambda>slice. map_sum Deserialize id (sc_from_slice flexbuffers slice))\<rparr>"

definition json :: "'t serde_crate \<Rightarrow> 't format" where
  "json serde_json = \<lparr>fm_to_vec = (\<lambda>value. map_sum EncodeError id (sc_to_vec serde_json value)),
     fm_from_slice = (\<lambda>slice. map_sum Deserialize id (sc_from_slice serde_json slice))\<rparr>"

datatype inflate_status = HasMoreOutput | OtherStatus

record zlib =
  zl_compress :: "bytes \<Rightarrow> bytes"
  zl_decompress_with_limit :: "bytes \<Rightarrow> nat \<Rightarrow> inflate_status + bytes"

definition max_decompressed_size :: nat where
  "max_decompressed_size = 64 * 1024 * 1024"

text \<open>The process-wide \<^verbatim>\<open>CONFIG\<close>.\<close>

record ser_config =
  compress :: bool

definition ser_config_default :: ser_config where
  "ser_config_default = \<lparr>compress = False\<rparr>"

definition set_compress :: "bool \<Rightarrow> ser_config \<Rightarrow> ser_config" where
  "set_compress val cfg = cfg\<lparr>compress := val\<rparr>"

definition ser_to_vec :: "zlib \<Rightarrow> 't format \<Rightarrow> ser_config \<Rightarrow> 't \<Rightarrow> encode_error + bytes" where
  "ser_to_vec z fm cfg value =
     map_sum id (\<lambda>vec. if compress cfg then zl_compress z vec else vec) (fm_to_vec fm value)"

definition ser_from_slice :: "zlib \<Rightarrow> 't format \<Rightarrow> bytes \<Rightarrow> decode_error + 't" where
  "ser_from_slice z fm bs =
     (case zl_decompress_with_limit z bs max_decompressed_size of
        Inr vec \<Rightarrow> fm_from_slice fm vec
      | Inl HasMoreOutput \<Rightarrow> Inl (TooLarge max_decompressed_size)
      | Inl OtherStatus \<Rightarrow> fm_from_slice fm bs)"

text \<open>\<^verbatim>\<open>RpcRawCall::from_envelope_addr\<close>; it panics (\<open>None\<close>) when the body cannot be encoded.\<close>

definition from_envelope_addr ::
  "('t \<Rightarrow> encode_error + bytes) \<Rightarrow> 't rpc_envelope \<Rightarrow> string \<Rightarrow> bool \<Rightarrow> rpc_raw_call option" where
  "from_envelope_addr enc envelope addr no_reply =
     (case enc (env_body envelope) of
        Inl _ \<Rightarrow> None
      | Inr body \<Rightarrow> Some \<lparr>rc_caller = env_caller envelope, rc_addr = addr, rc_body = body, rc_no_reply = no_reply\<rparr>)"

section \<open>UTF-8\<close>

text \<open>\<^verbatim>\<open>String::from_utf8\<close>: well-formed UTF-8 as the Unicode standard defines it.\<close>

definition cont :: "u8 \<Rightarrow> bool" where
  "cont b = (0x80 \<le> b \<and> b \<le> 0xBF)"

fun utf8_valid :: "bytes \<Rightarrow> bool" where
  "utf8_valid [] = True"
| "utf8_valid (a # rest) =
     (if a < 0x80 then utf8_valid rest
      else case rest of
        b # rest1 \<Rightarrow>
          if 0xC2 \<le> a \<and> a \<le> 0xDF then cont b \<and> utf8_valid rest1
          else (case rest1 of
            c # rest2 \<Rightarrow>
              if a = 0xE0 then 0xA0 \<le> b \<and> b \<le> 0xBF \<and> cont c \<and> utf8_valid rest2
              else if a = 0xED then 0x80 \<le> b \<and> b \<le> 0x9F \<and> cont c \<and> utf8_valid rest2
              else if 0xE1 \<le> a \<and> a \<le> 0xEF then cont b \<and> cont c \<and> utf8_valid rest2
              else (case rest2 of
                d # rest3 \<Rightarrow>
                  if a = 0xF0 then 0x90 \<le> b \<and> b \<le> 0xBF \<and> cont c \<and> cont d \<and> utf8_valid rest3
                  else if 0xF1 \<le> a \<and> a \<le> 0xF3 then cont b \<and> cont c \<and> cont d \<and> utf8_valid rest3
                  else if a = 0xF4 then 0x80 \<le> b \<and> b \<le> 0x8F \<and> cont c \<and> cont d \<and> utf8_valid rest3
                  else False
              | [] \<Rightarrow> False)
          | [] \<Rightarrow> False)
      | [] \<Rightarrow> False)"

definition from_utf8 :: "bytes \<Rightarrow> string option" where
  "from_utf8 bs = (if utf8_valid bs then Some (map byte_char bs) else None)"

section \<open>Facts\<close>

lemma byte_char_as_bytes [simp]: "map byte_char (as_bytes s) = s"
  by (simp add: as_bytes_def byte_char_def comp_def unat_of_nat)

lemma ascii_valid:
  assumes "\<forall>c \<in> set s. of_char c < (128 :: nat)"
  shows "utf8_valid (as_bytes s)"
  using assms
proof (induction s)
  case (Cons c s)
  then have "of_nat (of_char c) < (0x80 :: u8)"
    by (simp add: word_less_nat_alt unat_of_nat)
  with Cons show ?case by (simp add: as_bytes_def)
qed (simp add: as_bytes_def)

section \<open>Properties\<close>

text \<open>
  What the crates promise about one value: the format reads back what it wrote, the result is within
  the limit and is not mistaken for a zlib stream. About zlib: it inflates what it deflated, as far as
  the limit allows, and its streams are not empty.
\<close>

definition reads_back :: "'t serde_crate \<Rightarrow> 't \<Rightarrow> bytes \<Rightarrow> bool" where
  "reads_back sc v body = (sc_to_vec sc v = Inr body \<and> sc_from_slice sc body = Inr v)"

definition plain_body :: "zlib \<Rightarrow> bytes \<Rightarrow> bool" where
  "plain_body z body = (length body \<le> max_decompressed_size
     \<and> zl_decompress_with_limit z body max_decompressed_size = Inl OtherStatus)"

definition zlib_ok :: "zlib \<Rightarrow> bool" where
  "zlib_ok z = (\<forall>b n. zl_compress z b \<noteq> [] \<and> (length b \<le> n \<longrightarrow> zl_decompress_with_limit z (zl_compress z b) n = Inr b))"

lemma encoded_reads_back:
  assumes "reads_back sc v body" and "plain_body z body"
    and "zlib_ok z"
    and "fm = flex sc \<or> fm = json sc"
  shows "ser_to_vec z fm cfg v = Inr (if compress cfg then zl_compress z body else body)"
    and "ser_from_slice z fm (if compress cfg then zl_compress z body else body) = Inr v"
proof -
  have fm: "fm_to_vec fm v = Inr body" "fm_from_slice fm body = Inr v"
    using assms(1,4) by (auto simp: reads_back_def flex_def json_def)
  then show "ser_to_vec z fm cfg v = Inr (if compress cfg then zl_compress z body else body)"
    by (simp add: ser_to_vec_def)
  have "zl_decompress_with_limit z (zl_compress z body) max_decompressed_size = Inr body"
    using assms(2,3) by (simp add: plain_body_def zlib_ok_def)
  then show "ser_from_slice z fm (if compress cfg then zl_compress z body else body) = Inr v"
    using assms(2) fm(2) by (simp add: ser_from_slice_def plain_body_def)
qed

text \<open>
  C30. What one process encodes the other decodes, in either format, whether or not the compression
  has been switched on and without the other being told; the switch decides what is on the wire, and
  the last setting counts. This rests on three facts about the crates: the format reads back what it
  wrote; zlib inflates what it deflated as long as the limit allows; and a plain body is not mistaken
  for a zlib stream.
\<close>

theorem serialization_roundtrip:
  assumes "reads_back sc v body" and "plain_body z body"
    and "zlib_ok z"
    and "fm = flex sc \<or> fm = json sc"
  shows "let cfg = fold set_compress settings ser_config_default
         in \<exists>bs. ser_to_vec z fm cfg v = Inr bs \<and> ser_from_slice z fm bs = Inr v
              \<and> bs = (if settings \<noteq> [] \<and> last settings then zl_compress z body else body)"
proof -
  have "compress (fold set_compress settings cfg) = (if settings = [] then compress cfg else last settings)" for cfg
    by (induction settings arbitrary: cfg) (auto simp: set_compress_def)
  then show ?thesis
    using encoded_reads_back [OF assms, of "fold set_compress settings ser_config_default"]
    by (simp add: Let_def ser_config_default_def split: if_splits)
qed

text \<open>A format that writes one number as one byte, and a compression that marks its output.\<close>

definition byte_crate :: "nat serde_crate" where
  "byte_crate = \<lparr>sc_to_vec = (\<lambda>n. if n < 100 then Inr [of_nat n] else Inl ''big''),
     sc_from_slice = (\<lambda>bs. case bs of [b] \<Rightarrow> Inr (unat b) | _ \<Rightarrow> Inl ''length'')\<rparr>"

definition mark_zlib :: zlib where
  "mark_zlib = \<lparr>zl_compress = (\<lambda>bs. 0x78 # 0x9C # bs),
     zl_decompress_with_limit = (\<lambda>bs n. case bs of
        a # b # rest \<Rightarrow> if a = 0x78 \<and> b = 0x9C then (if length rest \<le> n then Inr rest else Inl HasMoreOutput)
                        else Inl OtherStatus
      | _ \<Rightarrow> Inl OtherStatus)\<rparr>"

lemma mark_zlib_ok: "zlib_ok mark_zlib"
  by (simp add: zlib_ok_def mark_zlib_def)

lemma byte_crate_reads_back: "n < 100 \<Longrightarrow> reads_back byte_crate n [of_nat n]" "plain_body mark_zlib [b]"
  by (simp_all add: reads_back_def plain_body_def byte_crate_def mark_zlib_def max_decompressed_size_def unat_of_nat)

theorem serialization_roundtrip_witness:
  "\<exists>bs. ser_to_vec mark_zlib (json byte_crate) (set_compress True ser_config_default) 7 = Inr bs
     \<and> ser_from_slice mark_zlib (json byte_crate) bs = Inr 7 \<and> bs = [0x78, 0x9C, 7]"
  using serialization_roundtrip [OF byte_crate_reads_back mark_zlib_ok, of 7 "json byte_crate" "[True]"]
  by (simp add: Let_def mark_zlib_def)

text \<open>
  C31. Inflation is bounded. \<open>inflate\<close> says what a body contains, if it is a complete zlib stream. Such a
  body is decoded from what it contains when that is at most 64 megabytes, and refused as too large
  otherwise, whatever the deserializer would have made of it. Any other body goes to the deserializer as
  it was sent, unless the decompressor ran into the limit before it found it broken, which is refused as
  too large as well. This rests on what the crate documents: a complete stream yields its content, or the
  status that there is more output than the limit; a broken one yields no content.
\<close>

theorem inflation_is_bounded:
  assumes complete: "\<And>b out n. inflate b = Some out \<Longrightarrow>
      zl_decompress_with_limit z b n = (if length out \<le> n then Inr out else Inl HasMoreOutput)"
    and broken: "\<And>b n. inflate b = None \<Longrightarrow> \<exists>status. zl_decompress_with_limit z b n = Inl status"
  shows "ser_from_slice z fm bs =
    (case inflate bs of
       Some out \<Rightarrow> if length out \<le> 67108864 then fm_from_slice fm out else Inl (TooLarge 67108864)
     | None \<Rightarrow> if zl_decompress_with_limit z bs 67108864 = Inl HasMoreOutput then Inl (TooLarge 67108864)
               else fm_from_slice fm bs)"
proof (cases "inflate bs")
  case None
  with broken [of bs 67108864] show ?thesis
    by (auto simp: ser_from_slice_def max_decompressed_size_def split: inflate_status.splits)
next
  case (Some content)
  with complete [of bs content 67108864] show ?thesis
    by (simp add: ser_from_slice_def max_decompressed_size_def)
qed

definition unmark :: "bytes \<Rightarrow> bytes option" where
  "unmark bs = (if take 2 bs = [0x78, 0x9C] then Some (drop 2 bs) else None)"

theorem inflation_is_bounded_witness:
  "ser_from_slice mark_zlib (flex byte_crate) [0x78, 0x9C, 7] = Inr 7
   \<and> ser_from_slice mark_zlib (flex byte_crate) [7] = Inr 7
   \<and> ser_from_slice mark_zlib (flex byte_crate) (0x78 # 0x9C # replicate 67108865 0) = Inl (TooLarge 67108864)"
proof -
  have marked: "zl_decompress_with_limit mark_zlib b n =
      (case unmark b of Some out \<Rightarrow> if length out \<le> n then Inr out else Inl HasMoreOutput | None \<Rightarrow> Inl OtherStatus)" for b n
    by (auto simp: mark_zlib_def unmark_def numeral_2_eq_2 take_Suc_conv_app_nth split: list.splits)
  have complete: "unmark b = Some out \<Longrightarrow>
      zl_decompress_with_limit mark_zlib b n = (if length out \<le> n then Inr out else Inl HasMoreOutput)"
    and broken: "unmark b = None \<Longrightarrow> \<exists>status. zl_decompress_with_limit mark_zlib b n = Inl status" for b out n
    by (simp_all add: marked)
  have bounded: "ser_from_slice mark_zlib (flex byte_crate) bs =
      (case unmark bs of
         Some content \<Rightarrow> if length content \<le> 67108864 then fm_from_slice (flex byte_crate) content else Inl (TooLarge 67108864)
       | None \<Rightarrow> fm_from_slice (flex byte_crate) bs)" for bs
    using inflation_is_bounded [of unmark mark_zlib "flex byte_crate" bs, OF complete broken]
    by (simp add: marked split: option.splits)
  show ?thesis by (simp add: bounded unmark_def) (simp add: flex_def byte_crate_def)
qed

end
