(* ===== verification/Local_Router.thy ===== *)
theory Local_Router
  imports PrefixBag Rpc_Types
begin

text \<open>
  \<^verbatim>\<open>src/local_router.rs\<close>: the table of services bound in this process and the ways to call them,
  falling back to the connection to the router (\<^verbatim>\<open>RemoteRouter\<close>) when nothing here serves the
  address. Together with it the functions of \<^verbatim>\<open>src/typed.rs\<close> and \<^verbatim>\<open>src/untyped.rs\<close> that pass a call on.

  The services are actors written by the user; what they answer is an argument, the record \<open>actors\<close>
  (the items a streaming service sends and how its handling ended, as lists). So is the encoding of
  messages (type \<open>'v\<close>) and results (type \<open>'r\<close>), the record \<open>serde\<close>. Rust's type identity, which
  decides whether a slot can be called without encoding, is a value of the type \<open>'ty\<close>.
  \<open>None\<close> as the result of a call is a panic.
\<close>

section \<open>Endpoints\<close>

record ('v, 'r) serde =
  dec_msg :: "bytes \<Rightarrow> decode_error + 'v"
  enc_msg :: "'v \<Rightarrow> encode_error + bytes"
  dec_res :: "bytes \<Rightarrow> decode_error + 'r"
  enc_res :: "'r \<Rightarrow> encode_error + bytes"

type_synonym chunks = "(gsb_error + response_chunk) list"

record ('v, 'r) actors =
  ask_typed :: "nat \<Rightarrow> 'v rpc_envelope \<Rightarrow> mailbox_error + 'r"
  ask_stream :: "nat \<Rightarrow> string \<Rightarrow> string \<Rightarrow> 'v \<Rightarrow> 'r list \<times> (mailbox_error + (gsb_error + unit))"
  ask_raw :: "nat \<Rightarrow> rpc_raw_call \<Rightarrow> mailbox_error + (gsb_error + bytes)"
  ask_raw_stream :: "nat \<Rightarrow> string \<Rightarrow> string \<Rightarrow> bytes \<Rightarrow> chunks"
  ask_remote :: "rpc_raw_call \<Rightarrow> mailbox_error + (gsb_error + bytes)"
  ask_remote_stream :: "string \<Rightarrow> string \<Rightarrow> bytes \<Rightarrow> mailbox_error + chunks"

text \<open>The implementations of \<^verbatim>\<open>RawEndpoint\<close>; the numbers are actors.\<close>

datatype 'ty endpoint =
    TypedCall 'ty nat
  | TypedStream 'ty nat
  | RawCall nat
  | RawStream nat
  | DualRaw nat nat

definition flatten_answer :: "string \<Rightarrow> mailbox_error + (gsb_error + 'a) \<Rightarrow> gsb_error + 'a" where
  "flatten_answer addr v = (case v of Inl e \<Rightarrow> Inl (from_addr addr e) | Inr r \<Rightarrow> r)"

definition typed_answer ::
  "('v, 'r) serde \<Rightarrow> ('v, 'r) actors \<Rightarrow> nat \<Rightarrow> rpc_raw_call \<Rightarrow> gsb_error + bytes" where
  "typed_answer sd w a msg =
     (case dec_msg sd (rc_body msg) of
        Inl e \<Rightarrow> Inl (BadContent e)
      | Inr body \<Rightarrow>
          (case ask_typed w a (with_caller (rc_caller msg) body) of
             Inl e \<Rightarrow> Inl (from_addr (rc_addr msg) e)
           | Inr r \<Rightarrow> map_sum from_encode_error id (enc_res sd r)))"

definition typed_call_stream ::
  "('v, 'r) serde \<Rightarrow> ('v, 'r) actors \<Rightarrow> nat \<Rightarrow> rpc_raw_call \<Rightarrow> chunks" where
  "typed_call_stream sd w a msg = [map_sum id FullChunk (typed_answer sd w a msg)]"

definition stream_send :: "rpc_raw_call \<Rightarrow> gsb_error + bytes" where
  "stream_send msg = Inl (GsbBadRequest (''non-streaming-request on streaming endpoint: '' @ rc_addr msg))"

text \<open>The items the actor sent, then what went wrong with the call itself.\<close>

definition stream_call_stream ::
  "('v, 'r) serde \<Rightarrow> ('v, 'r) actors \<Rightarrow> nat \<Rightarrow> rpc_raw_call \<Rightarrow> chunks" where
  "stream_call_stream sd w a msg =
     (case dec_msg sd (rc_body msg) of
        Inl e \<Rightarrow> [Inl (BadContent e)]
      | Inr body \<Rightarrow>
          (case ask_stream w a (rc_caller msg) (rc_addr msg) body of (items, fin) \<Rightarrow>
             map (\<lambda>r. map_sum from_encode_error Part (enc_res sd r)) items @
             (case fin of
                Inl e \<Rightarrow> [Inl (from_addr (rc_addr msg) e)]
              | Inr (Inl e) \<Rightarrow> [Inl e]
              | Inr (Inr _) \<Rightarrow> [])))"

definition raw_send :: "('v, 'r) actors \<Rightarrow> nat \<Rightarrow> rpc_raw_call \<Rightarrow> gsb_error + bytes" where
  "raw_send w a msg = flatten_answer (rc_addr msg) (ask_raw w a msg)"

definition raw_call_stream :: "('v, 'r) actors \<Rightarrow> nat \<Rightarrow> rpc_raw_call \<Rightarrow> chunks" where
  "raw_call_stream w a msg = [map_sum id FullChunk (raw_send w a msg)]"

text \<open>A raw stream that is called for one answer: only its first item counts.\<close>

definition raw_stream_send :: "('v, 'r) actors \<Rightarrow> nat \<Rightarrow> rpc_raw_call \<Rightarrow> gsb_error + bytes" where
  "raw_stream_send w a msg =
     (case ask_raw_stream w a (rc_caller msg) (rc_addr msg) (rc_body msg) of
        Inr (FullChunk v) # _ \<Rightarrow> Inr v
      | Inr (Part _) # _ \<Rightarrow> Inl (GsbBadRequest ''partial response'')
      | Inl e # _ \<Rightarrow> Inl e
      | [] \<Rightarrow> Inl (GsbBadRequest ''unexpected EOS''))"

definition raw_stream_call_stream :: "('v, 'r) actors \<Rightarrow> nat \<Rightarrow> rpc_raw_call \<Rightarrow> chunks" where
  "raw_stream_call_stream w a msg = ask_raw_stream w a (rc_caller msg) (rc_addr msg) (rc_body msg)"

text \<open>Calls go to one recipient, streaming calls to the other.\<close>

definition dual_send :: "('v, 'r) actors \<Rightarrow> nat \<Rightarrow> nat \<Rightarrow> rpc_raw_call \<Rightarrow> gsb_error + bytes" where
  "dual_send w rpc stream msg = raw_send w rpc msg"

definition dual_call_stream :: "('v, 'r) actors \<Rightarrow> nat \<Rightarrow> nat \<Rightarrow> rpc_raw_call \<Rightarrow> chunks" where
  "dual_call_stream w rpc stream msg = raw_stream_call_stream w stream msg"

lemmas endpoint_impls [simp] = typed_call_stream_def stream_send_def stream_call_stream_def raw_send_def
  raw_call_stream_def raw_stream_send_def raw_stream_call_stream_def dual_send_def dual_call_stream_def

fun endpoint_send ::
  "('v, 'r) serde \<Rightarrow> ('v, 'r) actors \<Rightarrow> 'ty endpoint \<Rightarrow> rpc_raw_call \<Rightarrow> gsb_error + bytes" where
  "endpoint_send sd w (TypedCall ty a) msg = typed_answer sd w a msg"
| "endpoint_send sd w (TypedStream ty a) msg = stream_send msg"
| "endpoint_send sd w (RawCall a) msg = raw_send w a msg"
| "endpoint_send sd w (RawStream a) msg = raw_stream_send w a msg"
| "endpoint_send sd w (DualRaw rpc stream) msg = dual_send w rpc stream msg"

fun endpoint_call_stream ::
  "('v, 'r) serde \<Rightarrow> ('v, 'r) actors \<Rightarrow> 'ty endpoint \<Rightarrow> rpc_raw_call \<Rightarrow> chunks" where
  "endpoint_call_stream sd w (TypedCall ty a) msg = typed_call_stream sd w a msg"
| "endpoint_call_stream sd w (TypedStream ty a) msg = stream_call_stream sd w a msg"
| "endpoint_call_stream sd w (RawCall a) msg = raw_call_stream w a msg"
| "endpoint_call_stream sd w (RawStream a) msg = raw_stream_call_stream w a msg"
| "endpoint_call_stream sd w (DualRaw rpc stream) msg = dual_call_stream w rpc stream msg"

text \<open>The downcasts of \<^verbatim>\<open>Slot\<close>.\<close>

fun recipient :: "'ty \<Rightarrow> 'ty endpoint \<Rightarrow> nat option" where
  "recipient ty (TypedCall ty' a) = (if ty' = ty then Some a else None)"
| "recipient ty _ = None"

fun stream_recipient :: "'ty \<Rightarrow> 'ty endpoint \<Rightarrow> nat option" where
  "stream_recipient ty (TypedStream ty' a) = (if ty' = ty then Some a else None)"
| "stream_recipient ty _ = None"

fun raw_stream_recipient :: "'ty endpoint \<Rightarrow> nat option" where
  "raw_stream_recipient (DualRaw rpc stream) = Some stream"
| "raw_stream_recipient (RawStream a) = Some a"
| "raw_stream_recipient _ = None"

text \<open>The items of a raw stream, decoded; the empty full chunk that marks the end is left out.\<close>

definition decode_chunks :: "(bytes \<Rightarrow> decode_error + 'r) \<Rightarrow> chunks \<Rightarrow> (gsb_error + 'r) list" where
  "decode_chunks dec items =
     map (\<lambda>c. case c of Inl e \<Rightarrow> Inl e | Inr chunk \<Rightarrow> map_sum BadContent id (dec (into_bytes chunk)))
       (filter (\<lambda>s. case s of Inr chunk \<Rightarrow> \<not> is_eos chunk | Inl _ \<Rightarrow> True) items)"

definition slot_streaming_forward ::
  "('v, 'r) serde \<Rightarrow> ('v, 'r) actors \<Rightarrow> 'ty \<Rightarrow> 'ty endpoint \<Rightarrow> string \<Rightarrow> string \<Rightarrow> 'v \<Rightarrow> (gsb_error + 'r) list" where
  "slot_streaming_forward sd w ty ep caller addr body =
     (case stream_recipient ty ep of
        Some h \<Rightarrow> map Inr (fst (ask_stream w h caller addr body))
      | None \<Rightarrow>
          (case enc_msg sd body of
             Inl e \<Rightarrow> [Inl (from_encode_error e)]
           | Inr bs \<Rightarrow>
               (case raw_stream_recipient ep of
                  Some h \<Rightarrow> decode_chunks (dec_res sd) (ask_raw_stream w h caller addr bs)
                | None \<Rightarrow> decode_chunks (dec_res sd) (endpoint_call_stream sd w ep
                    \<lparr>rc_caller = caller, rc_addr = addr, rc_body = bs, rc_no_reply = False\<rparr>))))"

section \<open>The table\<close>

datatype update_service = Add string | Remove string

record 'ty local_router =
  handlers :: "'ty endpoint prefix_lookup_bag"

definition local_router_new :: "'ty local_router" where
  "local_router_new = \<lparr>handlers = pb_default\<rparr>"

text \<open>Binding returns the new table and what the remote router is told.\<close>

type_synonym 'ty lr_turn = "'ty local_router \<times> update_service list"

definition bind_at :: "string \<Rightarrow> 'ty endpoint \<Rightarrow> 'ty local_router \<Rightarrow> 'ty lr_turn" where
  "bind_at addr ep lr = (lr\<lparr>handlers := snd (pb_insert addr ep (handlers lr))\<rparr>, [Add addr])"

definition lr_bind :: "'ty \<Rightarrow> string \<Rightarrow> string \<Rightarrow> nat \<Rightarrow> 'ty local_router \<Rightarrow> 'ty lr_turn" where
  "lr_bind ty ident addr handler lr = bind_at (addr @ ''/'' @ ident) (TypedCall ty handler) lr"

definition lr_bind_stream :: "'ty \<Rightarrow> string \<Rightarrow> string \<Rightarrow> nat \<Rightarrow> 'ty local_router \<Rightarrow> 'ty lr_turn" where
  "lr_bind_stream ty ident addr handler lr = bind_at (addr @ ''/'' @ ident) (TypedStream ty handler) lr"

definition lr_bind_stream_actor :: "'ty \<Rightarrow> string \<Rightarrow> string \<Rightarrow> nat \<Rightarrow> 'ty local_router \<Rightarrow> 'ty lr_turn" where
  "lr_bind_stream_actor ty ident addr actor lr = bind_at (addr @ ''/'' @ ident) (TypedStream ty actor) lr"

definition lr_bind_actor :: "'ty \<Rightarrow> string \<Rightarrow> string \<Rightarrow> nat \<Rightarrow> 'ty local_router \<Rightarrow> 'ty lr_turn" where
  "lr_bind_actor ty ident addr actor lr = bind_at (addr @ ''/'' @ ident) (TypedCall ty actor) lr"

definition lr_bind_raw :: "string \<Rightarrow> nat \<Rightarrow> 'ty local_router \<Rightarrow> 'ty lr_turn" where
  "lr_bind_raw addr actor lr = bind_at addr (RawCall actor) lr"

definition lr_try_bind_raw :: "string \<Rightarrow> nat \<Rightarrow> 'ty local_router \<Rightarrow> gsb_error + 'ty lr_turn" where
  "lr_try_bind_raw addr actor lr =
     (if list_ex (\<lambda>bound. bound = addr) (pb_keys (handlers lr)) then Inl (GsbAlreadyRegistered addr)
      else Inr (bind_at addr (RawCall actor) lr))"

definition lr_bind_raw_dual :: "string \<Rightarrow> nat \<Rightarrow> nat \<Rightarrow> 'ty local_router \<Rightarrow> 'ty lr_turn" where
  "lr_bind_raw_dual addr rpc stream lr = bind_at addr (DualRaw rpc stream) lr"

text \<open>
  \<^verbatim>\<open>unbind\<close> removes what lies below an address at once and then tells the remote router about each
  removed one, stopping at the first that fails (\<open>send\<close>).
\<close>

definition unbind_pattern :: "string \<Rightarrow> string" where
  "unbind_pattern addr = (if ends_with_char addr (CHR ''/'') then addr else addr @ ''/'')"

definition unbind_addrs :: "string \<Rightarrow> 'ty local_router \<Rightarrow> string list" where
  "unbind_addrs addr lr = filter (\<lambda>a. starts_with a (unbind_pattern addr)) (pb_keys (handlers lr))"

definition lr_unbind :: "string \<Rightarrow> 'ty local_router \<Rightarrow> string list \<times> 'ty local_router" where
  "lr_unbind addr lr =
     (let addrs = unbind_addrs addr lr
      in (addrs, lr\<lparr>handlers := fold (\<lambda>a h. snd (pb_remove a h)) addrs (handlers lr)\<rparr>))"

fun unbind_notify ::
  "(string \<Rightarrow> mailbox_error + unit) \<Rightarrow> bool \<Rightarrow> string list \<Rightarrow> (gsb_error + bool) \<times> update_service list" where
  "unbind_notify send success [] = (Inr success, [])"
| "unbind_notify send success (a # as) =
     (case send a of
        Inl e \<Rightarrow> (Inl (from_addr a e), [Remove a])
      | Inr _ \<Rightarrow> (case unbind_notify send success as of (r, us) \<Rightarrow> (r, Remove a # us)))"

definition lr_unbind_exact :: "string \<Rightarrow> 'ty local_router \<Rightarrow> bool \<times> 'ty lr_turn" where
  "lr_unbind_exact addr lr =
     (case pb_remove addr (handlers lr) of
        (Some _, h) \<Rightarrow> (True, lr\<lparr>handlers := h\<rparr>, [Remove addr])
      | (None, h) \<Rightarrow> (False, lr\<lparr>handlers := h\<rparr>, []))"

section \<open>Calls\<close>

definition slot_at :: "'ty local_router \<Rightarrow> string \<Rightarrow> 'ty endpoint option" where
  "slot_at lr addr = map_option snd (pb_get_mut (handlers lr) addr)"

text \<open>A response that must not be empty, decoded.\<close>

definition decode_response :: "(bytes \<Rightarrow> decode_error + 'r) \<Rightarrow> gsb_error + bytes \<Rightarrow> gsb_error + 'r" where
  "decode_response dec b =
     (case b of
        Inl e \<Rightarrow> Inl e
      | Inr bs \<Rightarrow> if bs = [] then Inl (GsbFailure ''empty response from remote service'')
                  else map_sum BadContent id (dec bs))"

definition lr_forward ::
  "('v, 'r) serde \<Rightarrow> ('v, 'r) actors \<Rightarrow> 'ty \<Rightarrow> string \<Rightarrow> string \<Rightarrow> 'v rpc_envelope \<Rightarrow> 'ty local_router
   \<Rightarrow> (gsb_error + 'r) option" where
  "lr_forward sd w ty ident addr msg lr =
     (let full = addr @ ''/'' @ ident in
      case slot_at lr full of
        Some slot \<Rightarrow>
          (case recipient ty slot of
             Some h \<Rightarrow> Some (map_sum (from_addr full) id (ask_typed w h msg))
           | None \<Rightarrow>
               map_option (\<lambda>raw. decode_response (dec_res sd) (endpoint_send sd w slot raw))
                 (from_envelope_addr (enc_msg sd) msg full False))
      | None \<Rightarrow>
          map_option (\<lambda>raw. decode_response (dec_res sd) (flatten_answer full (ask_remote w raw)))
            (from_envelope_addr (enc_msg sd) msg full False))"

text \<open>The remote branch of \<^verbatim>\<open>push\<close> looks only at the mailbox, not at the answer in it.\<close>

definition lr_push ::
  "('v, 'r) serde \<Rightarrow> ('v, 'r) actors \<Rightarrow> 'ty \<Rightarrow> string \<Rightarrow> string \<Rightarrow> 'v rpc_envelope \<Rightarrow> 'ty local_router
   \<Rightarrow> (gsb_error + unit) option" where
  "lr_push sd w ty ident addr msg lr =
     (let full = addr @ ''/'' @ ident in
      case slot_at lr full of
        Some slot \<Rightarrow>
          (case recipient ty slot of
             Some h \<Rightarrow> Some (map_sum (from_addr full) (\<lambda>_. ()) (ask_typed w h msg))
           | None \<Rightarrow>
               map_option (\<lambda>raw. map_sum id (\<lambda>_. ()) (endpoint_send sd w slot raw))
                 (from_envelope_addr (enc_msg sd) msg full True))
      | None \<Rightarrow>
          map_option (\<lambda>raw. map_sum (from_addr full) (\<lambda>_. ()) (ask_remote w raw))
            (from_envelope_addr (enc_msg sd) msg full True))"

definition lr_streaming_forward ::
  "('v, 'r) serde \<Rightarrow> ('v, 'r) actors \<Rightarrow> 'ty \<Rightarrow> string \<Rightarrow> string \<Rightarrow> 'v \<Rightarrow> 'ty local_router
   \<Rightarrow> (gsb_error + 'r) list option" where
  "lr_streaming_forward sd w ty ident addr msg lr =
     (let full = addr @ ''/'' @ ident in
      case slot_at lr full of
        Some slot \<Rightarrow> Some (slot_streaming_forward sd w ty slot ''local'' full msg)
      | None \<Rightarrow>
          (case enc_msg sd msg of
             Inl _ \<Rightarrow> None
           | Inr body \<Rightarrow>
               Some (decode_chunks (dec_res sd)
                 (case ask_remote_stream w ''local'' full body of Inl _ \<Rightarrow> [] | Inr items \<Rightarrow> items))))"

definition lr_forward_bytes ::
  "('v, 'r) serde \<Rightarrow> ('v, 'r) actors \<Rightarrow> string \<Rightarrow> string \<Rightarrow> bytes \<Rightarrow> bool \<Rightarrow> 'ty local_router \<Rightarrow> gsb_error + bytes" where
  "lr_forward_bytes sd w addr caller msg no_reply lr =
     (let raw = \<lparr>rc_caller = caller, rc_addr = addr, rc_body = msg, rc_no_reply = no_reply\<rparr>
      in case slot_at lr addr of
           Some slot \<Rightarrow> endpoint_send sd w slot raw
         | None \<Rightarrow> flatten_answer addr (ask_remote w raw))"

definition lr_streaming_forward_bytes ::
  "('v, 'r) serde \<Rightarrow> ('v, 'r) actors \<Rightarrow> string \<Rightarrow> string \<Rightarrow> bytes \<Rightarrow> 'ty local_router \<Rightarrow> chunks" where
  "lr_streaming_forward_bytes sd w addr caller msg lr =
     (case slot_at lr addr of
        Some slot \<Rightarrow> endpoint_call_stream sd w slot
          \<lparr>rc_caller = caller, rc_addr = addr, rc_body = msg, rc_no_reply = False\<rparr>
      | None \<Rightarrow>
          (case ask_remote_stream w caller addr msg of
             Inr rx \<Rightarrow> rx
           | Inl e \<Rightarrow> [Inl (from_mailbox_error e)]))"

text \<open>What an incoming call reaches: only services bound here.\<close>

definition lr_forward_bytes_local ::
  "('v, 'r) serde \<Rightarrow> ('v, 'r) actors \<Rightarrow> string \<Rightarrow> string \<Rightarrow> bytes \<Rightarrow> bool \<Rightarrow> 'ty local_router \<Rightarrow> chunks" where
  "lr_forward_bytes_local sd w addr caller msg no_reply lr =
     (case slot_at lr addr of
        Some slot \<Rightarrow>
          let raw = \<lparr>rc_caller = caller, rc_addr = addr, rc_body = msg, rc_no_reply = no_reply\<rparr>
          in if no_reply then [map_sum id FullChunk (endpoint_send sd w slot raw)]
             else endpoint_call_stream sd w slot raw
      | None \<Rightarrow> [Inl (NoEndpoint addr)])"

section \<open>The public entry points\<close>

text \<open>\<^verbatim>\<open>typed::Endpoint\<close>: an address, with the process-wide table behind it.\<close>

definition ep_call where
  "ep_call sd w ty ident addr msg lr = lr_forward sd w ty ident addr (envelope_local msg) lr"

definition ep_call_as where
  "ep_call_as sd w ty ident addr caller msg lr = lr_forward sd w ty ident addr (with_caller caller msg) lr"

definition ep_call_streaming where
  "ep_call_streaming sd w ty ident addr msg lr = lr_streaming_forward sd w ty ident addr msg lr"

definition ep_call_raw_as where
  "ep_call_raw_as sd w addr caller msg lr = lr_forward_bytes sd w addr caller msg False lr"

definition ep_push where
  "ep_push sd w ty ident addr msg lr = lr_push sd w ty ident addr (envelope_local msg) lr"

definition ep_push_as where
  "ep_push_as sd w ty ident addr caller msg lr = lr_push sd w ty ident addr (with_caller caller msg) lr"

definition ep_push_raw_as where
  "ep_push_raw_as sd w addr caller msg lr = lr_forward_bytes sd w addr caller msg True lr"

text \<open>\<^verbatim>\<open>untyped\<close>\<close>

definition ut_forward_bytes where
  "ut_forward_bytes sd w addr caller bs no_reply lr = lr_forward_bytes sd w addr caller bs no_reply lr"

definition ut_send where
  "ut_send sd w addr caller bs lr = ut_forward_bytes sd w addr caller bs False lr"

definition ut_push where
  "ut_push sd w addr caller bs lr = ut_forward_bytes sd w addr caller bs True lr"

definition ut_call_stream where
  "ut_call_stream sd w addr caller bs lr = lr_streaming_forward_bytes sd w addr caller bs lr"

section \<open>Facts\<close>

definition bound :: "'ty local_router \<Rightarrow> string \<Rightarrow> 'ty endpoint option" where
  "bound lr = pb_content (handlers lr)"

lemma slot_at_get: "slot_at lr addr = pb_get (handlers lr) addr"
proof (cases "find (\<lambda>x. hm_contains (dict (handlers lr)) x) (RevPrefixes addr)")
  case (Some p)
  then obtain v where "hm_get (dict (handlers lr)) p = Some v" by (auto simp: find_Some_iff)
  with Some show ?thesis
    by (simp add: slot_at_def pb_get_def pb_get_mut_def find_find_map hm_contains_iff [abs_def])
qed (simp add: slot_at_def pb_get_def pb_get_mut_def find_find_map hm_contains_iff [abs_def])

lemma pb_keys_dom: "set (pb_keys h) = dom (pb_content h)"
  using hm.keys_dom [of "dict h"] by (simp add: pb_keys_def pb_content_def)

lemma remove_all_content:
  "pb_content (fold (\<lambda>a h. snd (pb_remove a h)) as h) k = (if k \<in> set as then None else pb_content h k)"
  by (induction as arbitrary: h) auto

lemma bind_at_bound [simp]: "bound (fst (bind_at addr ep lr)) = (bound lr)(addr \<mapsto> ep)"
  by (simp add: bind_at_def bound_def)

lemma unbind_addrs_iff: "a \<in> set (unbind_addrs addr lr) \<longleftrightarrow> starts_with a (unbind_pattern addr) \<and> bound lr a \<noteq> None"
  by (auto simp: unbind_addrs_def pb_keys_dom bound_def)

lemma lr_unbind_bound:
  "bound (snd (lr_unbind addr lr)) a = (if starts_with a (unbind_pattern addr) then None else bound lr a)"
  using unbind_addrs_iff [of a addr lr]
  by (auto simp: lr_unbind_def Let_def bound_def remove_all_content)

lemma pattern_prefix: "starts_with addr (unbind_pattern addr) \<longleftrightarrow> addr \<noteq> [] \<and> last addr = CHR ''/''"
  by (auto simp: unbind_pattern_def starts_with_iff ends_with_char_def dest: arg_cong [of _ _ length])

lemma unbind_notify_all:
  "(\<And>a. send a = Inr ()) \<Longrightarrow> unbind_notify send b as = (Inr b, map Remove as)"
  by (induction as) simp_all

section \<open>Properties\<close>

text \<open>
  C27. Unbinding an address removes exactly the services below it, those whose address is the given one,
  a slash and something more, or nothing; when the given address ends with a slash, no second one is
  added. Every other service stays; in particular the one bound at the very address, as a raw one can be,
  unless the address ends with a slash. As long as the remote router takes messages, it is told of every
  removed service once and of nothing else, and the answer says whether there was any.
\<close>

theorem unbind_removes_subtree:
  assumes "pb_ok (handlers lr)" and "\<And>a. send a = Inr ()"
  shows "let below = (\<lambda>a. \<exists>rest. a = addr @ (if addr \<noteq> [] \<and> last addr = CHR ''/'' then rest else CHR ''/'' # rest));
             (addrs, lr') = lr_unbind addr lr;
             (answer, told) = unbind_notify send (addrs \<noteq> []) addrs
         in (\<forall>a. bound lr' a = (if below a then None else bound lr a))
          \<and> distinct addrs \<and> set addrs = {a. below a \<and> bound lr a \<noteq> None} \<and> told = map Remove addrs
          \<and> answer = Inr (\<exists>a. below a \<and> bound lr a \<noteq> None)
          \<and> bound lr' addr = (if addr \<noteq> [] \<and> last addr = CHR ''/'' then None else bound lr addr)"
proof -
  have below: "starts_with a (unbind_pattern addr) \<longleftrightarrow>
      (\<exists>rest. a = addr @ (if addr \<noteq> [] \<and> last addr = CHR ''/'' then rest else CHR ''/'' # rest))" for a
    by (auto simp: starts_with_iff unbind_pattern_def ends_with_char_def)
  have dist: "distinct (unbind_addrs addr lr)"
    using hm.keys_distinct [of "dict (handlers lr)"] assms(1)
    by (simp add: unbind_addrs_def pb_keys_def pb_ok_def)
  have "(unbind_addrs addr lr \<noteq> []) = (\<exists>a. starts_with a (unbind_pattern addr) \<and> bound lr a \<noteq> None)"
    using unbind_addrs_iff [of _ addr lr] by (metis ex_in_conv set_empty)
  then show ?thesis
    unfolding below [symmetric]
    using dist unbind_addrs_iff [of _ addr lr] lr_unbind_bound [of addr lr] pattern_prefix [of addr]
    by (auto simp: unbind_notify_all [OF assms(2)] lr_unbind_def Let_def)
qed

theorem unbind_removes_subtree_witness:
  "let lr = fst (lr_bind_raw ''/a/b'' 2 (fst (lr_bind_raw ''/a'' 1 (local_router_new :: unit local_router))))
   in bound (snd (lr_unbind ''/a'' lr)) ''/a'' = Some (RawCall 1) \<and> bound (snd (lr_unbind ''/a'' lr)) ''/a/b'' = None
    \<and> bound (snd (lr_unbind ''/a/'' lr)) ''/a'' = Some (RawCall 1)"
proof -
  let ?lr = "fst (lr_bind_raw ''/a/b'' 2 (fst (lr_bind_raw ''/a'' 1 (local_router_new :: unit local_router))))"
  have "pb_ok (handlers ?lr)" by (simp add: lr_bind_raw_def bind_at_def local_router_new_def)
  note removed = unbind_removes_subtree [OF this, of "\<lambda>_. Inr ()"]
  show ?thesis
    using removed [of "''/a''"] removed [of "''/a/''"] by (simp add: Let_def split_beta lr_bind_raw_def)
qed

text \<open>
  A typed call and the same call sent as bytes agree: if the service bound at the address
  answers \<open>r\<close> to the message, then calling the address with the encoded message yields the encoding
  of \<open>r\<close>, with the same errors in between named after the same address.
\<close>

lemma typed_and_raw_calls_agree:
  assumes "slot_at lr (addr @ ''/'' @ ident) = Some (TypedCall ty h)"
    and "dec_msg sd body = Inr v"
  shows "lr_forward_bytes sd w (addr @ ''/'' @ ident) caller body no_reply lr =
     (case lr_forward sd w ty ident addr (with_caller caller v) lr of
        Some (Inl e) \<Rightarrow> Inl e
      | Some (Inr r) \<Rightarrow> map_sum from_encode_error id (enc_res sd r))"
  using assms
  by (auto simp: lr_forward_bytes_def lr_forward_def Let_def typed_answer_def split: sum.splits)

definition nat_serde :: "(nat, nat) serde" where
  "nat_serde = \<lparr>dec_msg = (\<lambda>bs. Inr (length bs)), enc_msg = (\<lambda>n. Inr (replicate n 0)),
     dec_res = (\<lambda>bs. Inr (length bs)), enc_res = (\<lambda>n. Inr (replicate n 0))\<rparr>"

definition doubling_actors :: "(nat, nat) actors" where
  "doubling_actors = \<lparr>ask_typed = (\<lambda>a m. Inr (2 * env_body m)),
     ask_stream = (\<lambda>a c d v. ([v], Inr (Inr ()))), ask_raw = (\<lambda>a m. Inr (Inr (rc_body m))),
     ask_raw_stream = (\<lambda>a c d b. [Inr (FullChunk b)]), ask_remote = (\<lambda>m. Inr (Inl (GsbFailure ''down''))),
     ask_remote_stream = (\<lambda>c d b. Inr [])\<rparr>"

lemma typed_and_raw_calls_agree_example:
  "lr_forward_bytes nat_serde doubling_actors (''/a'' @ ''/'' @ ''Echo'') ''me'' [5, 5] False
     (fst (lr_bind () ''Echo'' ''/a'' 1 local_router_new)) = Inr [0, 0, 0, 0]"
proof -
  let ?lr = "fst (lr_bind () ''Echo'' ''/a'' 1 local_router_new)"
  have "slot_at ?lr (''/a'' @ ''/'' @ ''Echo'') = Some (TypedCall () 1)"
    unfolding slot_at_get lr_bind_def bind_at_def fst_conv
    by (simp, rule pb.lookup_exact) simp_all
  then show ?thesis
    using typed_and_raw_calls_agree [of ?lr "''/a''" "''Echo''" "()" 1 nat_serde "[5, 5]" 2 doubling_actors "''me''" False]
    by (simp add: nat_serde_def doubling_actors_def lr_forward_def with_caller_def numeral_eq_Suc)
qed

text \<open>
  A push to a remote service reports success even when the remote router answers with an error,
  which a call with the same message would have reported.
\<close>

lemma push_hides_remote_error:
  assumes "slot_at lr (addr @ ''/'' @ ident) = None" and "enc_msg sd (env_body msg) = Inr body"
    and "\<And>no_reply. ask_remote w \<lparr>rc_caller = env_caller msg, rc_addr = addr @ ''/'' @ ident, rc_body = body,
            rc_no_reply = no_reply\<rparr> = Inr (Inl e)"
  shows "lr_push sd w ty ident addr msg lr = Some (Inr ())
     \<and> lr_forward sd w ty ident addr msg lr = Some (Inl e)"
  using assms
  by (simp add: lr_push_def lr_forward_def Let_def from_envelope_addr_def flatten_answer_def decode_response_def)

lemma push_hides_remote_error_example:
  "lr_push nat_serde doubling_actors () ''Echo'' ''/a'' (envelope_local 2) local_router_new = Some (Inr ())"
proof -
  have "slot_at (local_router_new :: unit local_router) (''/a'' @ ''/'' @ ''Echo'') = None"
    by (simp add: slot_at_get pb.lookup_None local_router_new_def)
  from push_hides_remote_error [OF this, of nat_serde "envelope_local 2" "[0, 0]" doubling_actors "GsbFailure ''down''" "()"]
  show ?thesis by (simp add: nat_serde_def envelope_local_def doubling_actors_def numeral_eq_Suc)
qed

end
