(* ===== verification/Client_Connection.thy ===== *)
theory Client_Connection
  imports Rpc_Types SinkWriter Codec
begin

text \<open>
  \<^verbatim>\<open>src/connection.rs\<close>: the actor at the client's end of a connection to the router. It matches the
  router's replies with the commands and calls that wait for them: commands in the order they were
  sent, one queue per kind; calls by their request id.

  A handler maps the connection to the connection it leaves and the list of its effects: answers to
  waiting one-shot channels and reply channels (numbered), calls of the user's
  \<^verbatim>\<open>CallRequestHandler\<close>, and the stop of the actor's context.
\<close>

unbundle bit_operations_syntax

section \<open>State\<close>

type_synonym waiter = nat
type_synonym reply_channel = nat

record client_info =
  ci_name :: string
  ci_version :: "string option"
  ci_instance_id :: bytes

text \<open>\<^verbatim>\<open>ClientInfo::new\<close>; the package version and the fresh identifier are arguments.\<close>

definition client_info_new :: "string \<Rightarrow> bytes \<Rightarrow> string \<Rightarrow> client_info" where
  "client_info_new pkg_version uuid name =
     \<lparr>ci_name = name, ci_version = Some pkg_version, ci_instance_id = uuid\<rparr>"

datatype command = Bind | Unbind | Subscribe | Unsubscribe | Broadcast

datatype client_effect =
    Answer command waiter "gsb_error + unit"                  \<comment> \<open>\<^verbatim>\<open>r.send(reply_msg())\<close>\<close>
  | DeliverChunk reply_channel "gsb_error + response_chunk"   \<comment> \<open>\<^verbatim>\<open>ctx.wait(r.send(item))\<close>\<close>
  | DoCall string string string bytes bool                    \<comment> \<open>\<^verbatim>\<open>handler.do_call\<close>\<close>
  | HandleEvent string string bytes                           \<comment> \<open>\<^verbatim>\<open>handler.handle_event\<close>\<close>
  | OnDisconnect                                              \<comment> \<open>\<^verbatim>\<open>handler.on_disconnect\<close>\<close>
  | ClientStop                                                \<comment> \<open>\<^verbatim>\<open>ctx.stop()\<close>\<close>

record 's client_connection =
  cc_writer :: "('s, gsb_message) sink_write"
  cc_register_reply :: "waiter list"
  cc_unregister_reply :: "waiter list"
  cc_subscribe_reply :: "waiter list"
  cc_unsubscribe_reply :: "waiter list"
  cc_call_reply :: "(string, reply_channel) hmap"
  cc_broadcast_reply :: "waiter list"
  cc_client_info :: client_info
  cc_server_info :: "hello option"

type_synonym 's client_turn = "'s client_connection \<times> client_effect list"

definition client_connection_new :: "client_info \<Rightarrow> 's \<Rightarrow> 's client_connection" where
  "client_connection_new info w = \<lparr>
     cc_writer = sink_write_new w, cc_register_reply = [], cc_unregister_reply = [],
     cc_subscribe_reply = [], cc_unsubscribe_reply = [], cc_call_reply = [],
     cc_broadcast_reply = [], cc_client_info = info, cc_server_info = None\<rparr>"

text \<open>\<open>random\<close>: what the generator returned. The mask keeps 53 bits.\<close>

definition gen_id :: "u64 \<Rightarrow> u64" where
  "gen_id random = random AND 0x001fffffffffffff"

section \<open>Replies of the router\<close>

text \<open>\<^verbatim>\<open>write\<close> and whether the item was refused.\<close>

definition cl_write :: "gsb_message \<Rightarrow> 's client_connection \<Rightarrow> bool \<times> 's client_connection" where
  "cl_write m c =
     (case sw_write m (cc_writer c) of
        (None, _, w) \<Rightarrow> (False, c\<lparr>cc_writer := w\<rparr>)
      | (Some _, _, w) \<Rightarrow> (True, c\<lparr>cc_writer := w\<rparr>))"

text \<open>The queue of the senders that wait for a kind of reply.\<close>

fun queue_of :: "command \<Rightarrow> 's client_connection \<Rightarrow> waiter list" where
  "queue_of Bind c = cc_register_reply c"
| "queue_of Unbind c = cc_unregister_reply c"
| "queue_of Subscribe c = cc_subscribe_reply c"
| "queue_of Unsubscribe c = cc_unsubscribe_reply c"
| "queue_of Broadcast c = cc_broadcast_reply c"

fun set_queue :: "command \<Rightarrow> waiter list \<Rightarrow> 's client_connection \<Rightarrow> 's client_connection" where
  "set_queue Bind q c = c\<lparr>cc_register_reply := q\<rparr>"
| "set_queue Unbind q c = c\<lparr>cc_unregister_reply := q\<rparr>"
| "set_queue Subscribe q c = c\<lparr>cc_subscribe_reply := q\<rparr>"
| "set_queue Unsubscribe q c = c\<lparr>cc_unsubscribe_reply := q\<rparr>"
| "set_queue Broadcast q c = c\<lparr>cc_broadcast_reply := q\<rparr>"

definition cl_handle_reply :: "command \<Rightarrow> (gsb_error + unit) \<Rightarrow> 's client_connection \<Rightarrow> 's client_turn" where
  "cl_handle_reply k reply_msg c =
     (case queue_of k c of
        r # rest \<Rightarrow> (set_queue k rest c, [Answer k r reply_msg])
      | [] \<Rightarrow> (c, [ClientStop]))"

definition cl_handle_unregister_reply :: "UnregisterReplyCode \<Rightarrow> 's client_connection \<Rightarrow> 's client_turn" where
  "cl_handle_unregister_reply code c =
     cl_handle_reply Unbind
       (case code of UnregisteredOk \<Rightarrow> Inr () | NotRegistered \<Rightarrow> Inl (GsbBadRequest ''unregister'')) c"

definition cl_handle_broadcast_reply ::
  "BroadcastReplyCode \<Rightarrow> string \<Rightarrow> 's client_connection \<Rightarrow> 's client_turn" where
  "cl_handle_broadcast_reply code msg c =
     cl_handle_reply Broadcast
       (case code of BroadcastOk \<Rightarrow> Inr () | BroadcastBadRequest \<Rightarrow> Inl (GsbBadRequest msg)) c"

definition cl_handle_register_reply ::
  "RegisterReplyCode \<Rightarrow> string \<Rightarrow> 's client_connection \<Rightarrow> 's client_turn" where
  "cl_handle_register_reply code msg c =
     cl_handle_reply Bind
       (case code of
          RegisteredOk \<Rightarrow> Inr ()
        | RegisterBadRequest \<Rightarrow> Inl (GsbBadRequest msg)
        | RegisterConflict \<Rightarrow> Inl (GsbAlreadyRegistered msg)) c"

definition cl_handle_subscribe_reply ::
  "SubscribeReplyCode \<Rightarrow> string \<Rightarrow> 's client_connection \<Rightarrow> 's client_turn" where
  "cl_handle_subscribe_reply code msg c =
     cl_handle_reply Subscribe
       (case code of SubscribedOk \<Rightarrow> Inr () | SubscribeBadRequest \<Rightarrow> Inl (GsbBadRequest msg)) c"

definition cl_handle_unsubscribe_reply :: "UnsubscribeReplyCode \<Rightarrow> 's client_connection \<Rightarrow> 's client_turn" where
  "cl_handle_unsubscribe_reply code c =
     cl_handle_reply Unsubscribe
       (case code of UnsubscribedOk \<Rightarrow> Inr () | NotSubscribed \<Rightarrow> Inl (GsbBadRequest ''unsubscribed'')) c"

section \<open>Calls\<close>

text \<open>
  An incoming call is handed to the user's handler, whose stream of results is written back: one
  reply per item, and a closing empty one if the last item was not final. Other handlers may run
  between two items; they add messages of their own to the writer. \<open>display\<close> is \<^verbatim>\<open>Display\<close> of the error.
\<close>

definition reply_of_item ::
  "(gsb_error \<Rightarrow> string) \<Rightarrow> string \<Rightarrow> gsb_error + response_chunk \<Rightarrow> bool \<times> call_reply" where
  "reply_of_item display request_id r =
     (case r of
        Inr data \<Rightarrow>
          let reply_type = code_reply_type (chunk_reply_type data)
          in (reply_type = 0, \<lparr>crp_request_id = request_id, crp_code = code_call CallReplyOk,
                crp_reply_type = reply_type, crp_data = into_bytes data\<rparr>)
      | Inl e \<Rightarrow> (True, \<lparr>crp_request_id = request_id, crp_code = code_call ServiceFailure,
                crp_reply_type = 0, crp_data = as_bytes (display e)\<rparr>))"

definition reply_stream ::
  "(gsb_error \<Rightarrow> string) \<Rightarrow> string \<Rightarrow> (gsb_error + response_chunk) list \<Rightarrow> 's client_connection \<Rightarrow> 's client_connection" where
  "reply_stream display request_id items c =
     (case foldl (\<lambda>(_, c) r. case reply_of_item display request_id r of
             (got_eos, reply) \<Rightarrow> (got_eos, snd (cl_write (CallReply reply) c))) (False, c) items of
        (got_eos, c1) \<Rightarrow>
          if \<not> got_eos
          then snd (cl_write (CallReply \<lparr>crp_request_id = request_id, crp_code = 0, crp_reply_type = 0, crp_data = []\<rparr>) c1)
          else c1)"

definition cl_handle_call_request :: "call_request \<Rightarrow> 's client_connection \<Rightarrow> 's client_turn" where
  "cl_handle_call_request r c =
     (c, [DoCall (crq_request_id r) (crq_caller r) (crq_address r) (crq_data r) False])"

text \<open>The results of a push are read and thrown away.\<close>

definition cl_handle_push_request :: "call_request \<Rightarrow> 's client_connection \<Rightarrow> 's client_turn" where
  "cl_handle_push_request r c =
     (c, [DoCall (crq_request_id r) (crq_caller r) (crq_address r) (crq_data r) True])"

text \<open>\<^verbatim>\<open>handle_reply\<close>: the reply of a call, by its request id; \<open>Inl\<close> is the error that stops the actor.\<close>

datatype reply_error = BadCode i32 | BadUtf8

definition cl_handle_call_reply ::
  "call_reply \<Rightarrow> 's client_connection \<Rightarrow> reply_error + 's client_turn" where
  "cl_handle_call_reply rep c =
     (let chunk = (if crp_reply_type rep = code_reply_type Partial then Part (crp_data rep) else FullChunk (crp_data rep));
          closed = (\<lambda>c1. if is_full chunk then c1\<lparr>cc_call_reply := snd (hm_remove (crp_request_id rep) (cc_call_reply c1))\<rparr> else c1)
      in case hm_get (cc_call_reply c) (crp_request_id rep) of
           None \<Rightarrow> Inr (closed c, [])
         | Some r \<Rightarrow>
             (case try_from_call_reply_code (crp_code rep) of
                Inl (EnumError n) \<Rightarrow> Inl (BadCode n)
              | Inr CallReplyOk \<Rightarrow> Inr (closed c, [DeliverChunk r (Inr chunk)])
              | Inr CallReplyBadRequest \<Rightarrow>
                  (case from_utf8 (into_bytes chunk) of
                     None \<Rightarrow> Inl BadUtf8
                   | Some s \<Rightarrow> Inr (closed c, [DeliverChunk r (Inl (GsbBadRequest s))]))
              | Inr ServiceFailure \<Rightarrow>
                  (case from_utf8 (into_bytes chunk) of
                     None \<Rightarrow> Inl BadUtf8
                   | Some s \<Rightarrow> Inr (closed c, [DeliverChunk r (Inl (GsbFailure s))]))))"

section \<open>The actor\<close>

definition cl_started :: "'s client_connection \<Rightarrow> 's client_connection" where
  "cl_started c =
     snd (cl_write (Hello \<lparr>hl_name = ci_name (cc_client_info c),
            hl_version = (case ci_version (cc_client_info c) of Some v \<Rightarrow> v | None \<Rightarrow> []),
            hl_instance_id = ci_instance_id (cc_client_info c)\<rparr>) c)"

definition cl_stopped :: "'s client_connection \<Rightarrow> 's client_turn" where
  "cl_stopped c = (c, [OnDisconnect])"

text \<open>The writer of the client: an error stops the actor, an empty buffer means nothing to it.\<close>

definition cl_poll_output ::
  "('s, gsb_message) sink_ops \<Rightarrow> 's client_connection \<Rightarrow> gsb_message list \<times> 's client_turn" where
  "cl_poll_output ops c =
     (case poll_writer ops True (cc_writer c) of (res, sent, w) \<Rightarrow>
        (sent, c\<lparr>cc_writer := w\<rparr>, case res of Waiting _ \<Rightarrow> [] | _ \<Rightarrow> [ClientStop]))"

definition cl_handle :: "protocol_error + gsb_message \<Rightarrow> 's client_connection \<Rightarrow> 's client_turn" where
  "cl_handle item c =
     (case item of
        Inl e \<Rightarrow> (c, [ClientStop])
      | Inr (RegisterReply r) \<Rightarrow>
          (case register_reply_code (rrp_code r) of
             Some code \<Rightarrow> cl_handle_register_reply code (rrp_message r) c
           | None \<Rightarrow> (c, [ClientStop]))
      | Inr (UnregisterReply r) \<Rightarrow>
          (case unregister_reply_code (urp_code r) of
             Some code \<Rightarrow> cl_handle_unregister_reply code c
           | None \<Rightarrow> (c, [ClientStop]))
      | Inr (SubscribeReply r) \<Rightarrow>
          (case subscribe_reply_code (srp_code r) of
             Some code \<Rightarrow> cl_handle_subscribe_reply code (srp_message r) c
           | None \<Rightarrow> (c, [ClientStop]))
      | Inr (UnsubscribeReply r) \<Rightarrow>
          (case unsubscribe_reply_code (usrp_code r) of
             Some code \<Rightarrow> cl_handle_unsubscribe_reply code c
           | None \<Rightarrow> (c, [ClientStop]))
      | Inr (BroadcastReply r) \<Rightarrow>
          (case broadcast_reply_code (brp_code r) of
             Some code \<Rightarrow> cl_handle_broadcast_reply code (brp_message r) c
           | None \<Rightarrow> (c, [ClientStop]))
      | Inr (CallRequest r) \<Rightarrow>
          if crq_no_reply r then cl_handle_push_request r c else cl_handle_call_request r c
      | Inr (CallReply r) \<Rightarrow>
          (case cl_handle_call_reply r c of Inl _ \<Rightarrow> (c, [ClientStop]) | Inr t \<Rightarrow> t)
      | Inr (BroadcastRequest r) \<Rightarrow> (c, [HandleEvent (brq_caller r) (brq_topic r) (brq_data r)])
      | Inr Ping \<Rightarrow>
          (case cl_write Pong c of (refused, c1) \<Rightarrow> (c1, if refused then [ClientStop] else []))
      | Inr (Hello h) \<Rightarrow>
          (case cc_server_info c of
             Some _ \<Rightarrow> (c, [ClientStop])
           | None \<Rightarrow> (c\<lparr>cc_server_info := Some h\<rparr>, []))
      | Inr _ \<Rightarrow> (c, [ClientStop]))"

section \<open>Commands and calls of the user\<close>

text \<open>
  \<^verbatim>\<open>send_cmd_async\<close>: the sender is queued first, then the message is written. The result is the
  immediate answer, or \<open>None\<close> while the command waits for its reply.
\<close>

definition send_cmd_async ::
  "command \<Rightarrow> waiter \<Rightarrow> gsb_message \<Rightarrow> 's client_connection \<Rightarrow> (gsb_error + unit) option \<times> 's client_connection" where
  "send_cmd_async k tx msg c =
     (case cl_write msg (set_queue k (queue_of k c @ [tx]) c) of
        (True, c1) \<Rightarrow> (Some (Inl (GsbFailure ''no connection'')), c1)
      | (False, c1) \<Rightarrow> (None, c1))"

definition cl_bind where
  "cl_bind tx addr = send_cmd_async Bind tx (RegisterRequest \<lparr>rrq_service_id = addr\<rparr>)"

definition cl_unbind where
  "cl_unbind tx addr = send_cmd_async Unbind tx (UnregisterRequest \<lparr>urq_service_id = addr\<rparr>)"

definition cl_subscribe where
  "cl_subscribe tx topic = send_cmd_async Subscribe tx (SubscribeRequest \<lparr>srq_topic = topic\<rparr>)"

definition cl_unsubscribe where
  "cl_unsubscribe tx topic = send_cmd_async Unsubscribe tx (UnsubscribeRequest \<lparr>usrq_topic = topic\<rparr>)"

definition cl_broadcast where
  "cl_broadcast tx caller topic body =
     send_cmd_async Broadcast tx (BroadcastRequest \<lparr>brq_caller = caller, brq_data = body, brq_topic = topic\<rparr>)"

text \<open>What the waiting side of a command sees: the answer, or that the sender was dropped.\<close>

definition await_command :: "(gsb_error + unit) option \<Rightarrow> gsb_error + unit" where
  "await_command r = (case r of None \<Rightarrow> Inl Cancelled | Some v \<Rightarrow> v)"

text \<open>
  \<^verbatim>\<open>Handler<RpcRawCall>\<close>: \<open>ch\<close> is the channel made for the reply. The result is the channel to wait
  on, or \<open>None\<close> for a call without reply, which succeeds at once.
\<close>

definition cl_rpc_raw_call ::
  "u64 \<Rightarrow> reply_channel \<Rightarrow> rpc_raw_call \<Rightarrow> 's client_connection \<Rightarrow> reply_channel option \<times> 's client_connection" where
  "cl_rpc_raw_call random ch msg c =
     (let request_id = show_nat (unat (gen_id random));
          c1 = (if rc_no_reply msg then c
                else c\<lparr>cc_call_reply := snd (hm_insert request_id ch (cc_call_reply c))\<rparr>);
          c2 = snd (cl_write (CallRequest \<lparr>crq_caller = rc_caller msg, crq_address = rc_addr msg,
                  crq_request_id = request_id, crq_data = rc_body msg, crq_no_reply = rc_no_reply msg\<rparr>) c1)
      in (if rc_no_reply msg then None else Some ch, c2))"

text \<open>The future behind the channel: the first item decides.\<close>

definition fetch_response :: "(gsb_error + response_chunk) option \<Rightarrow> gsb_error + bytes" where
  "fetch_response first =
     (case first of
        Some (Inr (FullChunk data)) \<Rightarrow> Inr data
      | Some (Inl e) \<Rightarrow> Inl e
      | Some (Inr (Part _)) \<Rightarrow> Inl (GsbFailure ''streaming response'')
      | None \<Rightarrow> Inl (GsbFailure ''unexpected EOS''))"

definition cl_rpc_raw_stream_call ::
  "u64 \<Rightarrow> rpc_raw_stream_call \<Rightarrow> 's client_connection \<Rightarrow> 's client_connection" where
  "cl_rpc_raw_stream_call random msg c =
     (let request_id = show_nat (unat (gen_id random));
          c1 = c\<lparr>cc_call_reply := snd (hm_insert request_id (rsc_reply msg) (cc_call_reply c))\<rparr>
      in snd (cl_write (CallRequest \<lparr>crq_caller = rsc_caller msg, crq_address = rsc_addr msg,
            crq_request_id = request_id, crq_data = rsc_body msg, crq_no_reply = False\<rparr>) c1))"

section \<open>The handle given to the user\<close>

text \<open>\<^verbatim>\<open>ConnectionRef\<close>: a failure of the mailbox becomes an error that names what was asked for.\<close>

definition ref_send :: "string \<Rightarrow> mailbox_error + (gsb_error + 'a) \<Rightarrow> gsb_error + 'a" where
  "ref_send what v = (case v of Inl e \<Rightarrow> Inl (from_addr what e) | Inr r \<Rightarrow> r)"

definition ref_bind :: "string \<Rightarrow> mailbox_error + (gsb_error + unit) \<Rightarrow> gsb_error + unit" where
  "ref_bind addr v = ref_send addr v"

definition ref_unbind :: "string \<Rightarrow> mailbox_error + (gsb_error + unit) \<Rightarrow> gsb_error + unit" where
  "ref_unbind addr v = ref_send addr v"

definition ref_subscribe :: "string \<Rightarrow> mailbox_error + (gsb_error + unit) \<Rightarrow> gsb_error + unit" where
  "ref_subscribe topic v = ref_send (''subscribing '' @ topic) v"

definition ref_unsubscribe :: "string \<Rightarrow> mailbox_error + (gsb_error + unit) \<Rightarrow> gsb_error + unit" where
  "ref_unsubscribe topic v = ref_send (''unsubscribing '' @ topic) v"

definition ref_broadcast :: "string \<Rightarrow> mailbox_error + (gsb_error + unit) \<Rightarrow> gsb_error + unit" where
  "ref_broadcast topic v = ref_send (''broadcasting '' @ topic) v"

definition ref_call :: "string \<Rightarrow> mailbox_error + (gsb_error + bytes) \<Rightarrow> gsb_error + bytes" where
  "ref_call addr v = ref_send addr v"

text \<open>\<^verbatim>\<open>call_streaming\<close>: what is put into the channel when the request itself fails.\<close>

definition ref_call_streaming :: "string \<Rightarrow> mailbox_error + (gsb_error + unit) \<Rightarrow> gsb_error option" where
  "ref_call_streaming addr v =
     (case v of
        Inr (Inr ()) \<Rightarrow> None
      | Inr (Inl e) \<Rightarrow> Some e
      | Inl e \<Rightarrow> Some (from_addr addr e))"

lemmas client_op_defs [client_defs] =
  cl_handle_reply_def cl_handle_unregister_reply_def cl_handle_broadcast_reply_def
  cl_handle_register_reply_def cl_handle_subscribe_reply_def cl_handle_unsubscribe_reply_def
  cl_handle_call_request_def cl_handle_push_request_def cl_handle_call_reply_def cl_handle_def
  send_cmd_async_def cl_rpc_raw_call_def cl_rpc_raw_stream_call_def

section \<open>Facts\<close>

definition cl_open :: "'s client_connection \<Rightarrow> bool" where
  "cl_open c \<longleftrightarrow> \<not> closing (cc_writer c) \<and> \<not> closed (cc_writer c)"

definition cl_queued :: "'s client_connection \<Rightarrow> gsb_message list" where
  "cl_queued c = buffer (cc_writer c)"

lemma cl_write_frame [simp]:
  "queue_of k (snd (cl_write m c)) = queue_of k c"
  "cc_call_reply (snd (cl_write m c)) = cc_call_reply c"
  "cl_open (snd (cl_write m c)) = cl_open c"
  "fst (cl_write m c) = (\<not> cl_open c)"
  "cl_queued (snd (cl_write m c)) = (if cl_open c then cl_queued c @ [m] else cl_queued c)"
  by (cases k; simp add: cl_write_def sw_write_def cl_open_def cl_queued_def)+

text \<open>With a transport that is ready, what a client has written is sent at once, in order.\<close>

lemma cl_poll_sends_all:
  assumes "always_ready ops" and "cl_open c"
  shows "\<exists>c'. cl_poll_output ops c = (cl_queued c, c', []) \<and> cl_queued c' = [] \<and> cl_open c'"
proof -
  obtain s where "poll_writer ops True (cc_writer c) = (Waiting True, buffer (cc_writer c),
      (cc_writer c)\<lparr>buffer := [], sink := s, task := True\<rparr>)"
    using poll_ready_writer [OF assms(1)] assms(2) by (auto simp: cl_open_def)
  with assms(2) show ?thesis by (simp add: cl_poll_output_def cl_open_def cl_queued_def)
qed

lemma queue_set_queue [simp]: "queue_of k' (set_queue k q c) = (if k' = k then q else queue_of k' c)"
  by (cases k; cases k') simp_all

lemma set_queue_frame [simp]:
  "cl_open (set_queue k q c) = cl_open c" "cl_queued (set_queue k q c) = cl_queued c"
  "cc_call_reply (set_queue k q c) = cc_call_reply c"
  by (cases k; simp add: cl_open_def cl_queued_def)+

lemma queue_call_reply [simp]:
  "queue_of k (c\<lparr>cc_call_reply := m\<rparr>) = queue_of k c"
  "queue_of k (c\<lparr>cc_server_info := h\<rparr>) = queue_of k c"
  "cl_open (c\<lparr>cc_call_reply := m\<rparr>) = cl_open c"
  "cl_queued (c\<lparr>cc_call_reply := m\<rparr>) = cl_queued c"
  by (cases k; simp add: cl_open_def cl_queued_def)+

text \<open>The senders of one kind of command among the effects that are answers.\<close>

fun answered :: "command \<Rightarrow> client_effect list \<Rightarrow> waiter list" where
  "answered k [] = []"
| "answered k (Answer k' w r # es) = (if k' = k then w # answered k es else answered k es)"
| "answered k (e # es) = answered k es"

lemma answered_append [simp]: "answered k (xs @ ys) = answered k xs @ answered k ys"
  by (induction k xs rule: answered.induct) simp_all

lemma cl_handle_reply_queue:
  "queue_of k c = answered k (snd (cl_handle_reply k' r c)) @ queue_of k (fst (cl_handle_reply k' r c))"
  by (auto simp: cl_handle_reply_def split: list.splits)

lemma cl_handle_call_reply_queue:
  "cl_handle_call_reply rep c = Inr t \<Longrightarrow> answered k (snd t) = [] \<and> queue_of k (fst t) = queue_of k c"
  by (auto simp: cl_handle_call_reply_def Let_def
      split: option.splits sum.splits enum_error.splits CallReplyCode.splits if_splits)

lemma cl_handle_queue:
  "queue_of k c = answered k (snd (cl_handle item c)) @ queue_of k (fst (cl_handle item c))"
proof (cases item)
  case (Inr m)
  note replies = cl_handle_register_reply_def cl_handle_unregister_reply_def
    cl_handle_subscribe_reply_def cl_handle_unsubscribe_reply_def cl_handle_broadcast_reply_def
  show ?thesis
  proof (cases m)
    case (CallReply rep)
    with Inr show ?thesis
      using cl_handle_call_reply_queue [of rep c _ k] by (simp add: cl_handle_def split: sum.splits)
  qed (use Inr cl_handle_reply_queue [of k c] in
      \<open>simp_all add: cl_handle_def replies cl_handle_call_request_def cl_handle_push_request_def
         split_beta split: option.splits\<close>)
qed (simp add: cl_handle_def)

section \<open>A client over time\<close>

text \<open>
  What happens to a client connection, in order: commands of the user (with the channel that waits
  for the answer and the message that is sent), calls, and items from the router.
\<close>

datatype client_event =
    Issue command waiter gsb_message
  | UserCall u64 reply_channel rpc_raw_call
  | UserStreamCall u64 rpc_raw_stream_call
  | Incoming "protocol_error + gsb_message"

record 's client_run =
  cr_conn :: "'s client_connection"
  cr_issued :: "(command \<times> waiter) list"
  cr_effects :: "client_effect list"

fun client_step :: "'s client_run \<Rightarrow> client_event \<Rightarrow> 's client_run" where
  "client_step r (Issue k tx m) =
     r\<lparr>cr_conn := snd (send_cmd_async k tx m (cr_conn r)), cr_issued := cr_issued r @ [(k, tx)]\<rparr>"
| "client_step r (UserCall random ch msg) = r\<lparr>cr_conn := snd (cl_rpc_raw_call random ch msg (cr_conn r))\<rparr>"
| "client_step r (UserStreamCall random msg) = r\<lparr>cr_conn := cl_rpc_raw_stream_call random msg (cr_conn r)\<rparr>"
| "client_step r (Incoming item) =
     (case cl_handle item (cr_conn r) of (c, es) \<Rightarrow> r\<lparr>cr_conn := c, cr_effects := cr_effects r @ es\<rparr>)"

definition client_exec :: "client_info \<Rightarrow> 's \<Rightarrow> client_event list \<Rightarrow> 's client_run" where
  "client_exec info w evs =
     foldl client_step \<lparr>cr_conn = client_connection_new info w, cr_issued = [], cr_effects = []\<rparr> evs"

definition issued :: "command \<Rightarrow> (command \<times> waiter) list \<Rightarrow> waiter list" where
  "issued k is = map snd (filter (\<lambda>(k', w). k' = k) is)"

lemma send_cmd_queue [simp]:
  "queue_of k (snd (send_cmd_async k' tx m c)) = queue_of k c @ (if k = k' then [tx] else [])"
  by (auto simp: send_cmd_async_def split_beta split: bool.splits prod.splits)

lemma call_queues [simp]:
  "queue_of k (snd (cl_rpc_raw_call random ch msg c)) = queue_of k c"
  "queue_of k (cl_rpc_raw_stream_call random smsg c) = queue_of k c"
  by (simp_all add: cl_rpc_raw_call_def cl_rpc_raw_stream_call_def Let_def)

lemma client_exec_queues:
  "issued k (cr_issued (client_exec info w evs)) =
     answered k (cr_effects (client_exec info w evs)) @ queue_of k (cr_conn (client_exec info w evs))"
  unfolding client_exec_def
proof (induction evs rule: rev_induct)
  case Nil
  show ?case by (cases k) (simp_all add: issued_def client_connection_new_def)
next
  case (snoc e evs)
  let ?r = "foldl client_step \<lparr>cr_conn = client_connection_new info w, cr_issued = [], cr_effects = []\<rparr> evs"
  have "issued k (cr_issued (client_step ?r e)) =
      answered k (cr_effects (client_step ?r e)) @ queue_of k (cr_conn (client_step ?r e))"
    using snoc cl_handle_queue [of k "cr_conn ?r"]
    by (cases e) (auto simp: issued_def split_beta)
  then show ?case by simp
qed

text \<open>The replies written for one incoming call.\<close>

definition stream_replies ::
  "(gsb_error \<Rightarrow> string) \<Rightarrow> string \<Rightarrow> (gsb_error + response_chunk) list \<Rightarrow> call_reply list" where
  "stream_replies display request_id items =
     map (\<lambda>r. snd (reply_of_item display request_id r)) items @
     (if items \<noteq> [] \<and> fst (reply_of_item display request_id (last items)) then []
      else [\<lparr>crp_request_id = request_id, crp_code = 0, crp_reply_type = 0, crp_data = []\<rparr>])"

lemma reply_fold:
  assumes "cl_open c"
  shows "case foldl (\<lambda>(_, c) r. case reply_of_item display request_id r of
             (got_eos, reply) \<Rightarrow> (got_eos, snd (cl_write (CallReply reply) c))) (False, c) items of
          (got_eos, c1) \<Rightarrow> cl_open c1
            \<and> cl_queued c1 = cl_queued c @ map (\<lambda>r. CallReply (snd (reply_of_item display request_id r))) items
            \<and> got_eos = (items \<noteq> [] \<and> fst (reply_of_item display request_id (last items)))"
  using assms by (induction items rule: rev_induct) (auto simp: split_beta)

lemma reply_stream_queued:
  "cl_open c \<Longrightarrow> cl_queued (reply_stream display request_id items c) =
     cl_queued c @ map CallReply (stream_replies display request_id items)"
  using reply_fold [of c display request_id items]
  by (auto simp: reply_stream_def stream_replies_def split_beta)

lemma reply_of_item_id [simp]: "crp_request_id (snd (reply_of_item display request_id r)) = request_id"
  by (auto simp: reply_of_item_def Let_def split: sum.splits)

lemma reply_of_item_eos:
  "fst (reply_of_item display request_id r) \<longleftrightarrow> get_reply_type (snd (reply_of_item display request_id r)) = Full"
proof (cases r)
  case (Inr chunk)
  then show ?thesis by (cases chunk) (simp_all add: reply_of_item_def get_reply_type_def)
qed (simp add: reply_of_item_def get_reply_type_def)

section \<open>Properties\<close>

text \<open>
  C21. Commands are answered in the order they were issued, each at most once, whatever else
  happens on the connection: for every kind of command, the senders in the order of their commands
  are those already answered, in the order of the answers, followed by those still waiting.
\<close>

theorem commands_answered_in_order:
  "issued k (cr_issued (client_exec info w evs)) =
     answered k (cr_effects (client_exec info w evs)) @ queue_of k (cr_conn (client_exec info w evs))"
  by (rule client_exec_queues)

text \<open>
  C23. The results of an incoming call are reported completely. What is written for them is one reply
  per item of the handler's stream, in order, with the call's id: a partial or a full one with the data
  of the chunk (code 0), or a full one with the text of the error (code 500). An empty full reply follows
  exactly when the stream was empty or ended with a partial chunk. So the last reply written is always a
  full one, and the caller's wait ends.
\<close>

theorem call_results_end_with_full_reply:
  assumes "cl_open c"
  shows "let reply = (\<lambda>item. case item of
                 Inr (Part bs) \<Rightarrow> \<lparr>crp_request_id = request_id, crp_code = 0, crp_reply_type = 1, crp_data = bs\<rparr>
               | Inr (FullChunk bs) \<Rightarrow> \<lparr>crp_request_id = request_id, crp_code = 0, crp_reply_type = 0, crp_data = bs\<rparr>
               | Inl e \<Rightarrow> \<lparr>crp_request_id = request_id, crp_code = 500, crp_reply_type = 0, crp_data = as_bytes (display e)\<rparr>);
             replies = map reply items @
               (if items = [] \<or> (\<exists>bs. last items = Inr (Part bs))
                then [\<lparr>crp_request_id = request_id, crp_code = 0, crp_reply_type = 0, crp_data = []\<rparr>] else [])
         in cl_queued (reply_stream display request_id items c) = cl_queued c @ map CallReply replies
          \<and> replies \<noteq> [] \<and> get_reply_type (last replies) = Full"
proof -
  define reply where "reply = (\<lambda>item. case item of
      Inr (Part bs) \<Rightarrow> \<lparr>crp_request_id = request_id, crp_code = 0, crp_reply_type = 1, crp_data = bs\<rparr>
    | Inr (FullChunk bs) \<Rightarrow> \<lparr>crp_request_id = request_id, crp_code = 0, crp_reply_type = 0, crp_data = bs\<rparr>
    | Inl e \<Rightarrow> \<lparr>crp_request_id = request_id, crp_code = 500, crp_reply_type = 0, crp_data = as_bytes (display e)\<rparr>)"
  have item: "snd (reply_of_item display request_id r) = reply r
      \<and> (fst (reply_of_item display request_id r) \<longleftrightarrow> \<not> (\<exists>bs. r = Inr (Part bs)))" for r
  proof (cases r)
    case (Inr chunk)
    then show ?thesis by (cases chunk) (simp_all add: reply_of_item_def reply_def)
  qed (simp add: reply_of_item_def reply_def)
  then have "stream_replies display request_id items = map reply items @
      (if items = [] \<or> (\<exists>bs. last items = Inr (Part bs))
       then [\<lparr>crp_request_id = request_id, crp_code = 0, crp_reply_type = 0, crp_data = []\<rparr>] else [])"
    by (auto simp: stream_replies_def)
  moreover have "get_reply_type (reply r) = Full" if "\<not> (\<exists>bs. r = Inr (Part bs))" for r
    using that item [of r] reply_of_item_eos [of display request_id r] by metis
  moreover have "get_reply_type \<lparr>crp_request_id = request_id, crp_code = 0, crp_reply_type = 0, crp_data = []\<rparr> = Full"
    by (simp add: get_reply_type_def)
  ultimately show ?thesis
    unfolding reply_def [symmetric]
    using reply_stream_queued [OF assms, of display request_id items] by (auto simp: Let_def last_map)
qed

theorem call_results_end_with_full_reply_witness:
  "cl_queued (reply_stream (\<lambda>_. []) ''7'' [Inr (Part [1])] (client_connection_new (client_info_new [] [] []) ())) =
     [CallReply \<lparr>crp_request_id = ''7'', crp_code = 0, crp_reply_type = 1, crp_data = [1]\<rparr>,
      CallReply \<lparr>crp_request_id = ''7'', crp_code = 0, crp_reply_type = 0, crp_data = []\<rparr>]"
proof -
  let ?c = "client_connection_new (client_info_new [] [] []) ()"
  have "cl_open ?c" "cl_queued ?c = []"
    by (simp_all add: cl_open_def cl_queued_def client_connection_new_def sink_write_new_def)
  with call_results_end_with_full_reply [of ?c "''7''" "\<lambda>_. []" "[Inr (Part [1])]"] show ?thesis
    by (simp add: Let_def)
qed

text \<open>
  C22. A reply with a known code, and with a text in UTF-8 if it is an error, reaches the caller that
  waits under its id: a success as its chunk, an error of the router or the service as the corresponding
  error with its text; a full reply ends the wait and a partial one does not; no other waiting call is
  touched.
\<close>

theorem call_reply_delivered:
  assumes "hm_get (cc_call_reply c) (crp_request_id rep) = Some ch"
    and "try_from_call_reply_code (crp_code rep) = Inr code"
    and "code = CallReplyOk \<or> utf8_valid (crp_data rep)"
  shows "let (c', es) = cl_handle (Inr (CallReply rep)) c;
             text = map byte_char (crp_data rep)
         in es = [DeliverChunk ch (case code of
                    CallReplyOk \<Rightarrow> Inr (if get_reply_type rep = Full then FullChunk (crp_data rep) else Part (crp_data rep))
                  | CallReplyBadRequest \<Rightarrow> Inl (GsbBadRequest text)
                  | ServiceFailure \<Rightarrow> Inl (GsbFailure text))]
          \<and> hm_get (cc_call_reply c') = (if get_reply_type rep = Full
                then (hm_get (cc_call_reply c))(crp_request_id rep := None)
                else hm_get (cc_call_reply c))"
  using assms
  by (cases code) (auto simp: cl_handle_def cl_handle_call_reply_def Let_def from_utf8_def get_reply_type_def)

definition waiting_client :: "unit client_connection" where
  "waiting_client = (client_connection_new (client_info_new [] [] []) ())\<lparr>cc_call_reply := [(''7'', 3)]\<rparr>"

theorem call_reply_delivered_witness:
  "snd (cl_handle (Inr (CallReply \<lparr>crp_request_id = ''7'', crp_code = 0, crp_reply_type = 0, crp_data = [9]\<rparr>)) waiting_client)
     = [DeliverChunk 3 (Inr (FullChunk [9]))]"
  using call_reply_delivered [of waiting_client
      "\<lparr>crp_request_id = ''7'', crp_code = 0, crp_reply_type = 0, crp_data = [9]\<rparr>" 3 CallReplyOk]
  by (simp add: waiting_client_def hm_get_def try_from_call_reply_code_def get_reply_type_def
      Let_def split_beta)

text \<open>
  A service can cut off its callers: when the reply to a pending call carries an unknown code,
  or an error text that is not UTF-8, the caller's connection to the router is stopped, although the
  router passes such replies on unchanged.
\<close>

lemma malformed_reply_stops_caller:
  assumes "hm_get (cc_call_reply c) (crp_request_id rep) = Some ch"
    and "crp_code rep \<notin> {0, 400, 500} \<or> (crp_code rep \<noteq> 0 \<and> \<not> utf8_valid (crp_data rep))"
  shows "cl_handle (Inr (CallReply rep)) c = (c, [ClientStop])"
  using assms
  by (auto simp: cl_handle_def cl_handle_call_reply_def Let_def try_from_call_reply_code_def from_utf8_def
      split: if_splits)

lemma malformed_reply_stops_caller_example:
  "snd (cl_handle (Inr (CallReply \<lparr>crp_request_id = ''7'', crp_code = 500, crp_reply_type = 0, crp_data = [0xFF]\<rparr>)) waiting_client)
     = [ClientStop]"
  using malformed_reply_stops_caller [of waiting_client
      "\<lparr>crp_request_id = ''7'', crp_code = 500, crp_reply_type = 0, crp_data = [0xFF]\<rparr>" 3]
  by (simp add: waiting_client_def hm_get_def)

end
