(* ===== verification/Remote_Router.thy ===== *)
theory Remote_Router
  imports Local_Router Client_Connection "HOL-Library.Multiset"
begin

text \<open>
  \<^verbatim>\<open>src/remote_router.rs\<close>: the supervised actor that keeps this process connected to the router. It
  remembers which addresses are bound here, announces them on every new connection, and holds calls
  back while there is none. Connections are numbered; \<open>rr_effect\<close> lists what a handler asks of the
  rest of the system, in order.
\<close>

section \<open>State\<close>

record remote_router =
  rr_client_info :: client_info
  rr_local_bindings :: "string list"
  rr_pending_calls :: "waiter list"
  rr_connection :: "nat option"
  rr_shutdown_rx :: bool   \<comment> \<open>whether the listener for the interrupt signal exists\<close>

definition remote_router_default :: "client_info \<Rightarrow> remote_router" where
  "remote_router_default info = \<lparr>rr_client_info = info, rr_local_bindings = [], rr_pending_calls = [],
     rr_connection = None, rr_shutdown_rx = False\<rparr>"

datatype rr_effect =
    ListenForInterrupt
  | StartConnect gsb_addr                   \<comment> \<open>\<^verbatim>\<open>connection::transport(addr)\<close>, spawned\<close>
  | ArmTimeout                              \<comment> \<open>\<^verbatim>\<open>ctx.run_later(CONNECT_TIMEOUT, ..)\<close>\<close>
  | CancelTimeout
  | SpawnSend waiter "gsb_addr + nat"       \<comment> \<open>\<^verbatim>\<open>ctx.spawn(async { tx.send(connection) })\<close>\<close>
  | BindOn nat string                       \<comment> \<open>\<^verbatim>\<open>connection.bind(service_id)\<close>\<close>
  | UnbindOn nat string
  | RestartLater                            \<comment> \<open>\<^verbatim>\<open>ctx.run_later(RECONNECT_DELAY, |_, ctx| ctx.stop())\<close>\<close>
  | RestartNow                              \<comment> \<open>\<^verbatim>\<open>ctx.stop()\<close> of a supervised actor\<close>

type_synonym rr_turn = "remote_router \<times> rr_effect list"

section \<open>Connecting\<close>

definition try_connect :: "gsb_addr \<Rightarrow> remote_router \<Rightarrow> rr_turn" where
  "try_connect addr r = (r, [ArmTimeout, StartConnect addr])"

text \<open>\<open>interrupted\<close>: whether the interrupt signal has arrived. \<open>addr\<close> is \<^verbatim>\<open>GsbAddr::default()\<close>.\<close>

definition rr_started :: "bool \<Rightarrow> gsb_addr \<Rightarrow> remote_router \<Rightarrow> rr_turn" where
  "rr_started interrupted addr r =
     (let listen = (if rr_shutdown_rx r then [] else [ListenForInterrupt]);
          r1 = r\<lparr>rr_shutdown_rx := True\<rparr>
      in if \<not> interrupted
         then (case try_connect addr r1 of (r2, es) \<Rightarrow> (r2, listen @ es))
         else (r1, listen))"

text \<open>Nothing is sent here: each waiting call gets a future of its own, spawned on the actor's context.\<close>

definition clean_pending_calls :: "gsb_addr + nat \<Rightarrow> remote_router \<Rightarrow> rr_turn" where
  "clean_pending_calls connection r =
     (r\<lparr>rr_pending_calls := []\<rparr>, map (\<lambda>tx. SpawnSend tx connection) (rr_pending_calls r))"

text \<open>The timer of \<^verbatim>\<open>try_connect\<close>.\<close>

definition connect_timeout :: "gsb_addr \<Rightarrow> remote_router \<Rightarrow> rr_turn" where
  "connect_timeout addr r =
     (if rr_connection r = None
      then (case clean_pending_calls (Inl addr) r of (r1, es) \<Rightarrow> (r1, es @ [RestartNow]))
      else (r, []))"

text \<open>The transport is there, or could not be opened.\<close>

definition transport_ready :: "io_error_kind + nat \<Rightarrow> remote_router \<Rightarrow> rr_turn" where
  "transport_ready res r =
     (case res of
        Inl e \<Rightarrow> (r, [CancelTimeout, RestartLater])
      | Inr conn \<Rightarrow>
          (case clean_pending_calls (Inr conn) (r\<lparr>rr_connection := Some conn\<rparr>) of (r1, es) \<Rightarrow>
             (r1, es @ map (BindOn conn) (rr_local_bindings r1))))"

text \<open>All the \<open>BindOn\<close> of a new connection have been answered, or one of them failed.\<close>

definition bindings_done :: "gsb_error + unit \<Rightarrow> remote_router \<Rightarrow> rr_turn" where
  "bindings_done res r =
     (case res of
        Inl _ \<Rightarrow> (r, [CancelTimeout, RestartLater])
      | Inr _ \<Rightarrow> (r, [CancelTimeout]))"

text \<open>The connection's handler reported that the connection is gone.\<close>

definition on_disconnected :: "remote_router \<Rightarrow> rr_turn" where
  "on_disconnected r = (r, [RestartLater])"

definition restarting :: "remote_router \<Rightarrow> remote_router" where
  "restarting r = r\<lparr>rr_connection := None\<rparr>"

section \<open>Requests\<close>

definition rr_update_service :: "update_service \<Rightarrow> remote_router \<Rightarrow> rr_turn" where
  "rr_update_service msg r =
     (case msg of
        Add service_id \<Rightarrow>
          (r\<lparr>rr_local_bindings := hs_insert service_id (rr_local_bindings r)\<rparr>,
           case rr_connection r of Some c \<Rightarrow> [BindOn c service_id] | None \<Rightarrow> [])
      | Remove service_id \<Rightarrow>
          (r\<lparr>rr_local_bindings := hs_remove service_id (rr_local_bindings r)\<rparr>,
           case rr_connection r of Some c \<Rightarrow> [UnbindOn c service_id] | None \<Rightarrow> []))"

text \<open>\<^verbatim>\<open>connection()\<close>: the connection, or a place among the waiting calls.\<close>

definition get_connection :: "waiter \<Rightarrow> remote_router \<Rightarrow> nat option \<times> remote_router" where
  "get_connection tx r =
     (case rr_connection r of
        Some c \<Rightarrow> (Some c, r)
      | None \<Rightarrow> (None, r\<lparr>rr_pending_calls := rr_pending_calls r @ [tx]\<rparr>))"

text \<open>What the waiting call sees: a dropped sender, the timeout, or the connection.\<close>

definition await_connection :: "(gsb_addr + nat) option \<Rightarrow> gsb_error + nat" where
  "await_connection res =
     (case res of
        None \<Rightarrow> Inl Cancelled
      | Some (Inl addr) \<Rightarrow> Inl (ConnectionTimeout addr)
      | Some (Inr c) \<Rightarrow> Inr c)"

text \<open>\<^verbatim>\<open>Handler<RpcRawCall>\<close>: the call on the connection, once there is one (\<open>call\<close> is
  \<^verbatim>\<open>ConnectionRef::call\<close> on it).\<close>

definition rr_raw_call :: "(nat \<Rightarrow> rpc_raw_call \<Rightarrow> gsb_error + bytes) \<Rightarrow> (gsb_addr + nat) option \<Rightarrow> rpc_raw_call \<Rightarrow> gsb_error + bytes" where
  "rr_raw_call call res msg =
     (case await_connection res of Inl e \<Rightarrow> Inl e | Inr c \<Rightarrow> call c msg)"

text \<open>\<^verbatim>\<open>Handler<RpcRawStreamCall>\<close>: what reaches the caller's channel; an error is only logged.\<close>

definition rr_raw_stream_call ::
  "(nat \<Rightarrow> rpc_raw_stream_call \<Rightarrow> chunks) \<Rightarrow> (gsb_addr + nat) option \<Rightarrow> rpc_raw_stream_call \<Rightarrow> chunks" where
  "rr_raw_stream_call call_streaming res msg =
     (case await_connection res of Inl e \<Rightarrow> [] | Inr c \<Rightarrow> call_streaming c msg)"

section \<open>The actor over time\<close>

datatype rr_event =
    EvStart bool
  | EvTimeout
  | EvTransport "io_error_kind + nat"
  | EvBindings "gsb_error + unit"
  | EvDisconnected
  | EvRestart
  | EvUpdate update_service
  | EvCall waiter

fun rr_step :: "gsb_addr \<Rightarrow> rr_event \<Rightarrow> remote_router \<Rightarrow> rr_turn" where
  "rr_step addr (EvStart interrupted) r = rr_started interrupted addr r"
| "rr_step addr EvTimeout r = connect_timeout addr r"
| "rr_step addr (EvTransport res) r = transport_ready res r"
| "rr_step addr (EvBindings res) r = bindings_done res r"
| "rr_step addr EvDisconnected r = on_disconnected r"
| "rr_step addr EvRestart r = (restarting r, [])"
| "rr_step addr (EvUpdate u) r = rr_update_service u r"
| "rr_step addr (EvCall tx) r = (snd (get_connection tx r), [])"

fun rr_run :: "gsb_addr \<Rightarrow> rr_event list \<Rightarrow> remote_router \<Rightarrow> rr_turn" where
  "rr_run addr [] r = (r, [])"
| "rr_run addr (e # es) r =
     (case rr_step addr e r of (r1, fx) \<Rightarrow> case rr_run addr es r1 of (r2, gx) \<Rightarrow> (r2, fx @ gx))"

text \<open>
  The actor and the futures it has spawned to answer waiting calls. The runtime polls such a future, and
  the call gets what it was sent; or it drops the future with the actor's context, and the call sees its
  sender gone. When it does which, above all once the actor has been told to stop, is up to the runtime:
  here either can happen to any of them at any time.
\<close>

record rr_world =
  rw_router :: remote_router
  rw_sends :: "(waiter \<times> (gsb_addr + nat)) list"
  rw_answers :: "(waiter \<times> (gsb_error + nat)) list"   \<comment> \<open>what the waiting calls have seen\<close>

datatype rw_event = ActorTurn rr_event | PollSend nat | DropSend nat

fun spawned_sends :: "rr_effect list \<Rightarrow> (waiter \<times> (gsb_addr + nat)) list" where
  "spawned_sends [] = []"
| "spawned_sends (SpawnSend tx connection # es) = (tx, connection) # spawned_sends es"
| "spawned_sends (_ # es) = spawned_sends es"

definition remove_nth :: "nat \<Rightarrow> 'a list \<Rightarrow> 'a list" where
  "remove_nth i xs = take i xs @ drop (Suc i) xs"

definition settle_send :: "nat \<Rightarrow> (gsb_addr + nat \<Rightarrow> (gsb_addr + nat) option) \<Rightarrow> rr_world \<Rightarrow> rr_world" where
  "settle_send i received w =
     (if i < length (rw_sends w)
      then (case rw_sends w ! i of (tx, connection) \<Rightarrow>
        w\<lparr>rw_sends := remove_nth i (rw_sends w),
          rw_answers := rw_answers w @ [(tx, await_connection (received connection))]\<rparr>)
      else w)"

fun rw_step :: "gsb_addr \<Rightarrow> rw_event \<Rightarrow> rr_world \<Rightarrow> rr_world" where
  "rw_step addr (ActorTurn e) w =
     (case rr_step addr e (rw_router w) of (r, fx) \<Rightarrow>
        w\<lparr>rw_router := r, rw_sends := rw_sends w @ spawned_sends fx\<rparr>)"
| "rw_step addr (PollSend i) w = settle_send i Some w"
| "rw_step addr (DropSend i) w = settle_send i (\<lambda>_. None) w"

definition rw_run :: "gsb_addr \<Rightarrow> rw_event list \<Rightarrow> rr_world \<Rightarrow> rr_world" where
  "rw_run addr es w = fold (rw_step addr) es w"

definition rw_start :: "client_info \<Rightarrow> rr_world" where
  "rw_start info = \<lparr>rw_router = remote_router_default info, rw_sends = [], rw_answers = []\<rparr>"

text \<open>The calls that had to wait, in order.\<close>

fun waited :: "gsb_addr \<Rightarrow> rw_event list \<Rightarrow> rr_world \<Rightarrow> waiter list" where
  "waited addr [] w = []"
| "waited addr (e # es) w =
     (case e of ActorTurn (EvCall tx) \<Rightarrow> if rr_connection (rw_router w) = None then [tx] else [] | _ \<Rightarrow> [])
     @ waited addr es (rw_step addr e w)"

definition all_calls :: "rr_world \<Rightarrow> waiter list" where
  "all_calls w = map fst (rw_answers w) @ map fst (rw_sends w) @ rr_pending_calls (rw_router w)"

lemma spawned_sends_append [simp]: "spawned_sends (xs @ ys) = spawned_sends xs @ spawned_sends ys"
  by (induction xs rule: spawned_sends.induct) simp_all

lemma spawned_sends_map [simp]:
  "spawned_sends (map (\<lambda>tx. SpawnSend tx c) txs) = map (\<lambda>tx. (tx, c)) txs" "spawned_sends (map (BindOn n) ss) = []"
  by (induction txs; simp) (induction ss; simp)

lemmas rr_handler_defs = rr_started_def try_connect_def connect_timeout_def clean_pending_calls_def
  transport_ready_def bindings_done_def on_disconnected_def restarting_def rr_update_service_def
  get_connection_def

lemma rr_step_pending:
  "rr_pending_calls r @ (case e of EvCall tx \<Rightarrow> if rr_connection r = None then [tx] else [] | _ \<Rightarrow> []) =
     map fst (spawned_sends (snd (rr_step addr e r))) @ rr_pending_calls (fst (rr_step addr e r))"
  by (cases e) (auto simp: rr_handler_defs comp_def Let_def split: sum.splits option.splits update_service.splits)

lemma mset_remove_nth: "i < length xs \<Longrightarrow> add_mset (xs ! i) (mset (remove_nth i xs)) = mset xs"
  by (metis add.commute id_take_nth_drop mset.simps(2) mset_append remove_nth_def union_mset_add_mset_right)

lemma set_remove_nth: "set (remove_nth i xs) \<subseteq> set xs"
  by (auto simp: remove_nth_def dest: in_set_takeD in_set_dropD)

lemma settle_send_calls: "mset (all_calls (settle_send i received w)) = mset (all_calls w)"
proof (cases "i < length (rw_sends w)")
  case True
  have "add_mset (fst (rw_sends w ! i)) (mset (map fst (remove_nth i (rw_sends w)))) = mset (map fst (rw_sends w))"
    using mset_remove_nth [OF True] by (metis image_mset_add_mset mset_map)
  then show ?thesis by (simp add: settle_send_def all_calls_def split_beta ac_simps)
qed (simp add: settle_send_def)

text \<open>No call is lost or counted twice by a step; in order, as long as the futures are polled in order.\<close>

lemma waited_Cons: "waited addr (e # es) w = waited addr [e] w @ waited addr es (rw_step addr e w)"
  by simp

lemma actor_turn_calls: "all_calls w @ waited addr [ActorTurn e] w = all_calls (rw_step addr (ActorTurn e) w)"
  using rr_step_pending [of "rw_router w" e addr] by (simp add: all_calls_def split_beta)

lemma rw_run_calls: "mset (all_calls (rw_run addr es w)) = mset (all_calls w) + mset (waited addr es w)"
proof (induction es arbitrary: w)
  case (Cons e es)
  have "mset (all_calls (rw_step addr e w)) = mset (all_calls w) + mset (waited addr [e] w)"
  proof (cases e)
    case (ActorTurn a)
    then show ?thesis by (simp only: actor_turn_calls [symmetric] mset_append)
  qed (simp_all add: settle_send_calls)
  moreover have "mset (all_calls (rw_run addr (e # es) w)) = mset (all_calls (rw_step addr e w)) + mset (waited addr es (rw_step addr e w))"
    using Cons [of "rw_step addr e w"] by (simp add: rw_run_def)
  ultimately show ?case unfolding waited_Cons [of addr e es w] mset_append by (simp only: add.assoc)
qed (simp add: rw_run_def)

lemma rw_run_calls_in_order:
  assumes "\<forall>e \<in> set es. \<exists>a. e \<in> {ActorTurn a, PollSend 0}"
  shows "all_calls (rw_run addr es w) = all_calls w @ waited addr es w"
  using assms
proof (induction es arbitrary: w)
  case (Cons e es)
  have "all_calls (rw_step addr e w) = all_calls w @ waited addr [e] w"
  proof (cases e)
    case (ActorTurn a)
    then show ?thesis by (simp only: actor_turn_calls)
  next
    case (PollSend i)
    with Cons.prems have "i = 0" by auto
    with PollSend show ?thesis by (cases "rw_sends w") (auto simp: settle_send_def remove_nth_def all_calls_def)
  qed (use Cons.prems in auto)
  moreover have "all_calls (rw_run addr (e # es) w) = all_calls (rw_step addr e w) @ waited addr es (rw_step addr e w)"
    using Cons.IH [of "rw_step addr e w"] Cons.prems by (simp add: rw_run_def)
  ultimately show ?case unfolding waited_Cons [of addr e es w] by (simp only: append_assoc)
qed (simp add: rw_run_def)

text \<open>Where an answer comes from.\<close>

fun send_explained :: "gsb_addr \<Rightarrow> rw_event set \<Rightarrow> gsb_addr + nat \<Rightarrow> bool" where
  "send_explained addr E (Inr c) = (ActorTurn (EvTransport (Inr c)) \<in> E)"
| "send_explained addr E (Inl a) = (a = addr \<and> ActorTurn EvTimeout \<in> E)"

fun answer_explained :: "gsb_addr \<Rightarrow> rw_event set \<Rightarrow> gsb_error + nat \<Rightarrow> bool" where
  "answer_explained addr E (Inr c) = (ActorTurn (EvTransport (Inr c)) \<in> E)"
| "answer_explained addr E (Inl e) =
     (e = ConnectionTimeout addr \<and> ActorTurn EvTimeout \<in> E \<or> e = Cancelled \<and> (\<exists>i. DropSend i \<in> E))"

definition sends_explained :: "gsb_addr \<Rightarrow> rw_event set \<Rightarrow> rr_world \<Rightarrow> bool" where
  "sends_explained addr E w \<longleftrightarrow>
     (\<forall>s \<in> set (rw_sends w). send_explained addr E (snd s)) \<and> (\<forall>s \<in> set (rw_answers w). answer_explained addr E (snd s))"

lemma rr_step_sends:
  assumes "ActorTurn e \<in> E" and "s \<in> set (spawned_sends (snd (rr_step addr e r)))"
  shows "send_explained addr E (snd s)"
  using assms
  by (cases e) (auto simp: rr_handler_defs Let_def split: sum.splits option.splits update_service.splits if_splits)

lemma settle_send_explained:
  assumes "sends_explained addr E w" and "\<And>c. received c = Some c \<or> received c = None \<and> (\<exists>i. DropSend i \<in> E)"
  shows "sends_explained addr E (settle_send i received w)"
proof (cases "i < length (rw_sends w)")
  case True
  then have "send_explained addr E (snd (rw_sends w ! i))" using assms(1) by (simp add: sends_explained_def)
  then have "answer_explained addr E (await_connection (received (snd (rw_sends w ! i))))"
    using assms(2) [of "snd (rw_sends w ! i)"]
    by (cases "snd (rw_sends w ! i)") (auto simp: await_connection_def)
  moreover have "\<forall>s \<in> set (remove_nth i (rw_sends w)). send_explained addr E (snd s)"
    using assms(1) set_remove_nth [of i "rw_sends w"] unfolding sends_explained_def by blast
  ultimately show ?thesis
    using True assms(1) by (simp add: settle_send_def sends_explained_def split_beta)
qed (use assms(1) in \<open>simp add: settle_send_def\<close>)

lemma rw_run_explained:
  "sends_explained addr E w \<Longrightarrow> set es \<subseteq> E \<Longrightarrow> sends_explained addr E (rw_run addr es w)"
proof (induction es arbitrary: w)
  case (Cons e es)
  have "sends_explained addr E (rw_step addr e w)"
  proof (cases e)
    case (ActorTurn a)
    with Cons.prems have "\<forall>s \<in> set (spawned_sends (snd (rr_step addr a (rw_router w)))). send_explained addr E (snd s)"
      using rr_step_sends [of a E _ addr "rw_router w"] by simp
    with ActorTurn Cons.prems(1) show ?thesis by (auto simp: sends_explained_def split_beta)
  next
    case (PollSend i)
    with Cons.prems(1) show ?thesis by (simp add: settle_send_explained)
  next
    case (DropSend i)
    with Cons.prems have "\<exists>i. DropSend i \<in> E" by auto
    with DropSend Cons.prems(1) show ?thesis by (simp add: settle_send_explained)
  qed
  with Cons show ?case by (simp add: rw_run_def)
qed (simp add: rw_run_def)

section \<open>Properties\<close>

text \<open>
  C25. No call is lost or answered twice while the process is not connected. Take any sequence of
  connection attempts, failures, timeouts, restarts and calls, with the runtime polling or dropping the
  futures that answer the waiting calls as it likes. The calls that had to wait are then, each of them
  once, those that have seen an answer, those for which an answer is on its way, and those still waiting;
  and in the order of the calls, if no future is dropped and they are polled in the order in which they
  were spawned. A call that was given a connection was given one that had been made; one that failed did
  so because of a timeout, or because the runtime dropped its answer. A connection leaves nobody waiting,
  nor does a timeout without one; a restart leaves the waiting calls as they are.
\<close>

theorem waiting_calls_resolved_once:
  "let w = rw_run addr es (rw_start info);
       calls = map fst (rw_answers w) @ map fst (rw_sends w) @ rr_pending_calls (rw_router w)
   in mset (waited addr es (rw_start info)) = mset calls
    \<and> ((\<forall>e \<in> set es. \<exists>a. e \<in> {ActorTurn a, PollSend 0}) \<longrightarrow> waited addr es (rw_start info) = calls)
    \<and> (\<forall>tx c. (tx, Inr c) \<in> set (rw_answers w) \<longrightarrow> ActorTurn (EvTransport (Inr c)) \<in> set es)
    \<and> (\<forall>tx e. (tx, Inl e) \<in> set (rw_answers w) \<longrightarrow>
         e = ConnectionTimeout addr \<and> ActorTurn EvTimeout \<in> set es \<or> e = Cancelled \<and> (\<exists>i. DropSend i \<in> set es))
    \<and> rr_pending_calls (rw_router (rw_step addr (ActorTurn (EvTransport (Inr conn))) w)) = []
    \<and> (rr_connection (rw_router w) = None \<longrightarrow> rr_pending_calls (rw_router (rw_step addr (ActorTurn EvTimeout) w)) = [])
    \<and> rr_pending_calls (rw_router (rw_step addr (ActorTurn EvRestart) w)) = rr_pending_calls (rw_router w)"
proof -
  let ?w = "rw_run addr es (rw_start info)"
  have none: "all_calls (rw_start info) = []" by (simp add: all_calls_def rw_start_def remote_router_default_def)
  have "sends_explained addr (set es) ?w"
    by (rule rw_run_explained) (simp_all add: sends_explained_def rw_start_def)
  then have answers: "answer_explained addr (set es) v" if "(tx, v) \<in> set (rw_answers ?w)" for tx v
    using that unfolding sends_explained_def by (metis snd_conv)
  have once: "mset (waited addr es (rw_start info)) = mset (all_calls ?w)"
    using rw_run_calls [of addr es "rw_start info"] by (simp add: none)
  have ordered: "waited addr es (rw_start info) = all_calls ?w" if "\<forall>e \<in> set es. \<exists>a. e \<in> {ActorTurn a, PollSend 0}"
    using rw_run_calls_in_order [OF that, of addr "rw_start info"] by (simp add: none)
  show ?thesis
    unfolding Let_def all_calls_def [symmetric]
  proof (intro conjI allI impI)
    show "ActorTurn (EvTransport (Inr c)) \<in> set es" if "(tx, Inr c) \<in> set (rw_answers ?w)" for tx c
      using answers [OF that] by simp
    show "e = ConnectionTimeout addr \<and> ActorTurn EvTimeout \<in> set es \<or> e = Cancelled \<and> (\<exists>i. DropSend i \<in> set es)"
      if "(tx, Inl e) \<in> set (rw_answers ?w)" for tx e
      using answers [OF that] by simp
  qed (simp_all add: once ordered rr_handler_defs)
qed

text \<open>Two calls wait until the connection comes; the first has its answer, that of the second is on its way.\<close>

theorem waiting_calls_resolved_once_witness:
  "let es = map ActorTurn [EvStart False, EvCall 1, EvCall 2, EvTransport (Inr 5)] @ [PollSend 0];
       w = rw_run (Tcp ''h:1'') es (rw_start (client_info_new [] [] []))
   in [1, 2] = map fst (rw_answers w) @ map fst (rw_sends w) @ rr_pending_calls (rw_router w)
    \<and> rw_answers w = [(1, Inr 5)]"
proof -
  let ?es = "map ActorTurn [EvStart False, EvCall 1, EvCall 2, EvTransport (Inr 5)] @ [PollSend 0]"
  have "waited (Tcp ''h:1'') ?es (rw_start (client_info_new [] [] [])) = [1, 2]"
    by (simp add: rr_handler_defs rw_start_def remote_router_default_def settle_send_def Let_def)
  moreover have "rw_answers (rw_run (Tcp ''h:1'') ?es (rw_start (client_info_new [] [] []))) = [(1, Inr 5)]"
    by (simp add: rw_run_def rr_handler_defs rw_start_def remote_router_default_def settle_send_def Let_def
        await_connection_def)
  moreover have "\<forall>e \<in> set ?es. \<exists>a. e \<in> {ActorTurn a, PollSend 0}" by auto
  ultimately show ?thesis
    using waiting_calls_resolved_once [of "Tcp ''h:1''" ?es "client_info_new [] [] []"] by (simp only: Let_def)
qed

text \<open>
  The answer of a timeout is spawned on the context that is stopped at once: if the runtime drops what a
  stopping actor has spawned, the call sees that it was cancelled and not that the connection timed out.
\<close>

lemma timeout_may_be_seen_as_cancelled:
  "rw_answers (rw_run addr (map ActorTurn [EvStart False, EvCall 1, EvTimeout] @ [DropSend 0, ActorTurn EvRestart]) (rw_start info)) =
     [(1, Inl Cancelled)]"
  by (simp add: rw_run_def rr_handler_defs rw_start_def remote_router_default_def settle_send_def Let_def
      await_connection_def)

text \<open>
  A refused connection never times out its callers: when every attempt fails at once, the timer
  is cancelled each time, and however often the actor restarts, the waiting calls get no answer.
\<close>

lemma refused_connection_keeps_calls_waiting:
  "let attempt = [EvStart False, EvTransport (Inl ConnectionRefused), EvRestart];
       (r', fx) = rr_run addr (concat (replicate n attempt)) (r\<lparr>rr_connection := None\<rparr>)
   in rr_pending_calls r' = rr_pending_calls r \<and> spawned_sends fx = []"
proof -
  let ?attempt = "[EvStart False, EvTransport (Inl ConnectionRefused), EvRestart]"
  have "rr_pending_calls (fst (rr_run addr (concat (replicate n ?attempt)) r)) = rr_pending_calls r
      \<and> spawned_sends (snd (rr_run addr (concat (replicate n ?attempt)) r)) = []" for r
    by (induction n arbitrary: r)
       (simp_all add: split_beta rr_started_def try_connect_def transport_ready_def restarting_def Let_def)
  from this [of "r\<lparr>rr_connection := None\<rparr>"] show ?thesis
    by (simp add: Let_def split_beta)
qed

section \<open>The table of this process and the router's view of it\<close>

text \<open>
  The operations on the local table, each followed by what it tells the remote router. The
  notifications of \<^verbatim>\<open>unbind\<close> are delivered before anything else happens here, as when its future is
  awaited at once.
\<close>

datatype 'ty lr_op =
    OpBind string "'ty endpoint"
  | OpTryBindRaw string nat
  | OpUnbind string
  | OpUnbindExact string

fun lr_step :: "'ty lr_op \<Rightarrow> 'ty local_router \<Rightarrow> 'ty lr_turn" where
  "lr_step (OpBind addr ep) lr = bind_at addr ep lr"
| "lr_step (OpTryBindRaw addr a) lr = (case lr_try_bind_raw addr a lr of Inl _ \<Rightarrow> (lr, []) | Inr t \<Rightarrow> t)"
| "lr_step (OpUnbind addr) lr =
     (case lr_unbind addr lr of (addrs, lr1) \<Rightarrow> (lr1, snd (unbind_notify (\<lambda>_. Inr ()) (addrs \<noteq> []) addrs)))"
| "lr_step (OpUnbindExact addr) lr = snd (lr_unbind_exact addr lr)"

definition deliver_updates :: "update_service list \<Rightarrow> remote_router \<Rightarrow> remote_router" where
  "deliver_updates us r = fold (\<lambda>u r. fst (rr_update_service u r)) us r"

fun process_run :: "'ty lr_op list \<Rightarrow> 'ty local_router \<times> remote_router \<Rightarrow> 'ty local_router \<times> remote_router" where
  "process_run [] s = s"
| "process_run (op # ops) (lr, rr) =
     (case lr_step op lr of (lr1, us) \<Rightarrow> process_run ops (lr1, deliver_updates us rr))"

lemma update_bindings:
  "set (rr_local_bindings (fst (rr_update_service (Add a) r))) = insert a (set (rr_local_bindings r))"
  "set (rr_local_bindings (fst (rr_update_service (Remove a) r))) = set (rr_local_bindings r) - {a}"
  by (simp_all add: rr_update_service_def)

lemma deliver_removes:
  "set (rr_local_bindings (deliver_updates (map Remove as) r)) = set (rr_local_bindings r) - set as"
  unfolding deliver_updates_def
  by (induction as arbitrary: r) (auto simp: update_bindings)

lemma lr_step_mirror:
  assumes "set (rr_local_bindings rr) = dom (bound lr)"
  shows "set (rr_local_bindings (deliver_updates (snd (lr_step op lr)) rr)) = dom (bound (fst (lr_step op lr)))"
proof (cases op)
  case (OpBind addr ep)
  with assms show ?thesis
    by (simp add: deliver_updates_def bind_at_def bound_def update_bindings)
next
  case (OpTryBindRaw addr a)
  with assms show ?thesis
    by (simp add: lr_try_bind_raw_def deliver_updates_def bind_at_def bound_def update_bindings)
next
  case (OpUnbind addr)
  obtain addrs lr1 where u: "lr_unbind addr lr = (addrs, lr1)" by (metis surj_pair)
  have "set addrs = {a. starts_with a (unbind_pattern addr) \<and> bound lr a \<noteq> None}"
    using u unbind_addrs_iff [of _ addr lr] by (auto simp: lr_unbind_def Let_def)
  moreover have "bound lr1 a = (if starts_with a (unbind_pattern addr) then None else bound lr a)" for a
    using lr_unbind_bound [of addr lr a] u by simp
  ultimately show ?thesis
    using OpUnbind u assms by (auto simp: unbind_notify_all deliver_removes split: if_splits)
next
  case (OpUnbindExact addr)
  obtain old h where "pb_remove addr (handlers lr) = (old, h)" by (metis surj_pair)
  moreover from this have "old = bound lr addr" "pb_content h = (bound lr)(addr := None)"
    using pb.rem_old [of addr "handlers lr"] pb.rem_content [of addr "handlers lr"]
    by (simp_all add: bound_def)
  ultimately show ?thesis
    using OpUnbindExact assms
    by (auto simp: lr_unbind_exact_def deliver_updates_def update_bindings bound_def split: option.splits)
qed

lemma process_run_mirror:
  "set (rr_local_bindings rr) = dom (bound lr) \<Longrightarrow>
   set (rr_local_bindings (snd (process_run ops (lr, rr)))) = dom (bound (fst (process_run ops (lr, rr))))"
proof (induction ops arbitrary: lr rr)
  case (Cons op ops)
  show ?case
    using Cons.IH [OF lr_step_mirror [OF Cons.prems, of op]] by (simp add: split_beta)
qed simp

text \<open>
  What is bound in this process is what the router is told: after any sequence of bindings and
  unbindings (each awaited), the addresses the remote router remembers are exactly those bound in
  the local table, and exactly those are announced on the next connection.
\<close>

lemma announced_addresses_are_bound:
  "case process_run ops (local_router_new, remote_router_default info) of
     (lr, rr) \<Rightarrow> set (rr_local_bindings rr) = dom (bound lr)
       \<and> {s. BindOn conn s \<in> set (snd (transport_ready (Inr conn) rr))} = dom (bound lr)"
proof -
  obtain lr rr where run: "process_run ops (local_router_new, remote_router_default info) = (lr, rr)"
    by (metis surj_pair)
  have "set (rr_local_bindings (remote_router_default info)) = dom (bound local_router_new)"
    by (simp add: remote_router_default_def local_router_new_def bound_def)
  from process_run_mirror [OF this, of ops] run
  have "set (rr_local_bindings rr) = dom (bound lr)" by simp
  then show ?thesis
    by (auto simp: run transport_ready_def clean_pending_calls_def)
qed

text \<open>
  The notifications of \<^verbatim>\<open>unbind\<close> are sent only when its future is polled, after the local table
  has changed. If the address is bound again in between, the stale removal arrives after the new
  announcement: the service is bound here, but the remote router has forgotten it and no later
  connection announces it.
\<close>

lemma unbind_races_with_bind:
  "let (addrs, lr1) = lr_unbind ''/a'' (fst (bind_at ''/a/m'' ep local_router_new));
       rr = deliver_updates [Add ''/a/m''] (remote_router_default info);
       (lr2, adds) = bind_at ''/a/m'' ep2 lr1;
       rr2 = deliver_updates (adds @ snd (unbind_notify (\<lambda>_. Inr ()) True addrs)) rr
   in bound lr2 ''/a/m'' = Some ep2 \<and> ''/a/m'' \<notin> set (rr_local_bindings rr2)"
proof -
  have "''/a/m'' \<in> set (unbind_addrs ''/a'' (fst (bind_at ''/a/m'' ep local_router_new)))"
    by (simp add: unbind_addrs_iff unbind_pattern_def starts_with_def ends_with_char_def)
  then show ?thesis
    using deliver_removes [of "unbind_addrs ''/a'' (fst (bind_at ''/a/m'' ep local_router_new))"]
    by (simp add: Let_def split_beta lr_unbind_def unbind_notify_all deliver_updates_def)
qed

end
