(* ===== verification/Services.thy ===== *)
theory Services
  imports Local_Router
begin

text \<open>
  How a process offers services: the binding functions of \<^verbatim>\<open>src/typed.rs\<close>, \<^verbatim>\<open>src/untyped.rs\<close> and
  \<^verbatim>\<open>src/actix_rpc.rs\<close>, and the actors that wrap the user's closures (\<^verbatim>\<open>src/local_router/into_actix.rs\<close>,
  \<^verbatim>\<open>raw_actor\<close> in \<^verbatim>\<open>untyped.rs\<close>).

  A process is its local table, the actors it has started and what it has told the remote router. The
  user's closures are functions; since a closure may keep state, its function is the one of the moment
  of the call. A stream is the list of its items.
\<close>

section \<open>Handlers\<close>

type_synonym ('v, 'r) rpc_handler = "string \<Rightarrow> 'v \<Rightarrow> 'r"
type_synonym ('v, 'r) rpc_stream_handler = "string \<Rightarrow> 'v \<Rightarrow> 'r list"
type_synonym raw_handler = "string \<Rightarrow> string \<Rightarrow> bytes \<Rightarrow> bool \<Rightarrow> gsb_error + bytes"
type_synonym raw_stream_handler = "string \<Rightarrow> string \<Rightarrow> bytes \<Rightarrow> bool \<Rightarrow> chunks"

text \<open>A plain closure is a handler that ignores the caller; \<^verbatim>\<open>WithCaller\<close> is one that does not.\<close>

definition closure_handler :: "('v \<Rightarrow> 'r) \<Rightarrow> ('v, 'r) rpc_handler" where
  "closure_handler f = (\<lambda>_ msg. f msg)"

definition caller_handler :: "(string \<Rightarrow> 'v \<Rightarrow> 'r) \<Rightarrow> ('v, 'r) rpc_handler" where
  "caller_handler f = (\<lambda>caller msg. f caller msg)"

definition closure_stream_handler :: "('v \<Rightarrow> 'r list) \<Rightarrow> ('v, 'r) rpc_stream_handler" where
  "closure_stream_handler f = (\<lambda>_ msg. f msg)"

definition raw_closure_handler :: "(string \<Rightarrow> string \<Rightarrow> bytes \<Rightarrow> gsb_error + bytes) \<Rightarrow> raw_handler" where
  "raw_closure_handler f = (\<lambda>caller addr msg _. f caller addr msg)"

definition raw_closure_stream_handler :: "(string \<Rightarrow> string \<Rightarrow> bytes \<Rightarrow> chunks) \<Rightarrow> raw_stream_handler" where
  "raw_closure_stream_handler f = (\<lambda>caller addr msg _. f caller addr msg)"

text \<open>\<^verbatim>\<open>()\<close> as a stream handler: there is no endpoint.\<close>

definition unit_stream_handler :: raw_stream_handler where
  "unit_stream_handler = (\<lambda>_ addr _ _. [Inl (NoEndpoint addr)])"

definition fn4_handler :: "raw_handler \<Rightarrow> raw_handler" where
  "fn4_handler f = (\<lambda>caller addr msg no_reply. f caller addr msg no_reply)"

definition fn4_stream_handler :: "raw_stream_handler \<Rightarrow> raw_stream_handler" where
  "fn4_stream_handler f = (\<lambda>caller addr msg no_reply. f caller addr msg no_reply)"

section \<open>Actors\<close>

text \<open>
  \<^verbatim>\<open>StreamExt::forward\<close> of the \<^verbatim>\<open>futures\<close> crate, over the adapter \<^verbatim>\<open>SinkExt::with\<close>: which items of a stream
  reach the sink. All do if there is no error. An error ends the forwarding, and nothing that comes after
  it is sent; how much of what came before it has got through the adapter by then is left open.
\<close>

type_synonym forward = "(gsb_error + response_chunk) list \<Rightarrow> response_chunk list"

definition before_error :: "(gsb_error + response_chunk) list \<Rightarrow> response_chunk list" where
  "before_error items = map projr (takeWhile (\<lambda>i. \<not> isl i) items)"

definition forward_law :: "forward \<Rightarrow> bool" where
  "forward_law fwd \<longleftrightarrow>
     (\<forall>items. (\<exists>n. fwd items = take n (before_error items))
       \<and> ((\<forall>i \<in> set items. \<not> isl i) \<longrightarrow> fwd items = map projr items))"

text \<open>The handlers of an actor the user has written, one per kind of message.\<close>

record ('v, 'r) user_actor =
  on_envelope :: "'v rpc_envelope \<Rightarrow> 'r"
  on_stream_call :: "string \<Rightarrow> string \<Rightarrow> 'v \<Rightarrow> 'r list \<times> (gsb_error + unit)"
  on_raw_call :: "rpc_raw_call \<Rightarrow> gsb_error + bytes"
  on_raw_stream_call :: "string \<Rightarrow> string \<Rightarrow> bytes \<Rightarrow> chunks"

datatype ('v, 'r) actor =
    RpcHandlerWrapper "('v, 'r) rpc_handler"
  | RpcStreamHandlerWrapper "('v, 'r) rpc_stream_handler"
  | RawHandlerActor forward raw_handler raw_stream_handler
  | UserActor "('v, 'r) user_actor"

definition wrapper_handle :: "('v, 'r) rpc_handler \<Rightarrow> 'v rpc_envelope \<Rightarrow> 'r" where
  "wrapper_handle h msg = h (env_caller msg) (env_body msg)"

text \<open>\<^verbatim>\<open>send_all\<close> into the reply channel: \<open>gone\<close> is after how many items the receiver went away, if it
  did. The result is what was received and how the handling ended.\<close>

definition stream_wrapper_handle ::
  "nat option \<Rightarrow> ('v, 'r) rpc_stream_handler \<Rightarrow> string \<Rightarrow> 'v \<Rightarrow> 'r list \<times> (gsb_error + unit)" where
  "stream_wrapper_handle gone h caller body =
     (let result = h caller body
      in case gone of
           None \<Rightarrow> (result, Inr ())
         | Some n \<Rightarrow> if n < length result
                     then (take n result, Inl (GsbFailure ''send failed because receiver is gone''))
                     else (result, Inr ()))"

definition raw_actor_call :: "raw_handler \<Rightarrow> rpc_raw_call \<Rightarrow> gsb_error + bytes" where
  "raw_actor_call h msg = h (rc_caller msg) (rc_addr msg) (rc_body msg) (rc_no_reply msg)"

text \<open>\<^verbatim>\<open>stream.forward(sink)\<close>, spawned, its result dropped (\<^verbatim>\<open>.map(|_| ())\<close>). The sink sends every chunk it
  gets as a success (\<^verbatim>\<open>.with(|r| ready(Ok(Ok(r))))\<close>).\<close>

definition raw_actor_stream_call :: "forward \<Rightarrow> raw_stream_handler \<Rightarrow> string \<Rightarrow> string \<Rightarrow> bytes \<Rightarrow> chunks" where
  "raw_actor_stream_call fwd s caller addr body = map Inr (fwd (s caller addr body False))"

section \<open>Processes\<close>

record ('ty, 'v, 'r) process =
  pr_router :: "'ty local_router"
  pr_actors :: "('v, 'r) actor list"
  pr_updates :: "update_service list"

definition process_new :: "('ty, 'v, 'r) process" where
  "process_new = \<lparr>pr_router = local_router_new, pr_actors = [], pr_updates = []\<rparr>"

definition start_actor :: "('v, 'r) actor \<Rightarrow> ('ty, 'v, 'r) process \<Rightarrow> nat \<times> ('ty, 'v, 'r) process" where
  "start_actor act p = (length (pr_actors p), p\<lparr>pr_actors := pr_actors p @ [act]\<rparr>)"

text \<open>\<^verbatim>\<open>router().lock().unwrap()\<close> followed by an operation that tells the remote router.\<close>

definition with_router ::
  "('ty local_router \<Rightarrow> 'ty lr_turn) \<Rightarrow> ('ty, 'v, 'r) process \<Rightarrow> ('ty, 'v, 'r) process" where
  "with_router f p = (case f (pr_router p) of (lr, us) \<Rightarrow> p\<lparr>pr_router := lr, pr_updates := pr_updates p @ us\<rparr>)"

subsection \<open>\<^verbatim>\<open>typed\<close>\<close>

definition typed_bind ::
  "'ty \<Rightarrow> string \<Rightarrow> string \<Rightarrow> ('v, 'r) rpc_handler \<Rightarrow> ('ty, 'v, 'r) process \<Rightarrow> ('ty, 'v, 'r) process" where
  "typed_bind ty ident addr h p =
     (case start_actor (RpcHandlerWrapper h) p of (a, p1) \<Rightarrow> with_router (lr_bind ty ident addr a) p1)"

definition typed_bind_stream ::
  "'ty \<Rightarrow> string \<Rightarrow> string \<Rightarrow> ('v, 'r) rpc_stream_handler \<Rightarrow> ('ty, 'v, 'r) process \<Rightarrow> ('ty, 'v, 'r) process" where
  "typed_bind_stream ty ident addr h p =
     (case start_actor (RpcStreamHandlerWrapper h) p of (a, p1) \<Rightarrow> with_router (lr_bind_stream ty ident addr a) p1)"

definition bind_with_caller ::
  "'ty \<Rightarrow> string \<Rightarrow> string \<Rightarrow> (string \<Rightarrow> 'v \<Rightarrow> 'r) \<Rightarrow> ('ty, 'v, 'r) process \<Rightarrow> ('ty, 'v, 'r) process" where
  "bind_with_caller ty ident addr f p = typed_bind ty ident addr (caller_handler f) p"

text \<open>\<^verbatim>\<open>unbind\<close>, awaited, with a remote router that answers.\<close>

definition typed_unbind :: "string \<Rightarrow> ('ty, 'v, 'r) process \<Rightarrow> (gsb_error + bool) \<times> ('ty, 'v, 'r) process" where
  "typed_unbind addr p =
     (case lr_unbind addr (pr_router p) of (addrs, lr) \<Rightarrow>
        case unbind_notify (\<lambda>_. Inr ()) (addrs \<noteq> []) addrs of (answer, us) \<Rightarrow>
          (answer, p\<lparr>pr_router := lr, pr_updates := pr_updates p @ us\<rparr>))"

record ('db, 'aux) service_binder =
  sb_addr :: string
  sb_db :: 'db
  sb_aux :: 'aux

definition binder_new :: "string \<Rightarrow> 'db \<Rightarrow> 'aux \<Rightarrow> ('db, 'aux) service_binder" where
  "binder_new addr db aux = \<lparr>sb_addr = addr, sb_db = db, sb_aux = aux\<rparr>"

definition binder_bind ::
  "('db, 'aux) service_binder \<Rightarrow> 'ty \<Rightarrow> string \<Rightarrow> ('db \<Rightarrow> string \<Rightarrow> 'v \<Rightarrow> 'r)
   \<Rightarrow> ('ty, 'v, 'r) process \<Rightarrow> ('ty, 'v, 'r) process" where
  "binder_bind b ty ident f p = bind_with_caller ty ident (sb_addr b) (\<lambda>addr msg. f (sb_db b) addr msg) p"

definition binder_bind_with_processor ::
  "('db, 'aux) service_binder \<Rightarrow> 'ty \<Rightarrow> string \<Rightarrow> ('db \<Rightarrow> 'aux \<Rightarrow> string \<Rightarrow> 'v \<Rightarrow> 'r)
   \<Rightarrow> ('ty, 'v, 'r) process \<Rightarrow> ('ty, 'v, 'r) process" where
  "binder_bind_with_processor b ty ident f p =
     bind_with_caller ty ident (sb_addr b) (\<lambda>addr msg. f (sb_db b) (sb_aux b) addr msg) p"

subsection \<open>\<^verbatim>\<open>untyped\<close>\<close>

text \<open>One actor serves both recipients.\<close>

definition raw_recipients ::
  "forward \<Rightarrow> raw_handler \<Rightarrow> raw_stream_handler \<Rightarrow> ('ty, 'v, 'r) process \<Rightarrow> nat \<times> nat \<times> ('ty, 'v, 'r) process" where
  "raw_recipients fwd h s p = (case start_actor (RawHandlerActor fwd h s) p of (a, p1) \<Rightarrow> (a, a, p1))"

definition ut_subscribe ::
  "forward \<Rightarrow> string \<Rightarrow> raw_handler \<Rightarrow> raw_stream_handler \<Rightarrow> ('ty, 'v, 'r) process \<Rightarrow> ('ty, 'v, 'r) process" where
  "ut_subscribe fwd addr rpc stream p =
     (case raw_recipients fwd rpc stream p of (rr, rs, p1) \<Rightarrow> with_router (lr_bind_raw_dual addr rr rs) p1)"

subsection \<open>\<^verbatim>\<open>actix_rpc\<close>\<close>

text \<open>The recipients are actors the user has started.\<close>

definition ar_bind :: "'ty \<Rightarrow> string \<Rightarrow> string \<Rightarrow> nat \<Rightarrow> ('ty, 'v, 'r) process \<Rightarrow> ('ty, 'v, 'r) process" where
  "ar_bind ty ident addr a p = with_router (lr_bind_actor ty ident addr a) p"

definition ar_binds :: "'ty \<Rightarrow> string \<Rightarrow> string \<Rightarrow> nat \<Rightarrow> ('ty, 'v, 'r) process \<Rightarrow> ('ty, 'v, 'r) process" where
  "ar_binds ty ident addr a p = with_router (lr_bind_stream_actor ty ident addr a) p"

definition ar_bind_raw :: "string \<Rightarrow> nat \<Rightarrow> ('ty, 'v, 'r) process \<Rightarrow> ('ty, 'v, 'r) process" where
  "ar_bind_raw addr a p = with_router (lr_bind_raw addr a) p"

definition ar_try_bind_raw ::
  "string \<Rightarrow> nat \<Rightarrow> ('ty, 'v, 'r) process \<Rightarrow> (gsb_error + unit) \<times> ('ty, 'v, 'r) process" where
  "ar_try_bind_raw addr a p =
     (case lr_try_bind_raw addr a (pr_router p) of
        Inl e \<Rightarrow> (Inl e, p)
      | Inr t \<Rightarrow> (Inr (), with_router (\<lambda>_. t) p))"

definition ar_unbind_raw :: "string \<Rightarrow> ('ty, 'v, 'r) process \<Rightarrow> bool \<times> ('ty, 'v, 'r) process" where
  "ar_unbind_raw addr p =
     (case lr_unbind_exact addr (pr_router p) of (ok, t) \<Rightarrow> (ok, with_router (\<lambda>_. t) p))"

section \<open>The actors behind the table\<close>

text \<open>What the actors of a process answer; \<open>remote\<close> and \<open>remote_stream\<close> stand for the remote router.
  An actor that is not there has a closed mailbox.\<close>

definition actor_at :: "('ty, 'v, 'r) process \<Rightarrow> nat \<Rightarrow> ('v, 'r) actor option" where
  "actor_at p a = (if a < length (pr_actors p) then Some (pr_actors p ! a) else None)"

definition process_actors ::
  "(rpc_raw_call \<Rightarrow> mailbox_error + (gsb_error + bytes)) \<Rightarrow> (string \<Rightarrow> string \<Rightarrow> bytes \<Rightarrow> mailbox_error + chunks)
   \<Rightarrow> ('ty, 'v, 'r) process \<Rightarrow> ('v, 'r) actors" where
  "process_actors remote remote_stream p = \<lparr>
     ask_typed = (\<lambda>a msg. case actor_at p a of
         Some (RpcHandlerWrapper h) \<Rightarrow> Inr (wrapper_handle h msg)
       | Some (UserActor u) \<Rightarrow> Inr (on_envelope u msg)
       | _ \<Rightarrow> Inl MailboxErrorClosed),
     ask_stream = (\<lambda>a caller addr body. case actor_at p a of
         Some (RpcStreamHandlerWrapper h) \<Rightarrow> map_prod id Inr (stream_wrapper_handle None h caller body)
       | Some (UserActor u) \<Rightarrow> map_prod id Inr (on_stream_call u caller addr body)
       | _ \<Rightarrow> ([], Inl MailboxErrorClosed)),
     ask_raw = (\<lambda>a msg. case actor_at p a of
         Some (RawHandlerActor fwd h s) \<Rightarrow> Inr (raw_actor_call h msg)
       | Some (UserActor u) \<Rightarrow> Inr (on_raw_call u msg)
       | _ \<Rightarrow> Inl MailboxErrorClosed),
     ask_raw_stream = (\<lambda>a caller addr body. case actor_at p a of
         Some (RawHandlerActor fwd h s) \<Rightarrow> raw_actor_stream_call fwd s caller addr body
       | Some (UserActor u) \<Rightarrow> on_raw_stream_call u caller addr body
       | _ \<Rightarrow> []),
     ask_remote = remote, ask_remote_stream = remote_stream\<rparr>"

text \<open>\<^verbatim>\<open>RpcEndpoint\<close> for \<^verbatim>\<open>typed::Endpoint\<close>, and the calls of \<^verbatim>\<open>actix_rpc::Endpoint\<close>.\<close>

definition rpc_endpoint_send where
  "rpc_endpoint_send sd w ty ident addr msg lr = ep_call sd w ty ident addr msg lr"

definition rpc_endpoint_send_as where
  "rpc_endpoint_send_as sd w ty ident addr caller msg lr = ep_call_as sd w ty ident addr caller msg lr"

definition ar_send where
  "ar_send sd w ty ident addr msg lr = lr_forward sd w ty ident addr (envelope_local msg) lr"

definition ar_send_as where
  "ar_send_as sd w ty ident addr caller msg lr = lr_forward sd w ty ident addr (with_caller caller msg) lr"

definition ar_push where
  "ar_push sd w ty ident addr msg lr = lr_push sd w ty ident addr (envelope_local msg) lr"

definition ar_push_as where
  "ar_push_as sd w ty ident addr caller msg lr = lr_push sd w ty ident addr (with_caller caller msg) lr"

definition ar_call_stream where
  "ar_call_stream sd w ty ident addr msg lr = lr_streaming_forward sd w ty ident addr msg lr"

section \<open>What stays bound\<close>

text \<open>Everything a process can do with its table.\<close>

datatype ('ty, 'v, 'r) process_op =
    PBind 'ty string string "('v, 'r) rpc_handler"
  | PBindStream 'ty string string "('v, 'r) rpc_stream_handler"
  | PSubscribe forward string raw_handler raw_stream_handler
  | PStartUser "('v, 'r) user_actor"
  | PBindActor 'ty string string nat
  | PBindStreamActor 'ty string string nat
  | PBindRaw string nat
  | PTryBindRaw string nat
  | PUnbind string
  | PUnbindRaw string

fun process_step :: "('ty, 'v, 'r) process_op \<Rightarrow> ('ty, 'v, 'r) process \<Rightarrow> ('ty, 'v, 'r) process" where
  "process_step (PBind ty ident addr h) p = typed_bind ty ident addr h p"
| "process_step (PBindStream ty ident addr h) p = typed_bind_stream ty ident addr h p"
| "process_step (PSubscribe fwd addr h s) p = ut_subscribe fwd addr h s p"
| "process_step (PStartUser u) p = snd (start_actor (UserActor u) p)"
| "process_step (PBindActor ty ident addr a) p = ar_bind ty ident addr a p"
| "process_step (PBindStreamActor ty ident addr a) p = ar_binds ty ident addr a p"
| "process_step (PBindRaw addr a) p = ar_bind_raw addr a p"
| "process_step (PTryBindRaw addr a) p = snd (ar_try_bind_raw addr a p)"
| "process_step (PUnbind addr) p = snd (typed_unbind addr p)"
| "process_step (PUnbindRaw addr) p = snd (ar_unbind_raw addr p)"

text \<open>Which operations can change what is bound at an address.\<close>

fun touches :: "('ty, 'v, 'r) process_op \<Rightarrow> string \<Rightarrow> bool" where
  "touches (PBind ty ident addr h) k \<longleftrightarrow> addr @ ''/'' @ ident = k"
| "touches (PBindStream ty ident addr h) k \<longleftrightarrow> addr @ ''/'' @ ident = k"
| "touches (PSubscribe fwd addr h s) k \<longleftrightarrow> addr = k"
| "touches (PStartUser u) k \<longleftrightarrow> False"
| "touches (PBindActor ty ident addr a) k \<longleftrightarrow> addr @ ''/'' @ ident = k"
| "touches (PBindStreamActor ty ident addr a) k \<longleftrightarrow> addr @ ''/'' @ ident = k"
| "touches (PBindRaw addr a) k \<longleftrightarrow> addr = k"
| "touches (PTryBindRaw addr a) k \<longleftrightarrow> False"
| "touches (PUnbind addr) k \<longleftrightarrow> starts_with k (unbind_pattern addr)"
| "touches (PUnbindRaw addr) k \<longleftrightarrow> addr = k"

definition bound_in :: "('ty, 'v, 'r) process \<Rightarrow> string \<Rightarrow> 'ty endpoint option" where
  "bound_in p = bound (pr_router p)"

lemma with_router_fields [simp]:
  "bound_in (with_router f p) = bound (fst (f (pr_router p)))"
  "pr_actors (with_router f p) = pr_actors p"
  "pr_updates (with_router f p) = pr_updates p @ snd (f (pr_router p))"
  by (simp_all add: with_router_def bound_in_def split_beta)

lemma start_actor_fields [simp]:
  "fst (start_actor act p) = length (pr_actors p)"
  "pr_router (snd (start_actor act p)) = pr_router p"
  "pr_actors (snd (start_actor act p)) = pr_actors p @ [act]"
  by (simp_all add: start_actor_def)

lemma bind_at_fst [simp]: "bound (fst (bind_at addr ep lr)) = (bound lr)(addr \<mapsto> ep)"
  by simp

lemmas binding_defs = typed_bind_def typed_bind_stream_def bind_with_caller_def ut_subscribe_def raw_recipients_def
  ar_bind_def ar_binds_def ar_bind_raw_def lr_bind_def lr_bind_stream_def lr_bind_actor_def
  lr_bind_stream_actor_def lr_bind_raw_def lr_bind_raw_dual_def

lemma typed_bind_effect:
  "bound_in (typed_bind ty ident addr h p) = (bound_in p)(addr @ ''/'' @ ident \<mapsto> TypedCall ty (length (pr_actors p)))"
  "pr_actors (typed_bind ty ident addr h p) = pr_actors p @ [RpcHandlerWrapper h]"
  by (simp_all add: binding_defs split_beta bound_in_def [of p] start_actor_def)

lemma try_bind_raw_effect:
  "ar_try_bind_raw addr a p =
     (if bound_in p addr \<noteq> None then (Inl (GsbAlreadyRegistered addr), p)
      else (Inr (), with_router (bind_at addr (RawCall a)) p))"
  using pb_keys_dom [of "handlers (pr_router p)"]
  by (auto simp: ar_try_bind_raw_def lr_try_bind_raw_def list_ex_iff bound_in_def bound_def with_router_def)

lemma unbind_raw_effect:
  "fst (ar_unbind_raw addr p) = (bound_in p addr \<noteq> None)"
  "bound_in (snd (ar_unbind_raw addr p)) = (bound_in p)(addr := None)"
  "pr_actors (snd (ar_unbind_raw addr p)) = pr_actors p"
proof -
  obtain old h where rem: "pb_remove addr (handlers (pr_router p)) = (old, h)" by (metis surj_pair)
  then have "old = bound_in p addr" "pb_content h = (bound_in p)(addr := None)"
    using pb.rem_old [of addr "handlers (pr_router p)"] pb.rem_content [of addr "handlers (pr_router p)"]
    by (simp_all add: bound_in_def bound_def)
  with rem show "fst (ar_unbind_raw addr p) = (bound_in p addr \<noteq> None)"
    "bound_in (snd (ar_unbind_raw addr p)) = (bound_in p)(addr := None)"
    "pr_actors (snd (ar_unbind_raw addr p)) = pr_actors p"
    by (auto simp: ar_unbind_raw_def lr_unbind_exact_def bound_def split_beta split: option.splits)
qed

lemma typed_unbind_effect:
  "bound_in (snd (typed_unbind addr p)) k = (if starts_with k (unbind_pattern addr) then None else bound_in p k)"
  "pr_actors (snd (typed_unbind addr p)) = pr_actors p"
  using lr_unbind_bound [of addr "pr_router p" k]
  by (simp_all add: typed_unbind_def bound_in_def split_beta)

text \<open>
  A host of services: what is offered at an address survives every operation that does not touch the
  address, hence every sequence of such operations.
\<close>

locale service_host =
  fixes host_step :: "'op \<Rightarrow> 'p \<Rightarrow> 'p" and offers :: "'p \<Rightarrow> 'k \<Rightarrow> 'h \<Rightarrow> bool"
    and op_touches :: "'op \<Rightarrow> 'k \<Rightarrow> bool"
  assumes frame: "offers p k h \<Longrightarrow> \<not> op_touches op k \<Longrightarrow> offers (host_step op p) k h"
begin

lemma still_offers:
  "offers p k h \<Longrightarrow> list_all (\<lambda>op. \<not> op_touches op k) ops \<Longrightarrow> offers (fold host_step ops p) k h"
  by (induction ops arbitrary: p) (auto intro: frame)

end

text \<open>At the address \<open>k\<close> a process has the endpoint \<open>ep\<close>, and its actor \<open>a\<close> is running as \<open>act\<close>.\<close>

definition offers_actor ::
  "('ty, 'v, 'r) process \<Rightarrow> string \<Rightarrow> 'ty endpoint \<times> nat \<times> ('v, 'r) actor \<Rightarrow> bool" where
  "offers_actor p k h = (case h of (ep, a, act) \<Rightarrow> bound_in p k = Some ep \<and> actor_at p a = Some act)"

lemma actor_at_append: "actor_at p a = Some act \<Longrightarrow> pr_actors p' = pr_actors p @ acts \<Longrightarrow> actor_at p' a = Some act"
  by (auto simp: actor_at_def nth_append split: if_splits)

lemma process_step_actors: "\<exists>acts. pr_actors (process_step op p) = pr_actors p @ acts"
  by (cases op) (simp_all add: binding_defs split_beta try_bind_raw_effect unbind_raw_effect typed_unbind_effect)

lemma process_step_bound:
  "bound_in p k = Some ep \<Longrightarrow> \<not> touches op k \<Longrightarrow> bound_in (process_step op p) k = Some ep"
proof (cases op)
  case (PUnbind addr)
  then show "bound_in p k = Some ep \<Longrightarrow> \<not> touches op k \<Longrightarrow> ?thesis" by (simp add: typed_unbind_effect)
next
  case (PUnbindRaw addr)
  then show "bound_in p k = Some ep \<Longrightarrow> \<not> touches op k \<Longrightarrow> ?thesis" by (simp add: unbind_raw_effect)
qed (auto simp: binding_defs split_beta try_bind_raw_effect bound_in_def start_actor_def with_router_def
    bind_at_def bound_def)

lemma process_step_frame:
  assumes "offers_actor p k h" and "\<not> touches op k"
  shows "offers_actor (process_step op p) k h"
proof -
  obtain acts where "pr_actors (process_step op p) = pr_actors p @ acts"
    using process_step_actors by blast
  moreover obtain ep a act where "h = (ep, a, act)" by (cases h)
  ultimately show ?thesis
    using assms process_step_bound [of p k ep op] actor_at_append [of p a act "process_step op p" acts]
    by (simp add: offers_actor_def)
qed

interpretation host: service_host process_step offers_actor touches
  by unfold_locales (rule process_step_frame)

section \<open>Calling what is bound\<close>

lemma slot_at_bound: "k \<noteq> [] \<Longrightarrow> bound_in p k = Some ep \<Longrightarrow> slot_at (pr_router p) k = Some ep"
  unfolding slot_at_get bound_in_def bound_def by (rule pb.lookup_exact)

lemma typed_bind_offers:
  "offers_actor (typed_bind ty ident addr h p) (addr @ ''/'' @ ident)
     (TypedCall ty (length (pr_actors p)), length (pr_actors p), RpcHandlerWrapper h)"
  by (simp add: offers_actor_def typed_bind_effect actor_at_def nth_append)

lemma offered_typed_calls:
  assumes "offers_actor p (addr @ ''/'' @ ident) (TypedCall ty a, a, RpcHandlerWrapper h)"
  shows "lr_forward sd (process_actors remote rs p) ty ident addr msg (pr_router p) =
           Some (Inr (h (env_caller msg) (env_body msg)))"
    and "lr_push sd (process_actors remote rs p) ty ident addr msg (pr_router p) = Some (Inr ())"
    and "lr_forward_bytes sd (process_actors remote rs p) (addr @ ''/'' @ ident) caller body no_reply (pr_router p) =
           (case dec_msg sd body of
              Inl e \<Rightarrow> Inl (BadContent e)
            | Inr v \<Rightarrow> map_sum from_encode_error id (enc_res sd (h caller v)))"
    and "lr_forward_bytes_local sd (process_actors remote rs p) (addr @ ''/'' @ ident) caller body no_reply (pr_router p) =
           [map_sum id FullChunk (case dec_msg sd body of
              Inl e \<Rightarrow> Inl (BadContent e)
            | Inr v \<Rightarrow> map_sum from_encode_error id (enc_res sd (h caller v)))]"
  using assms slot_at_bound [of "addr @ ''/'' @ ident" p "TypedCall ty a"]
  by (auto simp: offers_actor_def lr_forward_def lr_push_def lr_forward_bytes_def lr_forward_bytes_local_def
      typed_answer_def process_actors_def wrapper_handle_def with_caller_def Let_def split: sum.splits)

lemma typed_bind_stream_offers:
  "offers_actor (typed_bind_stream ty ident addr h p) (addr @ ''/'' @ ident)
     (TypedStream ty (length (pr_actors p)), length (pr_actors p), RpcStreamHandlerWrapper h)"
  by (simp add: offers_actor_def binding_defs split_beta actor_at_def nth_append)

lemma offered_stream_calls:
  assumes "offers_actor p (addr @ ''/'' @ ident) (TypedStream ty a, a, RpcStreamHandlerWrapper h)"
    and "dec_msg sd body = Inr v"
  shows "lr_forward_bytes_local sd (process_actors remote rs p) (addr @ ''/'' @ ident) caller body False (pr_router p) =
           map (\<lambda>r. map_sum from_encode_error Part (enc_res sd r)) (h caller v)"
    and "lr_streaming_forward sd (process_actors remote rs p) ty ident addr v (pr_router p) = Some (map Inr (h ''local'' v))"
  using assms slot_at_bound [of "addr @ ''/'' @ ident" p "TypedStream ty a"]
  by (auto simp: offers_actor_def lr_forward_bytes_local_def lr_streaming_forward_def slot_streaming_forward_def
      process_actors_def stream_wrapper_handle_def Let_def)

lemma subscribe_offers:
  "offers_actor (ut_subscribe fwd addr h s p) addr
     (DualRaw (length (pr_actors p)) (length (pr_actors p)), length (pr_actors p), RawHandlerActor fwd h s)"
  by (simp add: offers_actor_def binding_defs split_beta actor_at_def nth_append)

lemma offered_raw_calls:
  assumes "addr \<noteq> []" and "offers_actor p addr (DualRaw a a, a, RawHandlerActor fwd h s)"
  shows "lr_forward_bytes sd (process_actors remote rs p) addr caller body no_reply (pr_router p) = h caller addr body no_reply"
    and "lr_streaming_forward_bytes sd (process_actors remote rs p) addr caller body (pr_router p) =
           map Inr (fwd (s caller addr body False))"
    and "lr_forward_bytes_local sd (process_actors remote rs p) addr caller body no_reply (pr_router p) =
           (if no_reply then [map_sum id FullChunk (h caller addr body True)] else map Inr (fwd (s caller addr body False)))"
  using assms slot_at_bound [of addr p "DualRaw a a"]
  by (auto simp: offers_actor_def lr_forward_bytes_def lr_streaming_forward_bytes_def lr_forward_bytes_local_def
      process_actors_def raw_actor_call_def raw_actor_stream_call_def flatten_answer_def Let_def)

section \<open>Properties\<close>

text \<open>
  C26. A bound closure answers. After a closure has been bound for a message type, every call of that
  address in the process gets exactly what the closure returns for the caller and the message, be it
  typed or in bytes, whatever else has been bound or unbound in the meantime at other addresses; a
  push succeeds.
\<close>

theorem bound_closure_answers:
  assumes "list_all (\<lambda>op. \<not> touches op (addr @ ''/'' @ ident)) ops"
  shows "let p' = fold process_step ops (bind_with_caller ty ident addr f p);
             w = process_actors remote remote_stream p'; lr = pr_router p'
         in ep_call_as sd w ty ident addr caller msg lr = Some (Inr (f caller msg))
          \<and> ep_call sd w ty ident addr msg lr = Some (Inr (f ''local'' msg))
          \<and> ep_push_as sd w ty ident addr caller msg lr = Some (Inr ())
          \<and> ut_send sd w (addr @ ''/'' @ ident) caller body lr =
              (case dec_msg sd body of
                 Inl e \<Rightarrow> Inl (BadContent e)
               | Inr v \<Rightarrow> map_sum from_encode_error id (enc_res sd (f caller v)))"
  using offered_typed_calls [OF host.still_offers [OF typed_bind_offers assms], of sd remote remote_stream]
  by (simp add: bind_with_caller_def caller_handler_def ep_call_as_def ep_call_def ep_push_as_def ut_send_def ut_forward_bytes_def
      envelope_local_def with_caller_def Let_def)

theorem bound_closure_answers_witness:
  "ep_call_as nat_serde (process_actors (\<lambda>_. Inl MailboxErrorClosed) (\<lambda>_ _ _. Inr [])
       (fold process_step [PBind () ''Sub'' ''/a'' (\<lambda>_ n. n - 1), PUnbind ''/b'']
          (bind_with_caller () ''Add'' ''/a'' (\<lambda>c n. n + length c) process_new))) () ''Add'' ''/a'' ''me'' 40
     (pr_router (fold process_step [PBind () ''Sub'' ''/a'' (\<lambda>_ n. n - 1), PUnbind ''/b'']
          (bind_with_caller () ''Add'' ''/a'' (\<lambda>c n. n + length c) process_new))) = Some (Inr 42)"
  using bound_closure_answers [of "''/a''" "''Add''" "[PBind () ''Sub'' ''/a'' (\<lambda>_ n. n - 1), PUnbind ''/b'']"
      "()" "\<lambda>c n. n + length c" process_new "\<lambda>_. Inl MailboxErrorClosed" "\<lambda>_ _ _. Inr []" nat_serde "''me''" 40]
  by (simp add: Let_def unbind_pattern_def ends_with_char_def starts_with_def)

text \<open>Binding a whole service: the binder is passed on from one \<^verbatim>\<open>bind\<close> to the next.\<close>

definition binder_chain ::
  "('db, 'aux) service_binder \<Rightarrow> ('ty \<times> string \<times> ('db \<Rightarrow> 'aux \<Rightarrow> string \<Rightarrow> 'v \<Rightarrow> 'r)) list
   \<Rightarrow> ('ty, 'v, 'r) process \<Rightarrow> ('ty, 'v, 'r) process" where
  "binder_chain b ms p = fold (\<lambda>(ty, ident, f). binder_bind_with_processor b ty ident f) ms p"

lemma binder_chain_steps:
  "binder_chain b ms p =
     fold process_step (map (\<lambda>(ty, ident, f). PBind ty ident (sb_addr b) (caller_handler (f (sb_db b) (sb_aux b)))) ms) p"
  unfolding binder_chain_def
  by (induction ms arbitrary: p)
     (auto simp: binder_bind_with_processor_def bind_with_caller_def caller_handler_def)

text \<open>
  A service built with \<^verbatim>\<open>ServiceBinder\<close> serves every message it was built with: after a chain of
  binds for different messages, a call with each of them is answered by the function given for it,
  applied to the binder's database, processor, the caller and the message.
\<close>

lemma binder_serves_every_message:
  assumes "distinct (map (fst \<circ> snd) ms)" and "(ty, ident, f) \<in> set ms"
  shows "let p' = binder_chain (binder_new addr db aux) ms p
         in ep_call_as sd (process_actors remote remote_stream p') ty ident addr caller msg (pr_router p')
              = Some (Inr (f db aux caller msg))"
proof -
  let ?b = "binder_new addr db aux"
  let ?op = "\<lambda>(ty, ident, f). PBind ty ident addr (caller_handler (f db aux))"
  obtain before after where ms: "ms = before @ (ty, ident, f) # after"
    using assms(2) by (meson split_list)
  have "list_all (\<lambda>op. \<not> touches op (addr @ ''/'' @ ident)) (map ?op after)"
    using assms(1) by (auto simp: ms list_all_iff image_iff Ball_def) blast
  from offered_typed_calls(1) [OF host.still_offers [OF typed_bind_offers this], of sd remote remote_stream]
  show ?thesis
    by (simp add: ms binder_chain_steps binder_new_def caller_handler_def ep_call_as_def with_caller_def Let_def)
qed

lemma binder_serves_every_message_example:
  "let p' = binder_chain (binder_new ''/a'' (10 :: nat) 5)
       [(False, ''Get'', \<lambda>db aux c n. db + n), (True, ''Put'', \<lambda>db aux c n. db * n + aux)] process_new
   in ep_call_as nat_serde (process_actors (\<lambda>_. Inl MailboxErrorClosed) (\<lambda>_ _ _. Inr []) p') True ''Put'' ''/a'' ''me'' 2
        (pr_router p') = Some (Inr (25 :: nat))"
  using binder_serves_every_message [of "[(False, ''Get'', \<lambda>db aux c n. db + n), (True, ''Put'', \<lambda>db aux c n. db * n + aux)]"
      True "''Put''" "\<lambda>db aux c n. db * n + aux" "''/a''" "10 :: nat" 5]
  by (simp add: Let_def)

text \<open>
  A checked raw binding never replaces a handler and can be undone exactly: it is refused, with
  nothing changed, if and only if something is bound at the very address; afterwards an exact unbind
  succeeds, and then a new checked binding does; unbinding twice finds nothing the second time.
\<close>

lemma checked_binding_never_replaces:
  "let (r1, p1) = ar_try_bind_raw addr a p;
       (unbound, p2) = ar_unbind_raw addr p1;
       (r2, p3) = ar_try_bind_raw addr b p2
   in (if bound_in p addr = None
       then r1 = Inr () \<and> bound_in p1 = (bound_in p)(addr \<mapsto> RawCall a)
       else r1 = Inl (GsbAlreadyRegistered addr) \<and> p1 = p)
    \<and> unbound \<and> bound_in p2 = (bound_in p)(addr := None) \<and> \<not> fst (ar_unbind_raw addr p2)
    \<and> r2 = Inr () \<and> bound_in p3 = (bound_in p)(addr \<mapsto> RawCall b)"
  by (auto simp: Let_def split_beta try_bind_raw_effect unbind_raw_effect bound_in_def [symmetric])

text \<open>
  C38. The two handlers of a raw service. Local calls and pushes reach the first one. A streaming call,
  and every call that comes from another process with a reply expected, reaches the second one. The
  caller gets all its items if none is an error; otherwise it gets a number of the items before the first
  error, and nothing else: the error itself is lost. So a service subscribed with \<^verbatim>\<open>()\<close> as its stream
  handler answers such calls with an empty stream instead of the error that there is no endpoint.
\<close>

theorem raw_service_paths:
  assumes "addr \<noteq> []" and "list_all (\<lambda>op. \<not> touches op addr) ops" and fwd: "forward_law fwd"
  shows "let p' = fold process_step ops (ut_subscribe fwd addr h s p);
             w = process_actors remote remote_stream p'; lr = pr_router p';
             items = s caller addr body False; seen = ut_call_stream sd w addr caller body lr
         in ut_send sd w addr caller body lr = h caller addr body False
          \<and> ut_push sd w addr caller body lr = h caller addr body True
          \<and> lr_forward_bytes_local sd w addr caller body True lr = [map_sum id FullChunk (h caller addr body True)]
          \<and> lr_forward_bytes_local sd w addr caller body False lr = seen
          \<and> ((\<forall>e. Inl e \<notin> set items) \<longrightarrow> seen = items)
          \<and> (\<forall>ok e rest. items = map Inr ok @ Inl e # rest \<longrightarrow> (\<exists>n. seen = map Inr (take n ok)))
          \<and> (s = unit_stream_handler \<longrightarrow> seen = [])"
proof -
  let ?items = "s caller addr body False"
  have all: "map Inr (fwd ?items) = ?items" if "\<forall>e. Inl e \<notin> set ?items"
  proof -
    have ok: "\<forall>i \<in> set ?items. \<not> isl i" using that by (metis isl_def)
    then have "fwd ?items = map projr ?items" using fwd unfolding forward_law_def by blast
    with ok show ?thesis by (simp add: map_idI)
  qed
  have some: "\<exists>n. map Inr (fwd ?items) = map Inr (take n ok)" if "?items = map Inr ok @ Inl e # rest" for ok e rest
  proof -
    have "before_error ?items = ok" by (simp add: that before_error_def takeWhile_append comp_def)
    then show ?thesis using fwd unfolding forward_law_def by metis
  qed
  have none: "map Inr (fwd ?items) = []" if "s = unit_stream_handler"
    using some [of "[]"] that by (auto simp: unit_stream_handler_def)
  note calls = offered_raw_calls [OF assms(1) host.still_offers [OF subscribe_offers assms(2)]]
  have "((\<forall>e. Inl e \<notin> set ?items) \<longrightarrow> map Inr (fwd ?items) = ?items)
      \<and> (\<forall>ok e rest. ?items = map Inr ok @ Inl e # rest \<longrightarrow> (\<exists>n. map Inr (fwd ?items) = map Inr (take n ok)))
      \<and> (s = unit_stream_handler \<longrightarrow> map Inr (fwd ?items) = [])"
    using all some none by blast
  then show ?thesis
    by (simp only: Let_def ut_send_def ut_push_def ut_forward_bytes_def ut_call_stream_def calls if_True if_False simp_thms)
qed

text \<open>A forwarding that loses the item right before an error.\<close>

definition hasty_forward :: forward where
  "hasty_forward items = (if \<exists>i \<in> set items. isl i then butlast (before_error items) else map projr items)"

lemma hasty_forward_law: "forward_law hasty_forward"
proof -
  have "\<exists>n. hasty_forward items = take n (before_error items)" for items
  proof (cases "\<exists>i \<in> set items. isl i")
    case False
    then have "takeWhile (\<lambda>i. \<not> isl i) items = items" by (simp add: takeWhile_eq_all_conv)
    with False have "hasty_forward items = before_error items"
      unfolding hasty_forward_def before_error_def by (simp only: if_False)
    then show ?thesis by (metis order_refl take_all)
  qed (auto simp: hasty_forward_def butlast_conv_take)
  then show ?thesis by (auto simp: forward_law_def hasty_forward_def)
qed

definition failing_stream :: raw_stream_handler where
  "failing_stream caller addr body no_reply = [Inr (Part [1]), Inr (Part [2]), Inl Cancelled, Inr (Part [3])]"

theorem raw_service_paths_witness:
  "let p' = ut_subscribe hasty_forward ''/raw'' (raw_closure_handler (\<lambda>c a b. Inr (b @ b))) failing_stream process_new;
       w = process_actors (\<lambda>_. Inl MailboxErrorClosed) (\<lambda>_ _ _. Inr []) p'
   in ut_send nat_serde w ''/raw'' ''me'' [1] (pr_router p' :: unit local_router) = Inr [1, 1]
    \<and> (\<exists>n. ut_call_stream nat_serde w ''/raw'' ''me'' [1] (pr_router p') = map Inr (take n [Part [1], Part [2]]))"
proof -
  let ?p = "ut_subscribe hasty_forward ''/raw'' (raw_closure_handler (\<lambda>c a b. Inr (b @ b))) failing_stream process_new
    :: (unit, nat, nat) process"
  let ?w = "process_actors (\<lambda>_. Inl MailboxErrorClosed) (\<lambda>_ _ _. Inr []) ?p"
  have stream: "failing_stream ''me'' ''/raw'' [1] False = map Inr [Part [1], Part [2]] @ Inl Cancelled # [Inr (Part [3])]"
    by (simp add: failing_stream_def)
  have "ut_send nat_serde ?w ''/raw'' ''me'' [1] (pr_router ?p) = raw_closure_handler (\<lambda>c a b. Inr (b @ b)) ''me'' ''/raw'' [1] False"
    "\<forall>ok e rest. failing_stream ''me'' ''/raw'' [1] False = map Inr ok @ Inl e # rest \<longrightarrow>
       (\<exists>n. ut_call_stream nat_serde ?w ''/raw'' ''me'' [1] (pr_router ?p) = map Inr (take n ok))"
    using raw_service_paths [of "''/raw''" "[]" hasty_forward "raw_closure_handler (\<lambda>c a b. Inr (b @ b))" failing_stream
        "process_new :: (unit, nat, nat) process" "\<lambda>_. Inl MailboxErrorClosed" "\<lambda>_ _ _. Inr []" "''me''" "[1]" nat_serde]
      hasty_forward_law
    unfolding Let_def by simp_all
  from this(1) this(2) [rule_format, OF stream] show ?thesis
    unfolding Let_def by (simp add: raw_closure_handler_def)
qed

end
