(* ===== verification/Call_Handler.thy ===== *)
theory Call_Handler
  imports Services Client_Connection
begin

text \<open>
  The two ends of a client connection in \<^verbatim>\<open>src/connection.rs\<close>: the \<^verbatim>\<open>CallRequestHandler\<close>s that answer
  incoming calls, of which \<^verbatim>\<open>LocalRouterHandler\<close> passes them to the services bound in this process, and
  the \<^verbatim>\<open>Transport\<close> that carries the messages, a TCP or a Unix socket.
\<close>

section \<open>Handlers of incoming calls\<close>

type_synonym call_handler = "string \<Rightarrow> string \<Rightarrow> string \<Rightarrow> bytes \<Rightarrow> bool \<Rightarrow> chunks"

text \<open>A closure, and a pair of closures for calls and events.\<close>

definition closure_do_call :: "(string \<Rightarrow> string \<Rightarrow> string \<Rightarrow> bytes \<Rightarrow> chunks) \<Rightarrow> call_handler" where
  "closure_do_call f = (\<lambda>request_id caller address data _. f request_id caller address data)"

definition pair_do_call ::
  "(string \<Rightarrow> string \<Rightarrow> string \<Rightarrow> bytes \<Rightarrow> chunks) \<times> (string \<Rightarrow> string \<Rightarrow> bytes \<Rightarrow> 'e) \<Rightarrow> call_handler" where
  "pair_do_call h = (\<lambda>request_id caller address data _. fst h request_id caller address data)"

definition pair_handle_event ::
  "(string \<Rightarrow> string \<Rightarrow> string \<Rightarrow> bytes \<Rightarrow> chunks) \<times> (string \<Rightarrow> string \<Rightarrow> bytes \<Rightarrow> 'e)
   \<Rightarrow> string \<Rightarrow> string \<Rightarrow> bytes \<Rightarrow> 'e" where
  "pair_handle_event h caller topic data = snd h caller topic data"

text \<open>\<^verbatim>\<open>disconnect_h\<close> is the closure to run when the connection ends, by its number.\<close>

record local_router_handler =
  disconnect_h :: "nat option"

definition local_router_handler_default :: local_router_handler where
  "local_router_handler_default = \<lparr>disconnect_h = None\<rparr>"

definition local_router_handler_new :: "nat \<Rightarrow> local_router_handler" where
  "local_router_handler_new disconnect_fn = \<lparr>disconnect_h = Some disconnect_fn\<rparr>"

definition local_do_call ::
  "('v, 'r) serde \<Rightarrow> ('v, 'r) actors \<Rightarrow> 'ty local_router \<Rightarrow> call_handler" where
  "local_do_call sd w lr = (\<lambda>_ caller address data no_reply. lr_forward_bytes_local sd w address caller data no_reply lr)"

text \<open>The closures that were run, and the handler afterwards.\<close>

definition local_on_disconnect :: "local_router_handler \<Rightarrow> nat list \<times> local_router_handler" where
  "local_on_disconnect h =
     (case disconnect_h h of
        Some f \<Rightarrow> ([f], h\<lparr>disconnect_h := None\<rparr>)
      | None \<Rightarrow> ([], h))"

text \<open>The call a handler was asked for, run to its end: the results of a call are written back, those
  of a push are dropped.\<close>

fun run_call :: "(gsb_error \<Rightarrow> string) \<Rightarrow> call_handler \<Rightarrow> client_effect \<Rightarrow> 's client_connection \<Rightarrow> 's client_connection" where
  "run_call display do_call (DoCall request_id caller address data no_reply) c =
     (let items = do_call request_id caller address data no_reply
      in if no_reply then c else reply_stream display request_id items c)"
| "run_call display do_call _ c = c"

section \<open>Transports\<close>

text \<open>
  Each operation of \<^verbatim>\<open>Transport\<close> is passed to the socket inside (\<^verbatim>\<open>inner\<close>). The framed sockets are
  those of \<^verbatim>\<open>tokio_util\<close>, so their operations are arguments: \<open>t\<close> for TCP, \<open>u\<close> for Unix.
\<close>

datatype ('a, 'b) transport = TcpTransport 'a | UnixTransport 'b

fun transport_inner ::
  "('a \<Rightarrow> 'r \<times> 'a) \<Rightarrow> ('b \<Rightarrow> 'r \<times> 'b) \<Rightarrow> ('a, 'b) transport \<Rightarrow> 'r \<times> ('a, 'b) transport" where
  "transport_inner f g (TcpTransport s) = map_prod id TcpTransport (f s)"
| "transport_inner f g (UnixTransport s) = map_prod id UnixTransport (g s)"

definition transport_sink ::
  "('a, 'i) sink_ops \<Rightarrow> ('b, 'i) sink_ops \<Rightarrow> (('a, 'b) transport, 'i) sink_ops" where
  "transport_sink t u = \<lparr>
     sk_poll_ready = transport_inner (sk_poll_ready t) (sk_poll_ready u),
     sk_start_send = (\<lambda>item. transport_inner (sk_start_send t item) (sk_start_send u item)),
     sk_poll_flush = transport_inner (sk_poll_flush t) (sk_poll_flush u),
     sk_poll_close = transport_inner (sk_poll_close t) (sk_poll_close u)\<rparr>"

definition transport_poll_next ::
  "('a \<Rightarrow> 'r \<times> 'a) \<Rightarrow> ('b \<Rightarrow> 'r \<times> 'b) \<Rightarrow> ('a, 'b) transport \<Rightarrow> 'r \<times> ('a, 'b) transport" where
  "transport_poll_next f g = transport_inner f g"

text \<open>\<^verbatim>\<open>tcp\<close>, \<^verbatim>\<open>unix\<close> and \<^verbatim>\<open>transport\<close>: a socket of the kind the address asks for, framed with a fresh codec.\<close>

record 's framed =
  fr_io :: 's
  fr_codec :: gsb_message_codec

definition framed_new :: "'s \<Rightarrow> 's framed" where
  "framed_new s = \<lparr>fr_io = s, fr_codec = \<lparr>codec_decoder = decoder_new\<rparr>\<rparr>"

definition tcp_transport :: "(string \<Rightarrow> io_error_kind + 's) \<Rightarrow> string \<Rightarrow> io_error_kind + 's framed" where
  "tcp_transport connect addr = (case connect addr of Inl e \<Rightarrow> Inl e | Inr s \<Rightarrow> Inr (framed_new s))"

definition unix_transport :: "(string \<Rightarrow> io_error_kind + 's) \<Rightarrow> string \<Rightarrow> io_error_kind + 's framed" where
  "unix_transport connect path = (case connect path of Inl e \<Rightarrow> Inl e | Inr s \<Rightarrow> Inr (framed_new s))"

definition open_transport ::
  "(string \<Rightarrow> io_error_kind + 's) \<Rightarrow> (string \<Rightarrow> io_error_kind + 't) \<Rightarrow> gsb_addr
   \<Rightarrow> io_error_kind + ('s framed, 't framed) transport" where
  "open_transport connect_tcp connect_unix addr =
     (case addr of
        Tcp a \<Rightarrow> map_sum id TcpTransport (tcp_transport connect_tcp a)
      | Unix path \<Rightarrow> map_sum id UnixTransport (unix_transport connect_unix path))"

text \<open>\<^verbatim>\<open>connect_with_handler\<close>: a connection over the sink half of the transport, started.\<close>

definition connect_with_handler :: "client_info \<Rightarrow> 's \<Rightarrow> 's client_connection" where
  "connect_with_handler info split_sink = cl_started (client_connection_new info split_sink)"

section \<open>A transport is as good as the socket inside\<close>

definition map_sink :: "('s \<Rightarrow> 't) \<Rightarrow> ('s, 'i) sink_write \<Rightarrow> ('t, 'i) sink_write" where
  "map_sink f w = \<lparr>closing = closing w, closed = closed w, sink = f (sink w), task = task w, buffer = buffer w\<rparr>"

definition map_run :: "('s \<Rightarrow> 't) \<Rightarrow> ('s, 'i) writer_run \<Rightarrow> ('t, 'i) writer_run" where
  "map_run f r = \<lparr>wr = map_sink f (wr r), taken = taken r, out = out r, finished = finished r, failed = failed r\<rparr>"

text \<open>
  Sinks that differ only in how their state is wrapped; what the writer does over one is what it does
  over the other.
\<close>

locale wrapped_sink =
  fixes inner :: "('s, 'i) sink_ops" and outer :: "('t, 'i) sink_ops" and wrap :: "'s \<Rightarrow> 't"
  assumes ready: "sk_poll_ready outer (wrap s) = map_prod id wrap (sk_poll_ready inner s)"
    and send: "sk_start_send outer i (wrap s) = map_prod id wrap (sk_start_send inner i s)"
    and flush: "sk_poll_flush outer (wrap s) = map_prod id wrap (sk_poll_flush inner s)"
    and close: "sk_poll_close outer (wrap s) = map_prod id wrap (sk_poll_close inner s)"
begin

lemma drain_wrap:
  "drain outer (wrap s) xs = map_prod wrap id (drain inner s xs)"
proof (induction xs arbitrary: s)
  case Nil
  obtain r s1 where "sk_poll_ready inner s = (r, s1)" by (metis surj_pair)
  then show ?case by (cases r) (simp_all add: ready flush split_beta)
next
  case (Cons x xs)
  obtain r s1 where r: "sk_poll_ready inner s = (r, s1)" by (metis surj_pair)
  obtain b s2 where s2: "sk_start_send inner x s1 = (b, s2)" by (metis surj_pair)
  obtain s3 left sent trig where d: "drain inner s2 xs = (s3, left, sent, trig)" by (metis surj_pair)
  have "drain outer (wrap s2) xs = (wrap s3, left, sent, trig)" using Cons.IH [of s2] d by simp
  with r s2 d show ?case by (cases r) (simp_all add: ready send)
qed

lemma poll_wrap:
  "poll_writer outer es (map_sink wrap w) = map_prod id (map_prod id (map_sink wrap)) (poll_writer inner es w)"
proof -
  obtain s1 left sent trig where d: "drain inner (sink w) (buffer w) = (s1, left, sent, trig)" by (metis surj_pair)
  obtain r2 s2 where f: "sk_poll_flush inner s1 = (r2, s2)" by (metis surj_pair)
  obtain r3 s3 where c: "sk_poll_close inner s1 = (r3, s3)" by (metis surj_pair)
  have d': "drain outer (wrap (sink w)) (buffer w) = (wrap s1, left, sent, trig)"
    by (simp add: drain_wrap d)
  show ?thesis
    by (cases r2; cases r3) (simp_all add: poll_writer_def map_sink_def Let_def d d' f c flush close)
qed

lemma step_wrap:
  "writer_step outer (map_run wrap r) op = map_run wrap (writer_step inner r op)"
proof (cases op)
  case (Poll es)
  obtain res sent w where "poll_writer inner es (wr r) = (res, sent, w)" by (metis surj_pair)
  with Poll show ?thesis by (simp add: map_run_def poll_wrap)
qed (auto simp: map_run_def map_sink_def sw_write_def sw_close_def)

lemma exec_wrap: "writer_exec outer (wrap s) xs = map_run wrap (writer_exec inner s xs)"
proof (induction xs rule: rev_induct)
  case Nil
  show ?case by (simp add: writer_exec_def writer_init_def sink_write_new_def map_run_def map_sink_def)
next
  case (snoc x xs)
  then show ?case by (simp add: writer_exec_def step_wrap)
qed

end

interpretation tcp_sink: wrapped_sink t "transport_sink t u" TcpTransport for t u
  by unfold_locales (simp_all add: transport_sink_def)

interpretation unix_sink: wrapped_sink u "transport_sink t u" UnixTransport for t u
  by unfold_locales (simp_all add: transport_sink_def)

section \<open>Properties\<close>

text \<open>
  The choice of the socket is invisible to the writer: over any sequence of writes, polls and
  closes, a writer over a \<^verbatim>\<open>Transport\<close> accepts, sends and reports exactly what it does over the TCP or
  the Unix socket that the transport holds.
\<close>

lemma transport_is_transparent:
  "writer_exec (transport_sink t u) (TcpTransport s) xs = map_run TcpTransport (writer_exec t s xs)
   \<and> writer_exec (transport_sink t u) (UnixTransport s') xs = map_run UnixTransport (writer_exec u s' xs)"
  by (simp add: tcp_sink.exec_wrap unix_sink.exec_wrap)

text \<open>The first thing a client says is hello, and it runs its closure at most once when it is cut off.\<close>

lemma client_says_hello:
  "cl_queued (connect_with_handler info w) =
     [Hello \<lparr>hl_name = ci_name info, hl_version = (case ci_version info of Some v \<Rightarrow> v | None \<Rightarrow> []),
        hl_instance_id = ci_instance_id info\<rparr>]"
  by (simp add: connect_with_handler_def cl_started_def client_connection_new_def cl_write_def sw_write_def
      sink_write_new_def cl_queued_def)

lemma disconnect_runs_once:
  "fst (local_on_disconnect (snd (local_on_disconnect h))) = []"
  "fst (local_on_disconnect (local_router_handler_new f)) = [f]"
  by (simp_all add: local_on_disconnect_def local_router_handler_new_def split: option.split)

end
