(* ===== verification/Flow.thy ===== *)
theory Flow
  imports Reader
begin

text \<open>
  Flow control of a router connection: the reader of the reply channel (\<open>Reader\<close>), the handlers that
  send to the client (\<open>Router_Connection\<close>) and the writer (\<open>SinkWriter\<close>) together. A message that does
  not fit is held back; the reader waits for it, so that of the replies at most one is held at a
  time, and the writer releases what is held when it has sent everything.
\<close>

section \<open>The writer of a connection\<close>

text \<open>
  The writing future is polled in the context of the connection. \<^verbatim>\<open>WriteHandler\<close> is implemented with
  its defaults: an error means \<^verbatim>\<open>Running::Stop\<close>, and \<^verbatim>\<open>finished\<close> stops the actor. A failed assertion
  ends the task of the actor as well.
\<close>

definition poll_output ::
  "('s, gsb_message) sink_ops \<Rightarrow> 'a ctx \<Rightarrow> ('a, 's) turn \<Rightarrow> gsb_message list \<times> ('a, 's) turn" where
  "poll_output ops x t =
     (case poll_writer ops True (cn_output (act t)) of (res, sent, w) \<Rightarrow>
        let t1 = t\<lparr>act := (act t)\<lparr>cn_output := w\<rparr>\<rparr>
        in (sent, case res of
              Waiting trigger_empty \<Rightarrow> if trigger_empty then buffer_empty x t1 else t1
            | _ \<Rightarrow> emit StopCtx t1))"

section \<open>A connection that receives\<close>

text \<open>
  What a connection has to do with its client's output: the replies in its channel, the reader of the
  channel, and what has been written to the client. \<open>fl_next_tx\<close> numbers the one-shot channels.
\<close>

record ('a, 's) flow =
  fl_turn :: "('a, 's) turn"
  fl_reader :: "'a future actor_stream"
  fl_pending :: "call_reply list"
  fl_wire :: "gsb_message list"
  fl_next_tx :: oneshot

datatype 'a flow_event =
    Arrive call_reply          \<comment> \<open>another connection puts a reply into the channel\<close>
  | ReadReply                  \<comment> \<open>the reader of the channel is polled\<close>
  | Forward call_request 'a    \<comment> \<open>another connection forwards a call\<close>
  | News broadcast_request     \<comment> \<open>the stream of a subscribed topic has an item\<close>
  | PollOutput
  | Dropped                    \<comment> \<open>another connection of the same instance takes over\<close>

text \<open>The channel is unbounded and stays open; a held message's receiver learns what became of it.\<close>

fun channel_next :: "call_reply list \<Rightarrow> call_reply stream_poll \<times> call_reply list" where
  "channel_next [] = (NotYet, [])"
| "channel_next (r # rs) = (Item r, rs)"

definition held_answer :: "('a, 's) turn \<Rightarrow> 'a future \<Rightarrow> forward_result option" where
  "held_answer t fut =
     (case fut of
        FutHeld tx \<Rightarrow>
          if NotifyHeld tx \<in> set (effects t) then Some Forwarded
          else if DropHeld tx \<in> set (effects t) then Some ForwardCanceled else None
      | _ \<Rightarrow> None)"

definition numbered :: "'a ctx \<Rightarrow> ('a, 's) flow \<Rightarrow> 'a ctx" where
  "numbered x f = x\<lparr>fresh_tx := fl_next_tx f\<rparr>"

fun flow_step :: "('s, gsb_message) sink_ops \<Rightarrow> 'a ctx \<Rightarrow> 'a flow_event \<Rightarrow> ('a, 's) flow \<Rightarrow> ('a, 's) flow" where
  "flow_step ops x (Arrive r) f = f\<lparr>fl_pending := fl_pending f @ [r]\<rparr>"
| "flow_step ops x ReadReply f =
     (case actor_stream_poll (response_handler (numbered x f) (held_answer (fl_turn f))) channel_next
             (fl_pending f) (fl_reader f) (fl_turn f) of
        (_, _, pending, reader, t) \<Rightarrow>
          f\<lparr>fl_turn := t, fl_reader := reader, fl_pending := pending, fl_next_tx := Suc (fl_next_tx f)\<rparr>)"
| "flow_step ops x (Forward req a) f =
     f\<lparr>fl_turn := snd (handle_forward_request (numbered x f) req a (fl_turn f)), fl_next_tx := Suc (fl_next_tx f)\<rparr>"
| "flow_step ops x (News req) f =
     f\<lparr>fl_turn := snd (handle_topic_item (numbered x f) (Some req) (fl_turn f)), fl_next_tx := Suc (fl_next_tx f)\<rparr>"
| "flow_step ops x PollOutput f =
     (case poll_output ops x (fl_turn f) of (sent, t) \<Rightarrow> f\<lparr>fl_turn := t, fl_wire := fl_wire f @ sent\<rparr>)"
| "flow_step ops x Dropped f = f\<lparr>fl_turn := handle_drop_connection x (fl_turn f)\<rparr>"

definition flow_run where
  "flow_run ops x evs f = fold (flow_step ops x) evs f"

definition flow_start :: "oneshot \<Rightarrow> ('a, 's) turn \<Rightarrow> ('a, 's) flow" where
  "flow_start n t = \<lparr>fl_turn = t, fl_reader = actor_stream_new, fl_pending = [], fl_wire = [], fl_next_tx = n\<rparr>"

text \<open>What came in.\<close>

fun as_reply :: "gsb_message \<Rightarrow> call_reply option" where
  "as_reply (CallReply r) = Some r"
| "as_reply _ = None"

fun as_request :: "gsb_message \<Rightarrow> call_request option" where
  "as_request (CallRequest r) = Some r"
| "as_request _ = None"

fun as_broadcast :: "gsb_message \<Rightarrow> broadcast_request option" where
  "as_broadcast (BroadcastRequest r) = Some r"
| "as_broadcast _ = None"

abbreviation forwardable :: "gsb_message set" where
  "forwardable \<equiv> range CallReply \<union> range CallRequest \<union> range BroadcastRequest"

fun arrivals :: "'a flow_event list \<Rightarrow> call_reply list" where
  "arrivals [] = []"
| "arrivals (Arrive r # evs) = r # arrivals evs"
| "arrivals (_ # evs) = arrivals evs"

fun forwards :: "'a flow_event list \<Rightarrow> call_request list" where
  "forwards [] = []"
| "forwards (Forward req a # evs) = req # forwards evs"
| "forwards (_ # evs) = forwards evs"

fun broadcasts :: "'a flow_event list \<Rightarrow> broadcast_request list" where
  "broadcasts [] = []"
| "broadcasts (News req # evs) = req # broadcasts evs"
| "broadcasts (_ # evs) = broadcasts evs"

section \<open>Who gives up\<close>

text \<open>
  A sender can stop waiting for its message: the forwarding of a call times out, the stream of a topic is
  cancelled. The held message is then dropped when the buffer runs empty. The context says of each
  one-shot channel whether its receiver is gone at that time, the only one at which it is looked at.
\<close>

text \<open>What the sender of an event gets to wait for.\<close>

fun asked_for :: "'a ctx \<Rightarrow> 'a flow_event \<Rightarrow> ('a, 's) flow \<Rightarrow> oneshot option" where
  "asked_for x (Forward req a) f = fst (handle_forward_request (numbered x f) req a (fl_turn f))"
| "asked_for x (News req) f = fst (handle_topic_item (numbered x f) (Some req) (fl_turn f))"
| "asked_for x _ f = None"

definition gives_up :: "'a ctx \<Rightarrow> oneshot option \<Rightarrow> bool" where
  "gives_up x w = (case w of None \<Rightarrow> False | Some tx \<Rightarrow> canceled x tx)"

text \<open>The events of a run whose sender does not give up.\<close>

fun kept :: "('s, gsb_message) sink_ops \<Rightarrow> 'a ctx \<Rightarrow> 'a flow_event list \<Rightarrow> ('a, 's) flow \<Rightarrow> 'a flow_event list" where
  "kept ops x [] f = []"
| "kept ops x (ev # evs) f =
     (if gives_up x (asked_for x ev f) then [] else [ev]) @ kept ops x evs (flow_step ops x ev f)"

lemma kept_all: "\<forall>tx. \<not> canceled x tx \<Longrightarrow> kept ops x evs f = evs"
  by (induction evs arbitrary: f) (simp_all add: gives_up_def split: option.splits)

section \<open>The invariant\<close>

abbreviation fl_conn :: "('a, 's) flow \<Rightarrow> ('a, 's) connection" where
  "fl_conn f \<equiv> act (fl_turn f)"

abbreviation fl_held :: "('a, 's) flow \<Rightarrow> (gsb_message \<times> oneshot) list" where
  "fl_held f \<equiv> hold_queue (fl_conn f)"

abbreviation mark :: "('a, 's) connection \<Rightarrow> nat" where
  "mark c \<equiv> high_buffer_mark (ic_config (cn_config c))"

definition still_wanted :: "'a ctx \<Rightarrow> (gsb_message \<times> oneshot) list \<Rightarrow> (gsb_message \<times> oneshot) list" where
  "still_wanted x q = filter (\<lambda>h. \<not> canceled x (snd h)) q"

lemma still_wanted_simps [simp]:
  "still_wanted x [] = []" "still_wanted x (h # q) = (if canceled x (snd h) then still_wanted x q else h # still_wanted x q)"
  "still_wanted x (q @ q') = still_wanted x q @ still_wanted x q'" "set (still_wanted x q) = {h \<in> set q. \<not> canceled x (snd h)}"
  by (auto simp: still_wanted_def)

lemma distinct_still_wanted: "distinct (map snd q) \<Longrightarrow> distinct (map snd (still_wanted x q))"
  by (simp add: still_wanted_def distinct_map_filter)

text \<open>What is on its way to the client: all that is queued, and what is held for those who still wait.\<close>

definition on_its_way :: "'a ctx \<Rightarrow> ('a, 's) connection \<Rightarrow> gsb_message list" where
  "on_its_way x c = queued c @ map fst (still_wanted x (hold_queue c))"

text \<open>The reader waits for \<open>tx\<close>, which is held or has been released; it does not give up.\<close>

definition reader_ok :: "'a ctx \<Rightarrow> ('a, 's) flow \<Rightarrow> bool" where
  "reader_ok x f =
     (case processing (fl_reader f) of
        None \<Rightarrow> True
      | Some FutReady \<Rightarrow> True
      | Some (FutHeld tx) \<Rightarrow> tx < fl_next_tx f \<and> \<not> canceled x tx
          \<and> (tx \<in> snd ` set (fl_held f) \<or> NotifyHeld tx \<in> set (effects (fl_turn f)))
      | _ \<Rightarrow> False)"

definition others_held :: "'a ctx \<Rightarrow> ('a, 's) flow \<Rightarrow> (gsb_message \<times> oneshot) list" where
  "others_held x f = filter (\<lambda>h. processing (fl_reader f) \<noteq> Some (FutHeld (snd h))) (still_wanted x (fl_held f))"

definition flow_ok :: "'a ctx \<Rightarrow> ('a, 's) flow \<Rightarrow> bool" where
  "flow_ok x f \<longleftrightarrow>
     writable (fl_conn f) \<and> reader_ok x f \<and> distinct (map snd (fl_held f))
     \<and> length (others_held x f) < mark (fl_conn f)
     \<and> (\<forall>tx \<in> snd ` set (fl_held f). tx < fl_next_tx f \<and> Some tx \<notin> told ` set (effects (fl_turn f)))
     \<and> (\<forall>tx. Some tx \<in> told ` set (effects (fl_turn f)) \<longrightarrow> tx < fl_next_tx f)"

text \<open>
  The connection is not dropped, its reader does not give up, and fewer senders than the mark wait at the
  same time: the guard of a forwarded call and of a broadcast.
\<close>

fun calm :: "('s, gsb_message) sink_ops \<Rightarrow> 'a ctx \<Rightarrow> 'a flow_event list \<Rightarrow> ('a, 's) flow \<Rightarrow> bool" where
  "calm ops x [] f = True"
| "calm ops x (ev # evs) f =
     ((case ev of
         Forward _ _ \<Rightarrow> Suc (length (still_wanted x (fl_held f))) < mark (fl_conn f)
       | News _ \<Rightarrow> Suc (length (still_wanted x (fl_held f))) < mark (fl_conn f)
       | ReadReply \<Rightarrow> \<not> canceled x (fl_next_tx f)
       | Dropped \<Rightarrow> False
       | _ \<Rightarrow> True)
      \<and> calm ops x evs (flow_step ops x ev f))"

lemma held_bound:
  assumes "flow_ok x f"
  shows "length (still_wanted x (fl_held f)) \<le> mark (fl_conn f)"
proof -
  let ?q = "still_wanted x (fl_held f)"
  let ?p = "\<lambda>h. processing (fl_reader f) \<noteq> Some (FutHeld (snd h))"
  have "distinct (map snd ?q)" using assms by (simp add: flow_ok_def distinct_still_wanted)
  then have "inj_on snd (set ?q)" "distinct ?q" by (simp_all add: distinct_map)
  then have "length (filter (\<lambda>h. \<not> ?p h) ?q) \<le> 1"
    by (subst distinct_card [symmetric], simp, intro card_le_Suc0_iff_eq [THEN iffD2, folded One_nat_def])
       (auto simp: inj_on_def)
  with assms sum_length_filter_compl [of ?p ?q] show ?thesis
    by (simp add: flow_ok_def others_held_def)
qed

section \<open>Steps\<close>

text \<open>The writer, when its transport works.\<close>

definition verdict :: "'a ctx \<Rightarrow> gsb_message \<times> oneshot \<Rightarrow> 'a effect" where
  "verdict x h = (if canceled x (snd h) then DropHeld (snd h) else NotifyHeld (snd h))"

lemma told_verdict [simp]: "told (verdict x h) = Some (snd h)"
  by (simp add: verdict_def)

lemma drain_hold_all:
  assumes "length (still_wanted x q) \<le> n"
  shows "drain_hold (canceled x) n q t =
     t\<lparr>act := fold out_write (map fst (still_wanted x q)) (act t),
       effects := effects t @ map (verdict x) q\<rparr>"
  using assms
proof (induction q arbitrary: n t)
  case Nil
  show ?case by (cases n) simp_all
next
  case (Cons h q)
  show ?case
  proof (cases n)
    case 0
    with Cons.prems have gone: "\<forall>h' \<in> set (h # q). canceled x (snd h')" "still_wanted x (h # q) = []"
      by (auto simp: still_wanted_def filter_empty_conv split: if_splits)
    then have drop: "map (verdict x) (h # q) = map (DropHeld \<circ> snd) (h # q)" by (simp add: verdict_def)
    show ?thesis unfolding 0 drain_hold.simps(1) drop_all_effects gone(2) drop by simp
  next
    case (Suc k)
    with Cons show ?thesis by (cases h) (auto simp: emit_def verdict_def)
  qed
qed

lemma buffer_empty_releases:
  assumes "length (still_wanted x (hold_queue (act t))) \<le> mark (act t)"
  shows "buffer_empty x t = t\<lparr>act := fold out_write (map fst (still_wanted x (hold_queue (act t)))) ((act t)\<lparr>hold_queue := []\<rparr>),
     effects := effects t @ map (verdict x) (hold_queue (act t))\<rparr>"
  using assms by (simp add: buffer_empty_def drain_hold_all)

lemma poll_output_cases:
  assumes "\<And>s. fst (sk_poll_flush ops s) \<noteq> ReadyErr" and "writable (act t)"
  obtains w sent empty where "queued (act t) = sent @ buffer w" "\<not> closing w" "\<not> closed w" "empty \<longrightarrow> buffer w = []"
    "poll_output ops x t =
       (sent, let t1 = t\<lparr>act := (act t)\<lparr>cn_output := w\<rparr>\<rparr> in if empty then buffer_empty x t1 else t1)"
proof -
  obtain res sent w where p: "poll_writer ops True (cn_output (act t)) = (res, sent, w)" by (metis surj_pair)
  obtain s1 left snt trig where "drain ops (sink (cn_output (act t))) (buffer (cn_output (act t))) = (s1, left, snt, trig)"
    by (metis surj_pair)
  moreover obtain r s2 where "sk_poll_flush ops s1 = (r, s2)" "r \<noteq> ReadyErr"
    using assms(1) [of s1] by (cases "sk_poll_flush ops s1") auto
  ultimately obtain empty where res: "res = Waiting empty"
    using p assms(2) by (cases r) (auto simp: poll_writer_def writable_def Let_def)
  show ?thesis
  proof (rule that [of sent w empty])
    show "queued (act t) = sent @ buffer w" using poll_writer_splits [OF p] by (simp add: queued_def)
    show "\<not> closing w" "\<not> closed w" using poll_writer_flags [OF p] assms(2) res by (auto simp: writable_def)
    show "empty \<longrightarrow> buffer w = []" using poll_writer_trigger [of ops True _ sent w] p res by auto
    show "poll_output ops x t = (sent, let t1 = t\<lparr>act := (act t)\<lparr>cn_output := w\<rparr>\<rparr> in if empty then buffer_empty x t1 else t1)"
      by (simp add: poll_output_def p res Let_def)
  qed
qed

text \<open>The reader: it waits, finds nothing, or takes the next reply.\<close>

lemma reader_poll:
  "snd (snd (actor_stream_poll (response_handler y a) pn st s t)) =
     (case (case processing s of None \<Rightarrow> (True, t) | Some fut \<Rightarrow> poll_future a fut t) of
        (False, t1) \<Rightarrow> (st, s\<lparr>started := True\<rparr>, t1)
      | (True, t1) \<Rightarrow> snd (snd (take_next (response_handler y a) pn st \<lparr>processing = None, started = True\<rparr> t1)))"
  by (cases s) (auto simp: actor_stream_poll_def start_once_def response_handler_def split_beta
      split: option.splits bool.splits)

lemma read_reply_step:
  "flow_step ops x ReadReply f =
     (let y = numbered x f; f1 = f\<lparr>fl_next_tx := Suc (fl_next_tx f)\<rparr>; t = fl_turn f in
      case (case processing (fl_reader f) of None \<Rightarrow> (True, t) | Some fut \<Rightarrow> poll_future (held_answer t) fut t) of
        (False, t1) \<Rightarrow> f1\<lparr>fl_reader := (fl_reader f)\<lparr>started := True\<rparr>, fl_turn := t1\<rparr>
      | (True, t1) \<Rightarrow>
          (case fl_pending f of
             [] \<Rightarrow> f1\<lparr>fl_reader := \<lparr>processing = None, started = True\<rparr>, fl_turn := t1\<rparr>
           | r # rs \<Rightarrow>
               (case handle_forward_response y r t1 of (fut, t2) \<Rightarrow>
                  f1\<lparr>fl_reader := \<lparr>processing = Some fut, started = True\<rparr>, fl_turn := t2, fl_pending := rs\<rparr>)))"
  using reader_poll [of "numbered x f" "held_answer (fl_turn f)" channel_next "fl_pending f" "fl_reader f" "fl_turn f"]
  by (auto simp: Let_def split_beta take_next_def response_handler_def prod_eq_iff
      split: bool.splits list.splits stream_poll.splits)

declare flow_step.simps(2) [simp del]

definition reader_free :: "('a, 's) flow \<Rightarrow> bool" where
  "reader_free f \<longleftrightarrow> (\<forall>tx. processing (fl_reader f) = Some (FutHeld tx) \<longrightarrow> Some tx \<in> told ` set (effects (fl_turn f)))"

lemma read_reply_cases:
  assumes "reader_ok x f"
  obtains (waits) tx where "processing (fl_reader f) = Some (FutHeld tx)" "NotifyHeld tx \<notin> set (effects (fl_turn f))"
      "flow_step ops x ReadReply f = f\<lparr>fl_reader := (fl_reader f)\<lparr>started := True\<rparr>, fl_next_tx := Suc (fl_next_tx f)\<rparr>"
  | (idle) "fl_pending f = []" "reader_free f"
      "flow_step ops x ReadReply f = f\<lparr>fl_reader := \<lparr>processing = None, started = True\<rparr>, fl_next_tx := Suc (fl_next_tx f)\<rparr>"
  | (takes) r rs fut t1 where "fl_pending f = r # rs" "reader_free f"
      "handle_forward_response (numbered x f) r (fl_turn f) = (fut, t1)"
      "flow_step ops x ReadReply f = f\<lparr>fl_turn := t1, fl_reader := \<lparr>processing = Some fut, started = True\<rparr>,
         fl_pending := rs, fl_next_tx := Suc (fl_next_tx f)\<rparr>"
proof (cases "\<exists>tx. processing (fl_reader f) = Some (FutHeld tx) \<and> held_answer (fl_turn f) (FutHeld tx) = None")
  case True
  then obtain tx where tx: "processing (fl_reader f) = Some (FutHeld tx)" "held_answer (fl_turn f) (FutHeld tx) = None"
    by blast
  then show ?thesis
    by (intro waits [of tx]) (auto simp: read_reply_step poll_future_def held_answer_def Let_def split: if_splits)
next
  case False
  then have free: "reader_free f"
    by (force simp: reader_free_def held_answer_def image_iff split: if_splits)
  have ready: "(case processing (fl_reader f) of None \<Rightarrow> (True, fl_turn f)
      | Some fut \<Rightarrow> poll_future (held_answer (fl_turn f)) fut (fl_turn f)) = (True, fl_turn f)"
    using assms False by (auto simp: reader_ok_def poll_future_def split: option.splits future.splits)
  show ?thesis
  proof (cases "fl_pending f")
    case Nil
    show ?thesis by (rule idle [OF Nil free]) (simp add: read_reply_step Let_def ready Nil)
  next
    case (Cons r rs)
    obtain fut t1 where resp: "handle_forward_response (numbered x f) r (fl_turn f) = (fut, t1)" by (metis surj_pair)
    show ?thesis by (rule takes [OF Cons free resp]) (simp add: read_reply_step Let_def ready Cons resp)
  qed
qed

text \<open>Every step keeps the invariant.\<close>

lemma others_of_free: "flow_ok x f \<Longrightarrow> reader_free f \<Longrightarrow> others_held x f = still_wanted x (fl_held f)"
  by (force simp: others_held_def reader_free_def flow_ok_def filter_id_conv)

lemma others_le: "length (others_held x f) \<le> length (still_wanted x (fl_held f))"
  by (simp add: others_held_def)

lemma response_cases:
  assumes "handle_forward_response y r t = (fut, t1)"
  obtains "fut = FutReady" "t1 = t\<lparr>act := out_write (CallReply r) (act t)\<rparr>" "hold_queue (act t) = []"
  | "fut = FutHeld (fresh_tx y)"
      "t1 = t\<lparr>act := (act t)\<lparr>hold_queue := hold_queue (act t) @ [(CallReply r, fresh_tx y)]\<rparr>\<rparr>"
  using assms by (cases rule: send_message_cases [of y "CallReply r" t]) (auto simp: handle_forward_response_def)

lemma numbered_simps [simp]:
  "fresh_tx (numbered x f) = fl_next_tx f" "canceled (numbered x f) = canceled x" "address (numbered x f) = address x"
  by (simp_all add: numbered_def)

lemma read_ok:
  assumes "flow_ok x f" and "\<not> canceled x (fl_next_tx f)"
  shows "flow_ok x (flow_step ops x ReadReply f)"
proof -
  have "reader_ok x f" using assms(1) by (simp add: flow_ok_def)
  then show ?thesis
  proof (cases rule: read_reply_cases [where ops = ops])
    case (waits tx)
    with assms(1) show ?thesis by (auto simp: flow_ok_def reader_ok_def others_held_def less_SucI)
  next
    case idle
    with assms(1) others_of_free [OF assms(1)] show ?thesis
      by (auto simp: flow_ok_def reader_ok_def others_held_def less_SucI)
  next
    case (takes r rs fut t1)
    note others = others_of_free [OF assms(1) takes(2)]
    have fresh: "\<forall>tx \<in> snd ` set (fl_held f). tx < fl_next_tx f" "Some (fl_next_tx f) \<notin> told ` set (effects (fl_turn f))"
      using assms(1) by (auto simp: flow_ok_def)
    from takes(3) show ?thesis
    proof (cases rule: response_cases)
      case 1
      with takes(4) assms(1) show ?thesis by (auto simp: flow_ok_def reader_ok_def others_held_def less_SucI)
    next
      case 2
      have "filter (\<lambda>h. fl_next_tx f \<noteq> snd h) (still_wanted x (fl_held f)) = still_wanted x (fl_held f)"
        using fresh(1) by (auto simp: filter_id_conv)
      with 2 takes(4) assms others fresh show ?thesis
        by (auto simp: flow_ok_def reader_ok_def others_held_def less_SucI)
    qed
  qed
qed

text \<open>
  The contract of those who send to the client. With nothing to wait for, the message has been written
  and nobody was waiting; otherwise it is held behind all others under a new number. Nothing else changes
  that the flow depends on.
\<close>

definition sent_or_held :: "gsb_message \<Rightarrow> oneshot \<Rightarrow> oneshot option \<Rightarrow> ('a, 's) turn \<Rightarrow> ('a, 's) turn \<Rightarrow> bool" where
  "sent_or_held m n w t t' \<longleftrightarrow>
     (case w of
        None \<Rightarrow> queued (act t') = queued (act t) @ [m] \<and> hold_queue (act t') = hold_queue (act t) \<and> hold_queue (act t) = []
      | Some tx \<Rightarrow> tx = n \<and> queued (act t') = queued (act t) \<and> hold_queue (act t') = hold_queue (act t) @ [(m, tx)])
     \<and> effects t' = effects t \<and> writable (act t') = writable (act t) \<and> cn_config (act t') = cn_config (act t)"

locale flow_sender =
  fixes ask :: "'a ctx \<Rightarrow> ('a, 's) turn \<Rightarrow> oneshot option"
    and send :: "'a ctx \<Rightarrow> ('a, 's) turn \<Rightarrow> ('a, 's) turn" and msg :: gsb_message
  assumes sends: "writable (act t) \<Longrightarrow> sent_or_held msg (fresh_tx y) (ask y t) t (send y t)"
begin

lemma sends_flow:
  assumes "flow_ok x f"
  shows "sent_or_held msg (fl_next_tx f) (ask (numbered x f) (fl_turn f)) (fl_turn f) (send (numbered x f) (fl_turn f))"
  using sends [of "fl_turn f" "numbered x f"] assms by (simp add: flow_ok_def)

lemma send_keeps_flow:
  assumes "flow_ok x f" and "Suc (length (still_wanted x (fl_held f))) < mark (fl_conn f)"
  shows "flow_ok x (f\<lparr>fl_turn := send (numbered x f) (fl_turn f), fl_next_tx := Suc (fl_next_tx f)\<rparr>)"
proof -
  let ?t = "send (numbered x f) (fl_turn f)"
  let ?f = "f\<lparr>fl_turn := ?t, fl_next_tx := Suc (fl_next_tx f)\<rparr>"
  note sent = sends_flow [OF assms(1), unfolded sent_or_held_def]
  have hold: "hold_queue (act ?t) \<in> {fl_held f, fl_held f @ [(msg, fl_next_tx f)]}"
    using sent by (auto split: option.splits)
  have e: "effects ?t = effects (fl_turn f)" "writable (act ?t)" "cn_config (act ?t) = cn_config (fl_conn f)"
    using sent assms(1) by (auto simp: flow_ok_def split: option.splits)
  have fresh: "\<forall>tx \<in> snd ` set (fl_held f). tx < fl_next_tx f" "Some (fl_next_tx f) \<notin> told ` set (effects (fl_turn f))"
    using assms(1) by (auto simp: flow_ok_def)
  have "length (others_held x ?f) < mark (fl_conn ?f)"
    using others_le [of x ?f] assms(2) hold e(3) by (auto split: if_splits)
  moreover have "reader_ok x ?f"
    using assms(1) hold e(1) by (auto simp: flow_ok_def reader_ok_def less_SucI split: option.splits future.splits)
  moreover have "fl_next_tx f \<notin> snd ` set (fl_held f)" using fresh(1) by blast
  then have "distinct (map snd (hold_queue (act ?t)))"
    using hold by (elim insertE emptyE) (use assms(1) in \<open>simp_all add: flow_ok_def\<close>)
  moreover have "\<forall>tx \<in> snd ` set (hold_queue (act ?t)). tx < Suc (fl_next_tx f) \<and> Some tx \<notin> told ` set (effects (fl_turn f))"
    using hold by (elim insertE emptyE) (use assms(1) fresh(2) in \<open>fastforce simp: flow_ok_def\<close>)+
  ultimately show ?thesis
    using assms(1) e(1,2) by (auto simp: flow_ok_def less_SucI)
qed

lemma send_adds:
  assumes "flow_ok x f"
  shows "on_its_way x (act (send (numbered x f) (fl_turn f))) =
    on_its_way x (fl_conn f) @ (if gives_up x (ask (numbered x f) (fl_turn f)) then [] else [msg])"
  using sends_flow [OF assms] by (auto simp: sent_or_held_def on_its_way_def gives_up_def split: option.splits)

end

lemma send_message_contract:
  "writable (act t) \<Longrightarrow> sent_or_held m (fresh_tx y) (fst (send_message y m t)) t (snd (send_message y m t))"
  by (cases rule: send_message_cases [of y m t]) (simp_all add: sent_or_held_def)

lemma forward_contract:
  assumes "writable (act t)"
  shows "sent_or_held (CallRequest req) (fresh_tx y) (fst (handle_forward_request y req a t)) t (snd (handle_forward_request y req a t))"
proof -
  let ?t = "if crq_no_reply req then t
      else t\<lparr>act := (act t)\<lparr>reply_map := snd (hm_insert (crq_request_id req) a (reply_map (act t)))\<rparr>\<rparr>"
  have "writable (act ?t)" using assms by simp
  from send_message_contract [OF this, of "CallRequest req" y] show ?thesis
    by (auto simp: handle_forward_request_def sent_or_held_def split: option.splits)
qed

interpretation call: flow_sender "\<lambda>y t. fst (handle_forward_request y req a t)"
    "\<lambda>y t. snd (handle_forward_request y req a t)" "CallRequest req" for req a
  by unfold_locales (rule forward_contract)

interpretation news: flow_sender "\<lambda>y t. fst (handle_topic_item y (Some req) t)"
    "\<lambda>y t. snd (handle_topic_item y (Some req) t)" "BroadcastRequest req" for req
  by unfold_locales (simp add: handle_topic_item_def send_message_contract)

lemma poll_ok:
  assumes ok: "flow_ok x f" and healthy: "\<And>s. fst (sk_poll_flush ops s) \<noteq> ReadyErr"
  shows "flow_ok x (flow_step ops x PollOutput f)"
    and "fl_wire (flow_step ops x PollOutput f) @ on_its_way x (fl_conn (flow_step ops x PollOutput f)) =
      fl_wire f @ on_its_way x (fl_conn f)"
proof -
  have wr: "writable (fl_conn f)" using ok by (simp add: flow_ok_def)
  obtain w sent empty where p: "queued (fl_conn f) = sent @ buffer w" "\<not> closing w" "\<not> closed w" "empty \<longrightarrow> buffer w = []"
    "poll_output ops x (fl_turn f) = (sent, let t1 = (fl_turn f)\<lparr>act := (fl_conn f)\<lparr>cn_output := w\<rparr>\<rparr>
       in if empty then buffer_empty x t1 else t1)"
    by (rule poll_output_cases [OF healthy wr])
  let ?c = "(fl_conn f)\<lparr>cn_output := w\<rparr>"
  have c: "writable ?c" "queued ?c = buffer w" "hold_queue ?c = fl_held f" "cn_config ?c = cn_config (fl_conn f)"
    using p(2,3) by (simp_all add: writable_def queued_def)
  have rel: "buffer_empty x ((fl_turn f)\<lparr>act := ?c\<rparr>) =
      (fl_turn f)\<lparr>act := fold out_write (map fst (still_wanted x (fl_held f))) (?c\<lparr>hold_queue := []\<rparr>),
        effects := effects (fl_turn f) @ map (verdict x) (fl_held f)\<rparr>"
    using buffer_empty_releases [of x "(fl_turn f)\<lparr>act := ?c\<rparr>"] held_bound [OF ok] by simp
  have c': "writable (?c\<lparr>hold_queue := []\<rparr>)" using c(1) by simp
  have notified: "NotifyHeld tx \<in> verdict x ` set (fl_held f)" if "tx \<in> snd ` set (fl_held f)" "\<not> canceled x tx" for tx
    using that by (force simp: verdict_def image_iff)
  show "flow_ok x (flow_step ops x PollOutput f)"
    using ok c c' notified
    by (auto simp: p(5) Let_def rel flow_ok_def reader_ok_def others_held_def fold_out_write image_iff
        split: option.splits future.splits)
  show "fl_wire (flow_step ops x PollOutput f) @ on_its_way x (fl_conn (flow_step ops x PollOutput f)) =
      fl_wire f @ on_its_way x (fl_conn f)"
    using p(1,4) c c' by (auto simp: p(5) Let_def rel on_its_way_def fold_out_write)
qed

text \<open>What a step adds to the messages on their way, and what it leaves in the channel.\<close>

lemma read_account:
  assumes "flow_ok x f" and "\<not> canceled x (fl_next_tx f)"
  obtains rs where "fl_wire (flow_step ops x ReadReply f) @ on_its_way x (fl_conn (flow_step ops x ReadReply f)) =
      fl_wire f @ on_its_way x (fl_conn f) @ map CallReply rs" "rs @ fl_pending (flow_step ops x ReadReply f) = fl_pending f"
proof -
  have ok: "reader_ok x f" "writable (fl_conn f)" using assms(1) by (simp_all add: flow_ok_def)
  from ok(1) show ?thesis
  proof (cases rule: read_reply_cases [where ops = ops])
    case (takes r rs fut t1)
    from takes(3) have "on_its_way x (act t1) = on_its_way x (fl_conn f) @ [CallReply r]"
      by (cases rule: response_cases) (use ok(2) assms(2) in \<open>simp_all add: on_its_way_def\<close>)
    with takes show ?thesis by (intro that [of "[r]"]) simp_all
  qed (auto intro: that [of "[]"])
qed

lemma map_filter_replies [simp]:
  "List.map_filter as_reply (map CallReply rs) = rs" "List.map_filter as_request (map CallReply rs) = []"
  "List.map_filter as_broadcast (map CallReply rs) = []"
  by (induction rs) (simp_all add: map_filter_simps)

lemma map_filter_append [simp]: "List.map_filter g (xs @ ys) = List.map_filter g xs @ List.map_filter g ys"
  by (simp add: List.map_filter_def)

definition moved :: "'a ctx \<Rightarrow> ('a, 's) flow \<Rightarrow> 'a flow_event list \<Rightarrow> ('a, 's) flow \<Rightarrow> bool" where
  "moved x f evs f' \<longleftrightarrow> (\<exists>ms. fl_wire f' @ on_its_way x (fl_conn f') = fl_wire f @ on_its_way x (fl_conn f) @ ms
     \<and> List.map_filter as_reply ms @ fl_pending f' = fl_pending f @ arrivals evs
     \<and> List.map_filter as_request ms = forwards evs \<and> List.map_filter as_broadcast ms = broadcasts evs
     \<and> set ms \<subseteq> forwardable)"

lemma flow_step_moves:
  assumes "flow_ok x f" and "\<And>s. fst (sk_poll_flush ops s) \<noteq> ReadyErr" and "calm ops x [ev] f"
  shows "flow_ok x (flow_step ops x ev f) \<and> moved x f (kept ops x [ev] f) (flow_step ops x ev f)"
proof (cases ev)
  case (Arrive r)
  with assms(1) show ?thesis
    by (auto simp: flow_ok_def reader_ok_def others_held_def moved_def map_filter_simps gives_up_def
        split: option.splits future.splits intro!: exI [of _ "[]"])
next
  case ReadReply
  then have reader: "\<not> canceled x (fl_next_tx f)" using assms(3) by simp
  obtain rs where "fl_wire (flow_step ops x ReadReply f) @ on_its_way x (fl_conn (flow_step ops x ReadReply f)) =
      fl_wire f @ on_its_way x (fl_conn f) @ map CallReply rs" "rs @ fl_pending (flow_step ops x ReadReply f) = fl_pending f"
    by (rule read_account [OF assms(1) reader])
  with ReadReply read_ok [OF assms(1) reader] show ?thesis
    by (auto simp: moved_def gives_up_def intro!: exI [of _ "map CallReply rs"])
next
  case (Forward req a)
  let ?ms = "if gives_up x (asked_for x ev f) then [] else [CallRequest req]"
  from Forward call.send_keeps_flow [OF assms(1)] call.send_adds [OF assms(1)] assms(3) show ?thesis
    by (auto simp: moved_def map_filter_simps intro!: exI [of _ ?ms])
next
  case (News req)
  let ?ms = "if gives_up x (asked_for x ev f) then [] else [BroadcastRequest req]"
  from News news.send_keeps_flow [OF assms(1)] news.send_adds [OF assms(1)] assms(3) show ?thesis
    by (auto simp: moved_def map_filter_simps intro!: exI [of _ ?ms])
next
  case PollOutput
  with poll_ok [OF assms(1,2)] show ?thesis
    by (auto simp: moved_def map_filter_simps split_beta gives_up_def intro!: exI [of _ "[]"])
qed (use assms(3) in simp)

lemma arrivals_append: "arrivals (evs @ evs') = arrivals evs @ arrivals evs'"
  by (induction evs rule: arrivals.induct) simp_all

lemma forwards_append: "forwards (evs @ evs') = forwards evs @ forwards evs'"
  by (induction evs rule: forwards.induct) simp_all

lemma broadcasts_append: "broadcasts (evs @ evs') = broadcasts evs @ broadcasts evs'"
  by (induction evs rule: broadcasts.induct) simp_all

lemmas came_in_append = arrivals_append forwards_append broadcasts_append

lemma moved_trans:
  assumes "moved x f evs f1" and "moved x f1 evs' f2"
  shows "moved x f (evs @ evs') f2"
proof -
  obtain ms where ms: "fl_wire f1 @ on_its_way x (fl_conn f1) = fl_wire f @ on_its_way x (fl_conn f) @ ms"
    "List.map_filter as_reply ms @ fl_pending f1 = fl_pending f @ arrivals evs"
    "List.map_filter as_request ms = forwards evs" "List.map_filter as_broadcast ms = broadcasts evs" "set ms \<subseteq> forwardable"
    using assms(1) unfolding moved_def by blast
  obtain ms' where ms': "fl_wire f2 @ on_its_way x (fl_conn f2) = fl_wire f1 @ on_its_way x (fl_conn f1) @ ms'"
    "List.map_filter as_reply ms' @ fl_pending f2 = fl_pending f1 @ arrivals evs'"
    "List.map_filter as_request ms' = forwards evs'" "List.map_filter as_broadcast ms' = broadcasts evs'" "set ms' \<subseteq> forwardable"
    using assms(2) unfolding moved_def by blast
  have "List.map_filter as_reply (ms @ ms') @ fl_pending f2 = fl_pending f @ arrivals (evs @ evs')"
    using ms(2) ms'(2) by (simp add: came_in_append)
  moreover have "fl_wire f2 @ on_its_way x (fl_conn f2) = fl_wire f @ on_its_way x (fl_conn f) @ ms @ ms'"
    using ms(1) ms'(1) by (metis append.assoc)
  ultimately show ?thesis
    unfolding moved_def using ms(3-5) ms'(3-5) by (intro exI [of _ "ms @ ms'"]) (simp add: came_in_append)
qed

lemma flow_run_moves:
  assumes "flow_ok x f" and "\<And>s. fst (sk_poll_flush ops s) \<noteq> ReadyErr" and "calm ops x evs f"
  shows "flow_ok x (flow_run ops x evs f) \<and> moved x f (kept ops x evs f) (flow_run ops x evs f)"
  using assms(1,3)
proof (induction evs arbitrary: f)
  case Nil
  then show ?case by (auto simp: flow_run_def moved_def map_filter_simps intro!: exI [of _ "[]"])
next
  case (Cons ev evs)
  have step: "flow_ok x (flow_step ops x ev f)" "moved x f (kept ops x [ev] f) (flow_step ops x ev f)"
    using flow_step_moves [OF Cons.prems(1) assms(2), of ev] Cons.prems(2) by simp_all
  with Cons.IH [OF step(1)] Cons.prems(2) moved_trans [OF step(2)] show ?case
    by (simp add: flow_run_def)
qed

lemma flow_start_ok:
  assumes "writable (act t)" and "hold_queue (act t) = []" and "0 < mark (act t)"
    and "\<And>tx. Some tx \<in> told ` set (effects t) \<Longrightarrow> tx < n"
  shows "flow_ok x (flow_start n t)"
  using assms by (auto simp: flow_ok_def flow_start_def reader_ok_def others_held_def actor_stream_new_def)

section \<open>Draining\<close>

text \<open>With a transport that is ready, a poll sends all that is queued and releases all that is held.\<close>

lemma waits_for_told:
  assumes "flow_ok x f"
  shows "processing (fl_reader f) = Some (FutHeld tx) \<longrightarrow>
     Some tx \<in> told ` set (effects (fl_turn f)) \<or> Some tx \<in> (\<lambda>h. Some (snd h)) ` set (fl_held f)"
proof
  assume "processing (fl_reader f) = Some (FutHeld tx)"
  then have "tx \<in> snd ` set (fl_held f) \<or> NotifyHeld tx \<in> set (effects (fl_turn f))"
    using assms by (simp add: flow_ok_def reader_ok_def)
  then show "Some tx \<in> told ` set (effects (fl_turn f)) \<or> Some tx \<in> (\<lambda>h. Some (snd h)) ` set (fl_held f)"
    using image_eqI [of "Some tx" told "NotifyHeld tx" "set (effects (fl_turn f))"] by auto
qed

lemma poll_ready:
  assumes "always_ready ops" and ok: "flow_ok x f"
  defines "f1 \<equiv> flow_step ops x PollOutput f"
  shows "queued (fl_conn f1) = map fst (still_wanted x (fl_held f))" "fl_held f1 = []" "reader_free f1" "fl_pending f1 = fl_pending f"
proof -
  have wr: "writable (fl_conn f)" using ok by (simp add: flow_ok_def)
  then obtain s where p: "poll_writer ops True (cn_output (fl_conn f)) = (Waiting True, queued (fl_conn f),
      (cn_output (fl_conn f))\<lparr>buffer := [], sink := s, task := True\<rparr>)"
    using poll_ready_writer [OF assms(1)] by (auto simp: writable_def queued_def)
  let ?c = "(fl_conn f)\<lparr>cn_output := (cn_output (fl_conn f))\<lparr>buffer := [], sink := s, task := True\<rparr>\<rparr>"
  have "poll_output ops x (fl_turn f) = (queued (fl_conn f), buffer_empty x ((fl_turn f)\<lparr>act := ?c\<rparr>))"
    by (simp add: poll_output_def p Let_def)
  moreover have "buffer_empty x ((fl_turn f)\<lparr>act := ?c\<rparr>) =
      (fl_turn f)\<lparr>act := fold out_write (map fst (still_wanted x (fl_held f))) (?c\<lparr>hold_queue := []\<rparr>),
        effects := effects (fl_turn f) @ map (verdict x) (fl_held f)\<rparr>"
    using buffer_empty_releases [of x "(fl_turn f)\<lparr>act := ?c\<rparr>"] held_bound [OF ok] by simp
  moreover have "writable (?c\<lparr>hold_queue := []\<rparr>)" "queued (?c\<lparr>hold_queue := []\<rparr>) = []"
    using wr by (simp_all add: writable_def queued_def)
  ultimately show "queued (fl_conn f1) = map fst (still_wanted x (fl_held f))" "fl_held f1 = []" "fl_pending f1 = fl_pending f"
    and "reader_free f1"
    using waits_for_told [OF ok] by (simp_all add: f1_def fold_out_write reader_free_def image_Un image_image)
qed

text \<open>A round: the writer is polled, then the reader.\<close>

definition flow_rounds :: "nat \<Rightarrow> 'a flow_event list" where
  "flow_rounds n = concat (replicate n [PollOutput, ReadReply])"

lemma flow_rounds_came_in [simp]: "arrivals (flow_rounds n) = []" "forwards (flow_rounds n) = []"
  "broadcasts (flow_rounds n) = []" "kept ops x (flow_rounds n) f = flow_rounds n"
  by (induction n arbitrary: f) (simp_all add: flow_rounds_def gives_up_def)

lemma numbers_used [simp]:
  "fl_next_tx (flow_step ops x ReadReply f) = Suc (fl_next_tx f)"
  "fl_next_tx (flow_step ops x PollOutput f) = fl_next_tx f"
  by (simp_all add: read_reply_step Let_def split_beta split: bool.splits list.splits)

text \<open>The reader waits for every reply it takes from now on.\<close>

definition reader_stays :: "'a ctx \<Rightarrow> ('a, 's) flow \<Rightarrow> bool" where
  "reader_stays x f \<longleftrightarrow> (\<forall>tx \<ge> fl_next_tx f. \<not> canceled x tx)"

lemma reader_stays_on:
  assumes "reader_stays x f"
  shows "\<not> canceled x (fl_next_tx f)" "reader_stays x (flow_step ops x ReadReply f)" "reader_stays x (flow_step ops x PollOutput f)"
  using assms by (simp_all add: reader_stays_def del: flow_step.simps)

lemma rounds_calm:
  assumes "reader_stays x f"
  shows "calm ops x (flow_rounds n @ [PollOutput, PollOutput]) f" "calm ops x (flow_rounds n) f"
  using assms
  by (induction n arbitrary: f) (simp_all add: flow_rounds_def reader_stays_on del: flow_step.simps)

lemma read_takes_one:
  assumes "flow_ok x f" and "reader_free f"
  shows "fl_pending (flow_step ops x ReadReply f) = tl (fl_pending f)"
proof -
  have "reader_ok x f" using assms(1) by (simp add: flow_ok_def)
  then show ?thesis
  proof (cases rule: read_reply_cases [where ops = ops])
    case (waits tx)
    then have "tx \<in> snd ` set (fl_held f)" using assms(1) by (auto simp: flow_ok_def reader_ok_def)
    moreover have "Some tx \<in> told ` set (effects (fl_turn f))" using assms(2) waits(1) by (simp add: reader_free_def)
    ultimately show ?thesis using assms(1) by (auto simp: flow_ok_def)
  qed simp_all
qed

lemma rounds_empty_channel:
  assumes "always_ready ops"
  shows "flow_ok x f \<Longrightarrow> reader_stays x f \<Longrightarrow> flow_ok x (flow_run ops x (flow_rounds n) f)
     \<and> fl_pending (flow_run ops x (flow_rounds n) f) = drop n (fl_pending f)"
proof (induction n arbitrary: f)
  case 0
  then show ?case by (simp add: flow_run_def flow_rounds_def)
next
  case (Suc n)
  let ?f1 = "flow_step ops x PollOutput f"
  have f1: "flow_ok x ?f1" "reader_free ?f1" "fl_pending ?f1 = fl_pending f" "reader_stays x ?f1"
    using poll_ready [OF assms Suc.prems(1)] poll_ok(1) [OF Suc.prems(1) always_ready_flush [OF assms]]
      reader_stays_on(3) [OF Suc.prems(2)]
    by simp_all
  with Suc.IH [OF read_ok [OF f1(1) reader_stays_on(1) [OF f1(4)]] reader_stays_on(2) [OF f1(4)]]
    read_takes_one [OF f1(1,2), of ops] show ?case
    by (simp add: flow_run_def flow_rounds_def drop_Suc)
qed

lemma two_polls_drain:
  assumes "always_ready ops" and "flow_ok x f"
  shows "queued (fl_conn (flow_run ops x [PollOutput, PollOutput] f)) = []"
    and "fl_held (flow_run ops x [PollOutput, PollOutput] f) = []"
    and "fl_pending (flow_run ops x [PollOutput, PollOutput] f) = fl_pending f"
proof -
  let ?f1 = "flow_step ops x PollOutput f"
  have "flow_ok x ?f1" by (rule poll_ok(1) [OF assms(2) always_ready_flush [OF assms(1)]])
  with poll_ready [OF assms] poll_ready [OF assms(1), of x ?f1]
  show "queued (fl_conn (flow_run ops x [PollOutput, PollOutput] f)) = []"
    and "fl_held (flow_run ops x [PollOutput, PollOutput] f) = []"
    and "fl_pending (flow_run ops x [PollOutput, PollOutput] f) = fl_pending f"
    by (simp_all add: flow_run_def)
qed

lemma flow_run_append: "flow_run ops x (evs @ evs') f = flow_run ops x evs' (flow_run ops x evs f)"
  by (simp add: flow_run_def)

definition drained where
  "drained ops x f = flow_run ops x (flow_rounds (length (fl_pending f)) @ [PollOutput, PollOutput]) f"

lemma drained_all:
  assumes "always_ready ops" and "flow_ok x f" and "reader_stays x f"
  shows "queued (fl_conn (drained ops x f)) = []" "fl_held (drained ops x f) = []" "fl_pending (drained ops x f) = []"
    and "flow_ok x (drained ops x f)" "moved x f [] (drained ops x f)"
proof -
  let ?n = "length (fl_pending f)"
  let ?f1 = "flow_run ops x (flow_rounds ?n) f"
  have ok: "flow_ok x ?f1" "fl_pending ?f1 = []"
    using rounds_empty_channel [OF assms, of ?n] by simp_all
  have m: "moved x f (flow_rounds ?n) ?f1"
    using flow_run_moves [OF assms(2) always_ready_flush [OF assms(1)] rounds_calm(2) [OF assms(3)], of ?n] by simp
  have two: "flow_ok x (drained ops x f)" "moved x ?f1 [PollOutput, PollOutput] (drained ops x f)"
    using flow_run_moves [OF ok(1) always_ready_flush [OF assms(1)], of "[PollOutput, PollOutput]"]
    by (simp_all add: drained_def flow_run_append gives_up_def)
  show "queued (fl_conn (drained ops x f)) = []" "fl_held (drained ops x f) = []" "fl_pending (drained ops x f) = []"
    using two_polls_drain [OF assms(1) ok(1)] ok(2) by (simp_all add: drained_def flow_run_append)
  show "flow_ok x (drained ops x f)" by (rule two(1))
  show "moved x f [] (drained ops x f)"
    using moved_trans [OF m two(2)] by (simp add: moved_def came_in_append)
qed

text \<open>Draining does not touch the table of the callers.\<close>

lemma drain_hold_frame: "reply_map (act (drain_hold gone n q t)) = reply_map (act t)"
  by (induction gone n q t rule: drain_hold.induct) (auto simp: emit_def drop_all_effects)

lemma poll_output_frame: "reply_map (act (snd (poll_output ops x t))) = reply_map (act t)"
  by (simp add: poll_output_def buffer_empty_def drain_hold_frame emit_def split_beta Let_def split: poll_result.splits)

section \<open>Properties\<close>

lemma moved_from_start:
  assumes "moved x (flow_start n t) evs f" and "hold_queue (act t) = []"
  shows "\<exists>ms. fl_wire f @ on_its_way x (fl_conn f) = queued (act t) @ ms
     \<and> List.map_filter as_reply ms @ fl_pending f = arrivals evs \<and> List.map_filter as_request ms = forwards evs
     \<and> List.map_filter as_broadcast ms = broadcasts evs \<and> set ms \<subseteq> forwardable"
  using assms by (auto simp: moved_def flow_start_def on_its_way_def)

text \<open>Whoever gives up, the replies all get there: the reader of the channel is not among them.\<close>

lemma arrivals_kept [simp]: "arrivals (kept ops x evs f) = arrivals evs"
proof (induction evs arbitrary: f)
  case (Cons ev evs)
  then show ?case by (cases ev) (simp_all add: gives_up_def del: flow_step.simps)
qed simp

text \<open>
  As long as fewer senders wait than one release can write, what has been written, what is queued and
  what is held for those who wait together are what was there before and exactly what was taken, in order
  for each kind; only what a sender has given up on is missing.
\<close>

lemma calm_flow_loses_nothing:
  assumes start: "writable (act t)" "hold_queue (act t) = []" "0 < mark (act t)"
      "\<forall>e \<in> set (effects t). \<forall>tx. told e = Some tx \<longrightarrow> tx < n"
    and healthy: "\<And>s. fst (sk_poll_flush ops s) \<noteq> ReadyErr"
    and few: "calm ops x evs (flow_start n t)"
  shows "let f = flow_run ops x evs (flow_start n t); taken = kept ops x evs (flow_start n t) in
       length (still_wanted x (fl_held f)) \<le> mark (fl_conn f)
     \<and> (\<exists>ms. fl_wire f @ queued (fl_conn f) @ map fst (still_wanted x (fl_held f)) = queued (act t) @ ms
          \<and> List.map_filter as_reply ms @ fl_pending f = arrivals evs \<and> List.map_filter as_request ms = forwards taken
          \<and> List.map_filter as_broadcast ms = broadcasts taken \<and> set ms \<subseteq> forwardable)
     \<and> (always_ready ops \<and> reader_stays x f \<longrightarrow> (\<exists>ms. fl_wire (drained ops x f) = queued (act t) @ ms
          \<and> List.map_filter as_reply ms = arrivals evs \<and> List.map_filter as_request ms = forwards taken
          \<and> List.map_filter as_broadcast ms = broadcasts taken \<and> set ms \<subseteq> forwardable))"
proof -
  let ?f = "flow_run ops x evs (flow_start n t)" and ?taken = "kept ops x evs (flow_start n t)"
  have "flow_ok x (flow_start n t)"
    by (rule flow_start_ok [OF start(1,2,3)]) (use start(4) in force)
  then have f: "flow_ok x ?f" "moved x (flow_start n t) ?taken ?f"
    using flow_run_moves [OF _ healthy few] by simp_all
  have "moved x (flow_start n t) ?taken (drained ops x ?f)" if "always_ready ops" "reader_stays x ?f"
    using moved_trans [OF f(2) drained_all(5) [OF that(1) f(1) that(2)]] by simp
  then show ?thesis
    using held_bound [OF f(1)] moved_from_start [OF f(2) start(2)] moved_from_start [OF _ start(2)]
      drained_all(1-3) [OF _ f(1)]
    by (fastforce simp: Let_def on_its_way_def)
qed

text \<open>A buffer of two, and four replies.\<close>

definition tight_turn :: "(nat, nat) turn" where
  "tight_turn = sample_turn\<lparr>act := (act sample_turn)\<lparr>cn_config :=
     (cn_config (act sample_turn))\<lparr>ic_config := (ic_config (cn_config (act sample_turn)))\<lparr>high_buffer_mark := 2\<rparr>\<rparr>\<rparr>\<rparr>"

definition sample_replies :: "call_reply list" where
  "sample_replies = map (\<lambda>i. \<lparr>crp_request_id = ''r1'', crp_code = 0, crp_reply_type = 1, crp_data = [i]\<rparr>) [1, 2, 3, 4]"

lemma tight_turn_simps [simp]:
  "writable (act tight_turn)" "hold_queue (act tight_turn) = []" "mark (act tight_turn) = 2" "queued (act tight_turn) = []"
  "effects tight_turn = []" "rt tight_turn = empty_router"
  using sample_turn_simps(1,2) by (simp_all add: tight_turn_def queued_def writable_def)

end
