(* ===== verification/Senders.thy ===== *)
theory Senders
  imports Flow
begin

text \<open>
  Who sends to a client through its connection at the router, and how many of their messages can be
  held back at a time. Besides the reader of the replies (\<open>Flow\<close>) there are the connections whose
  clients call (their reader waits until a forwarded call is taken, \<^verbatim>\<open>handle_call_request\<close>) and the
  streams of the subscribed topics (each waits until a broadcast is taken, \<^verbatim>\<open>fold\<close> over
  \<^verbatim>\<open>wrap_stream(rx)\<close>). Since each of them waits for its own message, no more messages are held than there
  are senders.
\<close>

section \<open>Senders and what they wait for\<close>

datatype 'a sender = CallerOf 'a | TopicStream string

fun sender_of :: "'a flow_event \<Rightarrow> 'a sender option" where
  "sender_of (Forward req a) = Some (CallerOf a)"
| "sender_of (News req) = Some (TopicStream (brq_topic req))"
| "sender_of _ = None"

text \<open>What the future returned to each sender waits for; none if it was ready at once.\<close>

type_synonym 'a waits = "'a sender \<Rightarrow> oneshot option"

definition waits_after :: "'a ctx \<Rightarrow> 'a flow_event \<Rightarrow> ('a, 's) flow \<Rightarrow> 'a waits \<Rightarrow> 'a waits" where
  "waits_after x ev f w = (case sender_of ev of None \<Rightarrow> w | Some s \<Rightarrow> w(s := asked_for x ev f))"

definition answered :: "('a, 's) flow \<Rightarrow> oneshot option \<Rightarrow> bool" where
  "answered f w = (case w of None \<Rightarrow> True | Some tx \<Rightarrow> Some tx \<in> told ` set (effects (fl_turn f)))"

text \<open>
  The connection is not dropped, its reader waits for every reply, and every other sender has been
  answered before it sends again, or has given up.
\<close>

abbreviation at_rest :: "'a ctx \<Rightarrow> ('a, 's) flow \<Rightarrow> oneshot option \<Rightarrow> bool" where
  "at_rest x f w \<equiv> answered f w \<or> gives_up x w"

fun patient :: "('s, gsb_message) sink_ops \<Rightarrow> 'a ctx \<Rightarrow> 'a flow_event list \<Rightarrow> 'a waits \<Rightarrow> ('a, 's) flow \<Rightarrow> bool" where
  "patient ops x [] w f = True"
| "patient ops x (ev # evs) w f =
     (ev \<noteq> Dropped \<and> (ev = ReadReply \<longrightarrow> \<not> canceled x (fl_next_tx f))
      \<and> (case sender_of ev of None \<Rightarrow> True | Some s \<Rightarrow> at_rest x f (w s))
      \<and> patient ops x evs (waits_after x ev f w) (flow_step ops x ev f))"

definition senders :: "'a flow_event list \<Rightarrow> 'a sender set" where
  "senders evs = set (List.map_filter sender_of evs)"

section \<open>Every held message has a sender that waits for it\<close>

abbreviation awaited :: "'a ctx \<Rightarrow> ('a, 's) flow \<Rightarrow> oneshot set" where
  "awaited x f \<equiv> snd ` set (still_wanted x (fl_held f))"

definition waits_ok :: "'a ctx \<Rightarrow> 'a sender set \<Rightarrow> 'a waits \<Rightarrow> ('a, 's) flow \<Rightarrow> bool" where
  "waits_ok x S w f \<longleftrightarrow> (\<forall>tx \<in> awaited x f.
     processing (fl_reader f) = Some (FutHeld tx) \<or> (\<exists>s \<in> S. w s = Some tx))"

lemma at_rest_not_awaited:
  "flow_ok x f \<Longrightarrow> at_rest x f (Some tx) \<Longrightarrow> tx \<notin> awaited x f"
  by (auto simp: flow_ok_def answered_def gives_up_def)

lemma held_count:
  assumes "flow_ok x f" and "waits_ok x S w f" and "finite S" and "s \<in> S" and "at_rest x f (w s)"
  shows "length (still_wanted x (fl_held f)) \<le> card S"
proof -
  let ?reader = "{tx. processing (fl_reader f) = Some (FutHeld tx)}"
  have "awaited x f \<subseteq> ?reader \<union> (\<lambda>s. the (w s)) ` (S - {s})"
  proof
    fix tx
    assume tx: "tx \<in> awaited x f"
    then have "w s \<noteq> Some tx" using at_rest_not_awaited [OF assms(1)] assms(5) by metis
    with tx assms(2) show "tx \<in> ?reader \<union> (\<lambda>s. the (w s)) ` (S - {s})"
      unfolding waits_ok_def by (force simp: image_iff)
  qed
  moreover have "finite ?reader" "card ?reader \<le> 1"
    by (cases "processing (fl_reader f)"; cases "\<exists>tx. processing (fl_reader f) = Some (FutHeld tx)"; auto)+
  moreover have "card ((\<lambda>s. the (w s)) ` (S - {s})) \<le> card S - 1"
    using assms(3,4) card_image_le [of "S - {s}"] by simp
  moreover have "0 < card S" using assms(3,4) by (auto simp: card_gt_0_iff)
  moreover have "distinct (map snd (still_wanted x (fl_held f)))" using assms(1) by (simp add: flow_ok_def distinct_still_wanted)
  then have "length (still_wanted x (fl_held f)) = card (awaited x f)"
    using distinct_card [of "map snd (still_wanted x (fl_held f))"] by (simp del: still_wanted_simps)
  ultimately show ?thesis
    using card_mono [of "?reader \<union> (\<lambda>s. the (w s)) ` (S - {s})" "awaited x f"]
      card_Un_le [of ?reader "(\<lambda>s. the (w s)) ` (S - {s})"] assms(3)
    by simp
qed

text \<open>A sender waits for what its message is held under.\<close>

context flow_sender
begin

lemma send_keeps_waits:
  assumes "flow_ok x f" and "waits_ok x S w f" and "s \<in> S" and "at_rest x f (w s)"
  shows "waits_ok x S (w(s := ask (numbered x f) (fl_turn f)))
    (f\<lparr>fl_turn := send (numbered x f) (fl_turn f), fl_next_tx := Suc (fl_next_tx f)\<rparr>)"
proof -
  let ?f = "f\<lparr>fl_turn := send (numbered x f) (fl_turn f), fl_next_tx := Suc (fl_next_tx f)\<rparr>"
    and ?w = "w(s := ask (numbered x f) (fl_turn f))"
  have new: "tx \<in> awaited x f \<or> ask (numbered x f) (fl_turn f) = Some tx" if "tx \<in> awaited x ?f" for tx
    using that sends_flow [OF assms(1)] by (auto simp: sent_or_held_def split: option.splits)
  have old: "processing (fl_reader f) = Some (FutHeld tx) \<or> (\<exists>s' \<in> S. ?w s' = Some tx)"
    if held: "tx \<in> awaited x f" for tx
  proof -
    have "w s \<noteq> Some tx" using at_rest_not_awaited [OF assms(1)] assms(4) held by metis
    moreover have "processing (fl_reader f) = Some (FutHeld tx) \<or> (\<exists>s' \<in> S. w s' = Some tx)"
      using assms(2) held unfolding waits_ok_def by blast
    ultimately show ?thesis by (metis fun_upd_other)
  qed
  have "\<forall>tx \<in> awaited x ?f. processing (fl_reader f) = Some (FutHeld tx) \<or> (\<exists>s' \<in> S. ?w s' = Some tx)"
    using new old assms(3) by (metis fun_upd_same)
  then show ?thesis unfolding waits_ok_def by simp
qed

end

section \<open>Patience keeps the flow calm\<close>

lemma poll_output_hold:
  "hold_queue (act (snd (poll_output ops x t))) \<in> {hold_queue (act t), []}"
  "cn_config (act (snd (poll_output ops x t))) = cn_config (act t)"
proof -
  have keep: "hold_queue (fold out_write ms c) = hold_queue c" "cn_config (fold out_write ms c) = cn_config c"
    for ms and c :: "('a, 'b) connection"
    by (induction ms arbitrary: c) simp_all
  show "hold_queue (act (snd (poll_output ops x t))) \<in> {hold_queue (act t), []}"
    "cn_config (act (snd (poll_output ops x t))) = cn_config (act t)"
    by (simp_all add: poll_output_def buffer_empty_def drain_hold_act keep emit_def split_beta Let_def
        split: poll_result.splits)
qed

lemma flow_step_config:
  assumes "flow_ok x f" and "ev \<noteq> Dropped"
  shows "cn_config (fl_conn (flow_step ops x ev f)) = cn_config (fl_conn f)"
proof (cases ev)
  case ReadReply
  have "reader_ok x f" using assms(1) by (simp add: flow_ok_def)
  then show ?thesis
    unfolding ReadReply
    by (cases rule: read_reply_cases [where ops = ops]) (auto elim!: response_cases)
qed (use assms in \<open>simp_all add: handle_forward_request_def handle_topic_item_def poll_output_hold split_beta\<close>)

lemma wait_step:
  assumes "flow_ok x f" and "waits_ok x S w f" and "ev \<noteq> Dropped"
    and "case sender_of ev of None \<Rightarrow> True | Some s \<Rightarrow> s \<in> S \<and> at_rest x f (w s)"
  shows "waits_ok x S (waits_after x ev f w) (flow_step ops x ev f)"
proof (cases ev)
  case ReadReply
  have free: "\<exists>s \<in> S. w s = Some tx" if "reader_free f" "tx \<in> awaited x f" for tx
  proof -
    have "tx \<in> snd ` set (fl_held f)" using that(2) by auto
    then have "processing (fl_reader f) \<noteq> Some (FutHeld tx)"
      using that(1) assms(1) unfolding reader_free_def flow_ok_def by blast
    with that(2) assms(2) show ?thesis unfolding waits_ok_def by blast
  qed
  have w: "waits_after x ev f w = w" using ReadReply by (simp add: waits_after_def)
  have "reader_ok x f" using assms(1) by (simp add: flow_ok_def)
  then show ?thesis
    unfolding ReadReply w [unfolded ReadReply]
  proof (cases rule: read_reply_cases [where ops = ops])
    case (waits tx)
    with assms(2) show "waits_ok x S w (flow_step ops x ReadReply f)" by (simp add: waits_ok_def)
  next
    case idle
    with free [OF idle(2)] show "waits_ok x S w (flow_step ops x ReadReply f)" by (simp add: waits_ok_def)
  next
    case (takes r rs fut t1)
    from takes(3) have "snd ` set (still_wanted x (hold_queue (act t1))) \<subseteq> awaited x f \<union> {tx. fut = FutHeld tx}"
      by (cases rule: response_cases) auto
    then have "\<forall>tx \<in> snd ` set (still_wanted x (hold_queue (act t1))). fut = FutHeld tx \<or> (\<exists>s \<in> S. w s = Some tx)"
      using free [OF takes(2)] by blast
    with takes(4) show "waits_ok x S w (flow_step ops x ReadReply f)" by (simp add: waits_ok_def)
  qed
next
  case (Forward req a)
  with assms call.send_keeps_waits [OF assms(1,2), of "CallerOf a" req a] show ?thesis by (simp add: waits_after_def)
next
  case (News req)
  with assms news.send_keeps_waits [OF assms(1,2), of "TopicStream (brq_topic req)" req] show ?thesis
    by (simp add: waits_after_def)
next
  case PollOutput
  with assms(2) poll_output_hold(1) [of ops x "fl_turn f"] show ?thesis
    by (elim insertE emptyE) (simp_all add: waits_ok_def waits_after_def split_beta)
qed (use assms in \<open>simp_all add: waits_ok_def waits_after_def\<close>)

lemma patient_calm:
  assumes "\<And>s. fst (sk_poll_flush ops s) \<noteq> ReadyErr" and "finite S"
  shows "flow_ok x f \<Longrightarrow> waits_ok x S w f \<Longrightarrow> senders evs \<subseteq> S \<Longrightarrow> Suc (card S) < mark (fl_conn f)
     \<Longrightarrow> patient ops x evs w f \<Longrightarrow> calm ops x evs f"
proof (induction evs arbitrary: w f)
  case (Cons ev evs)
  have ev: "ev \<noteq> Dropped" "case sender_of ev of None \<Rightarrow> True | Some s \<Rightarrow> s \<in> S \<and> at_rest x f (w s)" "senders evs \<subseteq> S"
    "ev = ReadReply \<longrightarrow> \<not> canceled x (fl_next_tx f)"
    using Cons.prems(3,5) by (auto simp: senders_def map_filter_simps split: option.splits)
  have "Suc (length (still_wanted x (fl_held f))) < mark (fl_conn f)" if "sender_of ev = Some s" for s
    using held_count [OF Cons.prems(1,2) assms(2), of s] ev(2) that Cons.prems(4) by simp
  then have now: "calm ops x [ev] f" using ev(1,4) by (cases ev) auto
  moreover have "calm ops x evs (flow_step ops x ev f)"
  proof (rule Cons.IH)
    show "flow_ok x (flow_step ops x ev f)"
      using flow_step_moves [OF Cons.prems(1) assms(1) now] by blast
    show "waits_ok x S (waits_after x ev f w) (flow_step ops x ev f)"
      by (rule wait_step [OF Cons.prems(1,2) ev(1,2)])
    show "Suc (card S) < mark (fl_conn (flow_step ops x ev f))"
      using Cons.prems(4) by (simp add: flow_step_config [OF Cons.prems(1) ev(1)])
  qed (use Cons.prems(5) ev(3) in simp_all)
  ultimately show ?case by simp
qed simp

section \<open>Properties\<close>

text \<open>
  C24. Back-pressure loses nothing. Let a connection take replies from its channel, calls from other
  connections and broadcasts of its topics in any order, with its writer polled in between; let each
  caller and each topic send again only when its last message has been taken, as the futures it waits
  for make it do, or when it has given up on it, and let there be at least two fewer of them than the
  high mark; let the connection not be dropped for a newer one of the same instance. As long as the
  transport works, what has been written, what is queued and what is held for those who still wait
  together are what was there before and exactly what was taken: the replies, and the calls and
  broadcasts that were not given up, are each in the order in which they came, there is nothing else, the
  replies not taken yet are still in the channel, and no more messages are held for those who wait than
  one release can write. When the transport is ready, as many rounds as there are replies in the channel,
  and two polls of the writer, bring everything to the client.
\<close>

theorem backpressure_loses_nothing:
  assumes start: "writable (act t)" "hold_queue (act t) = []"
      "\<forall>e \<in> set (effects t). \<forall>tx. told e = Some tx \<longrightarrow> tx < n"
    and healthy: "\<And>s. fst (sk_poll_flush ops s) \<noteq> ReadyErr"
    and few: "Suc (card (senders evs)) < mark (act t)" and patience: "patient ops x evs (\<lambda>_. None) (flow_start n t)"
  shows "let f = flow_run ops x evs (flow_start n t); taken = kept ops x evs (flow_start n t) in
       length (still_wanted x (fl_held f)) \<le> mark (fl_conn f)
     \<and> (\<exists>ms. fl_wire f @ queued (fl_conn f) @ map fst (still_wanted x (fl_held f)) = queued (act t) @ ms
          \<and> List.map_filter as_reply ms @ fl_pending f = arrivals evs \<and> List.map_filter as_request ms = forwards taken
          \<and> List.map_filter as_broadcast ms = broadcasts taken \<and> set ms \<subseteq> forwardable)
     \<and> (always_ready ops \<and> reader_stays x f \<longrightarrow> (\<exists>ms. fl_wire (drained ops x f) = queued (act t) @ ms
          \<and> List.map_filter as_reply ms = arrivals evs \<and> List.map_filter as_request ms = forwards taken
          \<and> List.map_filter as_broadcast ms = broadcasts taken \<and> set ms \<subseteq> forwardable))"
proof -
  have mark: "0 < mark (act t)" using few by simp
  have "flow_ok x (flow_start n t)"
    by (rule flow_start_ok [OF start(1,2) mark]) (use start(3) in force)
  moreover have "waits_ok x (senders evs) (\<lambda>_. None) (flow_start n t)"
    by (simp add: waits_ok_def flow_start_def start(2))
  ultimately have "calm ops x evs (flow_start n t)"
    using patient_calm [OF healthy, of "senders evs"] few patience
    by (simp add: senders_def flow_start_def)
  from calm_flow_loses_nothing [OF start(1,2) mark start(3) healthy this] show ?thesis .
qed

text \<open>
  A buffer of five, two callers and a topic: the first caller calls twice, the second once, the topic has
  news twice, and four replies come in. The second news does not fit and its stream gives up.
\<close>

definition narrow_turn :: "(nat, nat) turn" where
  "narrow_turn = sample_turn\<lparr>act := (act sample_turn)\<lparr>cn_config :=
     (cn_config (act sample_turn))\<lparr>ic_config := (ic_config (cn_config (act sample_turn)))\<lparr>high_buffer_mark := 5\<rparr>\<rparr>\<rparr>\<rparr>"

lemma narrow_turn_simps [simp]:
  "writable (act narrow_turn)" "hold_queue (act narrow_turn) = []" "mark (act narrow_turn) = 5" "queued (act narrow_turn) = []"
  "effects narrow_turn = []"
  using sample_turn_simps(1,2) by (simp_all add: narrow_turn_def queued_def writable_def)

definition sample_news :: broadcast_request where
  "sample_news = \<lparr>brq_caller = ''c'', brq_data = [1], brq_topic = ''t''\<rparr>"

definition stale_news :: broadcast_request where
  "stale_news = sample_news\<lparr>brq_data := [2]\<rparr>"

definition busy_events :: "nat flow_event list" where
  "busy_events = [Forward sample_call 7, Forward sample_call 7, Forward sample_call 8, News sample_news, News sample_news,
       News stale_news, News sample_news]
     @ map Arrive sample_replies @ [ReadReply, ReadReply, ReadReply]"

definition hasty_ctx :: "nat ctx" where
  "hasty_ctx = sample_ctx\<lparr>canceled := (\<lambda>tx. tx = 5)\<rparr>"

theorem backpressure_loses_nothing_witness:
  "let f = flow_run ready_sink hasty_ctx busy_events (flow_start 0 narrow_turn)
   in \<exists>ms. fl_wire (drained ready_sink hasty_ctx f) = ms
        \<and> List.map_filter as_reply ms = sample_replies \<and> List.map_filter as_request ms = replicate 3 sample_call
        \<and> List.map_filter as_broadcast ms = replicate 3 sample_news"
proof -
  let ?start = "flow_start 0 narrow_turn :: (nat, nat) flow"
  have "senders busy_events = {CallerOf 7, CallerOf 8, TopicStream ''t''}"
    by (simp add: busy_events_def senders_def sample_news_def stale_news_def sample_replies_def map_filter_simps insert_commute)
  moreover have "patient ready_sink hasty_ctx busy_events (\<lambda>_. None) ?start"
    by (simp add: busy_events_def sample_replies_def answered_def flow_start_def handle_forward_request_def
        send_message_def buffer_len_def queued_def [symmetric] sample_news_def stale_news_def Let_def waits_after_def
        gives_up_def hasty_ctx_def handle_topic_item_def sample_call_def)
  moreover have "reader_stays hasty_ctx (flow_run ready_sink hasty_ctx busy_events ?start)"
    by (simp add: busy_events_def sample_replies_def flow_run_def reader_stays_def hasty_ctx_def flow_start_def)
  moreover have "kept ready_sink hasty_ctx busy_events ?start = filter (\<lambda>ev. ev \<noteq> News stale_news) busy_events"
    by (simp add: busy_events_def sample_replies_def flow_start_def handle_forward_request_def
        send_message_def buffer_len_def queued_def [symmetric] sample_news_def stale_news_def Let_def
        gives_up_def hasty_ctx_def handle_topic_item_def sample_call_def)
  moreover have "arrivals busy_events = sample_replies"
    "forwards (filter (\<lambda>ev. ev \<noteq> News stale_news) busy_events) = replicate 3 sample_call"
    "broadcasts (filter (\<lambda>ev. ev \<noteq> News stale_news) busy_events) = replicate 3 sample_news"
    by (simp_all add: busy_events_def sample_replies_def numeral_3_eq_3 sample_news_def stale_news_def)
  ultimately show ?thesis
    using backpressure_loses_nothing [of narrow_turn 0 ready_sink busy_events hasty_ctx,
        OF _ _ _ always_ready_flush [OF ready_sink_ready]]
    by (simp add: Let_def)
qed

end
