(* ===== verification/Routes.thy ===== *)
theory Routes
  imports Router_System Remote_Router Call_Handler Senders
begin

text \<open>
  The way of a call through the whole bus: from the client that calls, through its connection at the
  router and the connection of the service, to the client that serves, and back. Every hop is run on
  exactly what the hop before has put out: the messages a client wrote, the mail a router connection
  posted, the messages it wrote to its client. The connections hold back what their buffers have no room
  for, and release it, as in \<open>Flow\<close>.
\<close>

section \<open>Hops\<close>

definition new_messages :: "'s client_connection \<Rightarrow> 's client_connection \<Rightarrow> gsb_message list" where
  "new_messages c c' = drop (length (cl_queued c)) (cl_queued c')"

definition router_in :: "nat ctx \<Rightarrow> gsb_message list \<Rightarrow> (nat, 's) turn \<Rightarrow> (nat, 's) turn" where
  "router_in x ms t = fold (\<lambda>m t. snd (handle_input x (Inr m) t)) ms t"

definition posted :: "nat \<Rightarrow> nat \<Rightarrow> (nat, 's) turn \<Rightarrow> (nat, 's) turn \<Rightarrow> mail list" where
  "posted src dst t t' =
     map snd (filter (\<lambda>(a, _). a = dst) (concat (map (mail_of src) (drop (length (effects t)) (effects t')))))"

definition mail_in :: "nat ctx \<Rightarrow> mail list \<Rightarrow> (nat, 's) turn \<Rightarrow> (nat, 's) turn" where
  "mail_in x ms t = fold (receive x) ms t"

definition written :: "(nat, 's) turn \<Rightarrow> (nat, 's) turn \<Rightarrow> gsb_message list" where
  "written t t' = drop (length (queued (act t))) (queued (act t'))"

fun client_in :: "gsb_message list \<Rightarrow> 's client_connection \<Rightarrow> 's client_turn" where
  "client_in [] c = (c, [])"
| "client_in (m # ms) c =
     (case cl_handle (Inr m) c of (c1, es1) \<Rightarrow> case client_in ms c1 of (c2, es2) \<Rightarrow> (c2, es1 @ es2))"

text \<open>
  What a connection writes to its client for the mail it gets, once everything is drained. What had been
  queued before goes out ahead of it.
\<close>

fun flow_mail :: "mail \<Rightarrow> nat flow_event" where
  "flow_mail (MForward req a) = Forward req a"
| "flow_mail (MResponse a r) = Arrive r"
| "flow_mail MDrop = Dropped"

definition fresh_number :: "('a, 's) turn \<Rightarrow> oneshot" where
  "fresh_number t = Suc (fold max (List.map_filter told (effects t)) 0)"

definition hop where
  "hop ops x evs t = (let f = drained ops x (flow_run ops x evs (flow_start (fresh_number t) t))
     in (drop (length (queued (act t))) (fl_wire f), fl_turn f))"

definition hop_in where
  "hop_in ops x ms t = hop ops x (map flow_mail ms) t"

text \<open>
  Calls from one connection come one by one: its reader waits until a call is taken before it reads the
  next one, so each call is a hop of its own.
\<close>

fun hops where
  "hops ops x [] t = ([], t)"
| "hops ops x (m # ms) t =
     (case hop_in ops x [m] t of (sent, t1) \<Rightarrow> case hops ops x ms t1 of (sents, t2) \<Rightarrow> (sent @ sents, t2))"

text \<open>The items that arrive in a reply channel.\<close>

fun received :: "reply_channel \<Rightarrow> client_effect list \<Rightarrow> chunks" where
  "received ch [] = []"
| "received ch (DeliverChunk r item # es) = (if r = ch then item # received ch es else received ch es)"
| "received ch (_ # es) = received ch es"

text \<open>
  The four parties, the caller's side first, with the transports of the router's two connections, and a
  call that has just been written by the caller.
\<close>

record ('a, 'b, 'c, 'd) parties =
  caller_client :: "'a client_connection"
  caller_turn :: "(nat, 'b) turn"
  service_turn :: "(nat, 'c) turn"
  service_client :: "'d client_connection"
  caller_out :: "('b, gsb_message) sink_ops"
  service_out :: "('c, gsb_message) sink_ops"

definition route ::
  "nat ctx \<Rightarrow> nat ctx \<Rightarrow> (gsb_error \<Rightarrow> string) \<Rightarrow> call_handler \<Rightarrow> 'a client_connection
   \<Rightarrow> ('a, 'b, 'c, 'd) parties \<Rightarrow> client_effect list \<times> ('a, 'b, 'c, 'd) parties" where
  "route xa xb display do_call ca1 ps =
     (let ta1 = router_in xa (new_messages (caller_client ps) ca1) (caller_turn ps);
          (to_service, tb1) = hop_in (service_out ps) xb (posted (address xa) (address xb) (caller_turn ps) ta1) (service_turn ps);
          (cb1, asked) = client_in to_service (service_client ps);
          cb2 = fold (run_call display do_call) asked cb1;
          tb2 = router_in xb (new_messages cb1 cb2) tb1;
          (to_caller, ta2) = hop_in (caller_out ps) xa (posted (address xb) (address xa) tb1 tb2) ta1;
          (ca2, got) = client_in to_caller ca1
      in (got, ps\<lparr>caller_client := ca2, caller_turn := ta2, service_turn := tb2, service_client := cb2\<rparr>))"

text \<open>A call and a streaming call over such a route, as \<^verbatim>\<open>ConnectionRef\<close> offers them.\<close>

definition routed_call where
  "routed_call xa xb display do_call random ch ps msg =
     (case cl_rpc_raw_call random ch msg (caller_client ps) of
        (None, _) \<Rightarrow> Inr []
      | (Some _, ca1) \<Rightarrow>
          ref_call (rc_addr msg) (Inr (fetch_response
            (case received ch (fst (route xa xb display do_call ca1 ps)) of [] \<Rightarrow> None | item # _ \<Rightarrow> Some item))))"

definition routed_stream where
  "routed_stream xa xb display do_call random ps msg =
     received (rsc_reply msg)
       (fst (route xa xb display do_call (cl_rpc_raw_stream_call random msg (caller_client ps)) ps))"

section \<open>What the route carries\<close>

text \<open>The items up to the first one that ends a call.\<close>

fun final_item :: "gsb_error + response_chunk \<Rightarrow> bool" where
  "final_item (Inr chunk) = is_full chunk"
| "final_item (Inl e) = True"

fun until_final :: "chunks \<Rightarrow> chunks" where
  "until_final [] = [Inr (FullChunk [])]"
| "until_final (i # rest) = (if final_item i then [i] else i # until_final rest)"

text \<open>What the caller sees of an item: an error only as its text.\<close>

fun seen_item :: "(gsb_error \<Rightarrow> string) \<Rightarrow> gsb_error + response_chunk \<Rightarrow> gsb_error + response_chunk" where
  "seen_item display (Inr chunk) = Inr chunk"
| "seen_item display (Inl e) = Inl (GsbFailure (display e))"

fun until_full :: "call_reply list \<Rightarrow> call_reply list" where
  "until_full [] = []"
| "until_full (r # rs) = (if get_reply_type r = Full then [r] else r # until_full rs)"

lemma until_full_append:
  "(\<exists>r \<in> set rs. get_reply_type r = Full) \<Longrightarrow> until_full (rs @ ss) = until_full rs"
  "(\<forall>r \<in> set rs. get_reply_type r \<noteq> Full) \<Longrightarrow> until_full (rs @ ss) = rs @ until_full ss"
  by (induction rs) auto

lemma final_item_reply:
  "get_reply_type (snd (reply_of_item display rid i)) = Full \<longleftrightarrow> final_item i"
proof (cases i)
  case (Inr chunk)
  then show ?thesis by (cases chunk) (simp_all add: reply_of_item_def get_reply_type_def)
qed (simp add: reply_of_item_def get_reply_type_def)

lemma until_final_replies:
  "until_full (stream_replies display rid items) =
     map (\<lambda>i. snd (reply_of_item display rid i)) (until_final items)"
proof (induction items)
  case Nil
  show ?case by (simp add: stream_replies_def reply_of_item_def get_reply_type_def)
next
  case (Cons i rest)
  show ?case
  proof (cases "final_item i")
    case True
    then show ?thesis using final_item_reply [of display rid i] by (simp add: stream_replies_def)
  next
    case False
    then have "fst (reply_of_item display rid i) = False" "get_reply_type (snd (reply_of_item display rid i)) \<noteq> Full"
      using final_item_reply [of display rid i] reply_of_item_eos [of display rid i] by simp_all
    with False Cons show ?thesis by (cases "rest = []") (simp_all add: stream_replies_def)
  qed
qed

lemma until_full_subset: "set (until_full rs) \<subseteq> set rs"
  by (induction rs) auto

lemma length_until_full: "length (until_full rs) \<le> length rs"
  by (induction rs) auto

section \<open>The hops of the router\<close>

lemma le_fold_max: "n \<le> fold max ns (n :: nat)" "k \<in> set ns \<Longrightarrow> k \<le> fold max ns n"
  by (induction ns arbitrary: n) (auto intro: le_trans [OF max.cobounded1] le_trans [OF max.cobounded2])

lemma told_fresh:
  assumes "Some tx \<in> told ` set (effects t)"
  shows "tx < fresh_number t"
proof -
  have "Some tx \<in> told ` set es \<Longrightarrow> tx \<in> set (List.map_filter told es)" for es :: "'a effect list"
    by (induction es) (auto simp: map_filter_simps split: option.splits)
  from this [OF assms] show ?thesis by (simp add: fresh_number_def less_Suc_eq_le le_fold_max(2))
qed

text \<open>A connection that takes messages for its client: nothing is held back and its transport works.\<close>

definition takes_messages :: "nat ctx \<Rightarrow> ('s, gsb_message) sink_ops \<Rightarrow> (nat, 's) turn \<Rightarrow> bool" where
  "takes_messages x ops t \<longleftrightarrow>
     writable (act t) \<and> hold_queue (act t) = [] \<and> 1 < mark (act t) \<and> always_ready ops \<and> (\<forall>tx. \<not> canceled x tx)"

text \<open>Which messages there are follows from how many there are of each kind.\<close>

lemma only_replies:
  "set ms \<subseteq> forwardable \<Longrightarrow> List.map_filter as_request ms = [] \<Longrightarrow> List.map_filter as_broadcast ms = []
     \<Longrightarrow> ms = map CallReply (List.map_filter as_reply ms)"
  by (induction ms) (auto simp: map_filter_simps)

lemma no_messages:
  assumes "set ms \<subseteq> forwardable" and "List.map_filter as_request ms = []" and "List.map_filter as_broadcast ms = []"
    and "List.map_filter as_reply ms = []"
  shows "ms = []"
  using only_replies [OF assms(1-3)] assms(4) by simp

lemma one_message:
  assumes "set ms \<subseteq> forwardable" and "List.map_filter as_reply ms = []"
  shows "List.map_filter as_request ms = [req] \<Longrightarrow> List.map_filter as_broadcast ms = [] \<Longrightarrow> ms = [CallRequest req]"
    and "List.map_filter as_request ms = [] \<Longrightarrow> List.map_filter as_broadcast ms = [news] \<Longrightarrow> ms = [BroadcastRequest news]"
proof -
  show "ms = [CallRequest req]" if "List.map_filter as_request ms = [req]" "List.map_filter as_broadcast ms = []"
  proof (cases ms)
    case (Cons m rest)
    from Cons assms that have "m = CallRequest req" by (cases m) (auto simp: map_filter_simps)
    with Cons assms that no_messages [of rest] show ?thesis by (simp add: map_filter_simps)
  qed (use that in \<open>simp add: map_filter_simps\<close>)
  show "ms = [BroadcastRequest news]" if "List.map_filter as_request ms = []" "List.map_filter as_broadcast ms = [news]"
  proof (cases ms)
    case (Cons m rest)
    from Cons assms that have "m = BroadcastRequest news" by (cases m) (auto simp: map_filter_simps)
    with Cons assms that no_messages [of rest] show ?thesis by (simp add: map_filter_simps)
  qed (use that in \<open>simp add: map_filter_simps\<close>)
qed

lemma hop_moves:
  assumes takes: "takes_messages x ops t" and few: "calm ops x evs (flow_start (fresh_number t) t)"
  shows "List.map_filter as_reply (fst (hop ops x evs t)) = arrivals evs"
    and "List.map_filter as_request (fst (hop ops x evs t)) = forwards evs"
    and "List.map_filter as_broadcast (fst (hop ops x evs t)) = broadcasts evs"
    and "set (fst (hop ops x evs t)) \<subseteq> forwardable"
proof -
  let ?start = "flow_start (fresh_number t) t"
  let ?f = "flow_run ops x evs ?start"
  note t = takes [unfolded takes_messages_def]
  have "flow_ok x ?start" using t by (intro flow_start_ok) (auto intro: told_fresh)
  then have f: "flow_ok x ?f" "moved x ?start evs ?f"
    using flow_run_moves [OF _ always_ready_flush few] kept_all [of x ops evs ?start] t by simp_all
  have d: "queued (fl_conn (drained ops x ?f)) = []" "fl_held (drained ops x ?f) = []" "fl_pending (drained ops x ?f) = []"
    "moved x ?f [] (drained ops x ?f)"
    using drained_all [OF _ f(1), of ops] t by (simp_all add: reader_stays_def)
  from moved_trans [OF f(2) d(4)] have "moved x ?start evs (drained ops x ?f)" by simp
  with d(1-3) t obtain new where "fl_wire (drained ops x ?f) = queued (act t) @ new"
    "List.map_filter as_reply new = arrivals evs" "List.map_filter as_request new = forwards evs"
    "List.map_filter as_broadcast new = broadcasts evs" "set new \<subseteq> forwardable"
    by (auto simp: moved_def flow_start_def on_its_way_def)
  then show "List.map_filter as_reply (fst (hop ops x evs t)) = arrivals evs"
    "List.map_filter as_request (fst (hop ops x evs t)) = forwards evs"
    "List.map_filter as_broadcast (fst (hop ops x evs t)) = broadcasts evs"
    "set (fst (hop ops x evs t)) \<subseteq> forwardable"
    by (simp_all add: hop_def Let_def)
qed

text \<open>After a hop nothing is left behind, and the connection takes messages as before.\<close>

lemma flow_run_config:
  assumes "flow_ok x f" and "\<And>s. fst (sk_poll_flush ops s) \<noteq> ReadyErr" and "calm ops x evs f"
  shows "cn_config (fl_conn (flow_run ops x evs f)) = cn_config (fl_conn f)"
  using assms(1,3)
proof (induction evs arbitrary: f)
  case (Cons ev evs)
  have "flow_ok x (flow_step ops x ev f)"
    using flow_step_moves [OF Cons.prems(1) assms(2), of ev] Cons.prems(2) by simp
  moreover have "ev \<noteq> Dropped" using Cons.prems(2) by auto
  ultimately show ?case
    using Cons.IH [of "flow_step ops x ev f"] Cons.prems flow_step_config [of x f ev ops] by (simp add: flow_run_def)
qed (simp add: flow_run_def)

lemma hop_settles:
  assumes takes: "takes_messages x ops t" and few: "calm ops x evs (flow_start (fresh_number t) t)"
  shows "takes_messages x ops (snd (hop ops x evs t))" and "queued (act (snd (hop ops x evs t))) = []"
proof -
  let ?start = "flow_start (fresh_number t) t"
  let ?f = "flow_run ops x evs ?start"
  note t = takes [unfolded takes_messages_def]
  have healthy: "fst (sk_poll_flush ops s) \<noteq> ReadyErr" for s using always_ready_flush [of ops s] t by simp
  have start: "flow_ok x ?start" using t by (intro flow_start_ok) (auto intro: told_fresh)
  then have f: "flow_ok x ?f" using flow_run_moves [OF start healthy few] by simp
  have stays: "reader_stays x ?f" using t by (simp add: reader_stays_def)
  have "cn_config (fl_conn (drained ops x ?f)) = cn_config (fl_conn ?f)"
    using flow_run_config [OF f healthy rounds_calm(1) [OF stays], of "length (fl_pending ?f)"] by (simp add: drained_def)
  with drained_all [OF _ f stays] flow_run_config [OF start healthy few] t
  show "takes_messages x ops (snd (hop ops x evs t))" and "queued (act (snd (hop ops x evs t))) = []"
    by (simp_all add: takes_messages_def hop_def Let_def flow_ok_def flow_start_def)
qed

lemma poll_output_topics:
  "topic_map (act (snd (poll_output ops x t))) = topic_map (act t)" "rt (snd (poll_output ops x t)) = rt t"
proof -
  have "topic_map (fold out_write ms c) = topic_map c" for ms and c :: "('a, 'b) connection"
    by (induction ms arbitrary: c) simp_all
  then show "topic_map (act (snd (poll_output ops x t))) = topic_map (act t)" "rt (snd (poll_output ops x t)) = rt t"
    by (simp_all add: poll_output_def buffer_empty_def drain_hold_act emit_def split_beta Let_def split: poll_result.splits)
qed

lemma hop_news:
  assumes "takes_messages x ops t"
  shows "fst (hop ops x [News req] t) = [BroadcastRequest req]"
    and "takes_messages x ops (snd (hop ops x [News req] t))" and "queued (act (snd (hop ops x [News req] t))) = []"
    and "topic_map (act (snd (hop ops x [News req] t))) = topic_map (act t)" and "rt (snd (hop ops x [News req] t)) = rt t"
proof -
  have calm: "calm ops x [News req] (flow_start (fresh_number t) t)"
    using assms by (simp add: takes_messages_def flow_start_def)
  from hop_moves [OF assms calm] show "fst (hop ops x [News req] t) = [BroadcastRequest req]"
    by (intro one_message(2)) simp_all
  show "takes_messages x ops (snd (hop ops x [News req] t))" "queued (act (snd (hop ops x [News req] t))) = []"
    using hop_settles [OF assms calm] by simp_all
  have "topic_map (act (snd (send_message y m u))) = topic_map (act u)" for y m and u :: "(nat, 's) turn"
    by (cases rule: send_message_cases [of y m u]) simp_all
  then show "topic_map (act (snd (hop ops x [News req] t))) = topic_map (act t)" and "rt (snd (hop ops x [News req] t)) = rt t"
    by (simp_all add: hop_def Let_def drained_def flow_rounds_def flow_run_def flow_start_def split_beta
        poll_output_topics handle_topic_item_def)
qed

lemma hop_forward:
  assumes "takes_messages x ops t" and "\<not> crq_no_reply req"
  shows "fst (hop_in ops x [MForward req a] t) = [CallRequest req]"
    and "reply_map (act (snd (hop_in ops x [MForward req a] t))) = snd (hm_insert (crq_request_id req) a (reply_map (act t)))"
    and "takes_messages x ops (snd (hop_in ops x [MForward req a] t))"
proof -
  have calm: "calm ops x [Forward req a] (flow_start (fresh_number t) t)"
    using assms by (simp add: takes_messages_def flow_start_def)
  from hop_moves [OF assms(1) calm] show "fst (hop_in ops x [MForward req a] t) = [CallRequest req]"
    by (intro one_message(1)) (simp_all add: hop_in_def)
  have "reply_map (act (snd (send_message y m u))) = reply_map (act u)" for y m and u :: "(nat, 's) turn"
    by (cases rule: send_message_cases [of y m u]) simp_all
  then show "reply_map (act (snd (hop_in ops x [MForward req a] t))) = snd (hm_insert (crq_request_id req) a (reply_map (act t)))"
    using assms(2)
    by (simp add: hop_in_def hop_def Let_def drained_def flow_rounds_def flow_run_def flow_start_def split_beta
        poll_output_frame handle_forward_request_def)
  show "takes_messages x ops (snd (hop_in ops x [MForward req a] t))"
    using hop_settles(1) [OF assms(1) calm] by (simp add: hop_in_def)
qed

text \<open>A sequence of calls of one caller, each of which waits for the one before.\<close>

lemma hops_forwards:
  assumes "takes_messages x ops t" and "\<forall>r \<in> set rs. \<not> crq_no_reply r"
  shows "fst (hops ops x (map (\<lambda>r. MForward r a) rs) t) = map CallRequest rs
    \<and> (\<forall>k. hm_get (reply_map (act (snd (hops ops x (map (\<lambda>r. MForward r a) rs) t)))) k =
         (if k \<in> crq_request_id ` set rs then Some a else hm_get (reply_map (act t)) k))
    \<and> takes_messages x ops (snd (hops ops x (map (\<lambda>r. MForward r a) rs) t))"
  using assms
proof (induction rs arbitrary: t)
  case (Cons r rs)
  obtain sent t1 where hop: "hop_in ops x [MForward r a] t = (sent, t1)" by (metis surj_pair)
  have t1: "sent = [CallRequest r]" "reply_map (act t1) = snd (hm_insert (crq_request_id r) a (reply_map (act t)))"
    "takes_messages x ops t1"
    using hop_forward [of x ops t r a] Cons.prems hop by simp_all
  with Cons.IH [OF t1(3)] Cons.prems hop show ?case by (simp add: split_beta)
qed simp

lemma arrivals_responses [simp]:
  "arrivals (map flow_mail (map (MResponse b) rs)) = rs" "forwards (map flow_mail (map (MResponse b) rs)) = []"
  "broadcasts (map flow_mail (map (MResponse b) rs)) = []" "calm ops x (map flow_mail (map (MResponse b) rs)) f"
  by (induction rs arbitrary: f) simp_all

lemma hop_responses:
  assumes "takes_messages x ops t"
  shows "fst (hop_in ops x (map (MResponse b) rs) t) = map CallReply rs"
  using hop_moves [OF assms arrivals_responses(4), of b rs] only_replies [of "fst (hop_in ops x (map (MResponse b) rs) t)"]
  by (simp only: hop_in_def arrivals_responses)

section \<open>The hops of the replies\<close>

lemma send_message_direct:
  assumes "hold_queue (act t) = []" and "writable (act t)"
    and "length (queued (act t)) < high_buffer_mark (ic_config (cn_config (act t)))"
  shows "send_message x m t = (None, t\<lparr>act := out_write m (act t)\<rparr>)"
  using assms by (auto elim!: send_message_cases [of x m t] simp: send_message_def Let_def buffer_len_def queued_def)

lemma send_cmd_open:
  "cl_open c \<Longrightarrow> fst (send_cmd_async k tx m c) = None
     \<and> cl_queued (snd (send_cmd_async k tx m c)) = cl_queued c @ [m]"
  by (simp add: send_cmd_async_def split_beta)

text \<open>Replies that arrive at the service's connection are posted to the caller's, up to the full one.\<close>

lemma router_in_replies:
  assumes "\<not> sender_closed x a" and "\<forall>r \<in> set rs. crp_request_id r = rid"
  shows "hm_get (reply_map (act t)) rid = Some a \<Longrightarrow>
       effects (router_in x (map CallReply rs) t) = effects t @ map (SendResponse a) (until_full rs)"
    and "hm_get (reply_map (act t)) rid = None \<Longrightarrow>
       effects (router_in x (map CallReply rs) t) = effects t"
  using assms(2)
proof (induction rs arbitrary: t)
  case (Cons r rs)
  {
    case 1
    let ?t = "snd (handle_input x (Inr (CallReply r)) t)"
    have "effects ?t = effects t @ [SendResponse a r]
        \<and> hm_get (reply_map (act ?t)) rid = (if get_reply_type r = Full then None else Some a)"
      using 1 assms(1)
      by (auto simp: handle_input_def handle_message_def handle_call_reply_def Let_def hm_remove_def hm_get_def
          split: CallReplyType.splits)
    then show ?case
      using Cons.IH [of ?t] 1 by (auto simp: router_in_def)
  next
    case 2
    let ?t = "snd (handle_input x (Inr (CallReply r)) t)"
    have "effects ?t = effects t \<and> hm_get (reply_map (act ?t)) rid = None"
      using 2
      by (auto simp: handle_input_def handle_message_def handle_call_reply_def Let_def hm_remove_def hm_get_def
          split: CallReplyType.splits)
    then show ?case
      using Cons.IH [of ?t] 2 by (simp add: router_in_def)
  }
qed (simp_all add: router_in_def)

text \<open>The responses the caller's connection gets are written to its client.\<close>

lemma mail_in_responses:
  assumes "writable (act t)" and "hold_queue (act t) = []"
    and "length (queued (act t)) + length rs \<le> high_buffer_mark (ic_config (cn_config (act t)))"
  shows "queued (act (mail_in x (map (MResponse b) rs) t)) = queued (act t) @ map CallReply rs"
  using assms
proof (induction rs arbitrary: t)
  case (Cons r rs)
  let ?t = "t\<lparr>act := out_write (CallReply r) (act t)\<rparr>"
  have "snd (handle_forward_response x r t) = ?t"
    using Cons.prems by (simp add: handle_forward_response_def send_message_direct)
  then show ?case using Cons.IH [of ?t] Cons.prems by (simp add: mail_in_def)
qed (simp add: mail_in_def)

text \<open>The caller's client delivers them, and the full one ends the wait.\<close>

lemma client_reply_item:
  assumes "hm_get (cc_call_reply c) rid = Some ch" and "\<forall>e. utf8_valid (as_bytes (display e))"
  shows "cl_handle (Inr (CallReply (snd (reply_of_item display rid i)))) c =
     (if final_item i then c\<lparr>cc_call_reply := snd (hm_remove rid (cc_call_reply c))\<rparr> else c,
      [DeliverChunk ch (seen_item display i)])"
proof (cases i)
  case (Inl e)
  then show ?thesis
    using assms
    by (simp add: reply_of_item_def cl_handle_def cl_handle_call_reply_def Let_def from_utf8_def
        try_from_call_reply_code_def)
next
  case (Inr chunk)
  then show ?thesis
    using assms(1)
    by (cases chunk)
       (simp_all add: reply_of_item_def cl_handle_def cl_handle_call_reply_def Let_def try_from_call_reply_code_def)
qed

lemma client_in_replies:
  assumes "hm_get (cc_call_reply c) rid = Some ch" and "\<forall>e. utf8_valid (as_bytes (display e))"
  shows "client_in (map (\<lambda>i. CallReply (snd (reply_of_item display rid i))) (until_final items)) c =
     (c\<lparr>cc_call_reply := snd (hm_remove rid (cc_call_reply c))\<rparr>,
      map (\<lambda>i. DeliverChunk ch (seen_item display i)) (until_final items))"
  using assms(1)
proof (induction items arbitrary: c)
  case Nil
  then show ?case using client_reply_item [of c rid ch display "Inr (FullChunk [])"] assms(2) by simp
next
  case (Cons i rest)
  then show ?case using client_reply_item [of c rid ch display i] assms(2) by simp
qed

lemma received_deliveries [simp]:
  "received ch (map (\<lambda>i. DeliverChunk ch (f i)) items) = map f items"
  by (induction items) simp_all

section \<open>The whole way\<close>

text \<open>The two connections can talk: the address leads to the service, and both take messages.\<close>

definition ready_route :: "nat ctx \<Rightarrow> nat ctx \<Rightarrow> string \<Rightarrow> ('a, 'b, 'c, 'd) parties \<Rightarrow> bool" where
  "ready_route xa xb addr ps \<longleftrightarrow>
     resolve_node (rt (caller_turn ps)) addr = Some (address xb)
     \<and> \<not> sender_closed xb (address xa)
     \<and> cl_open (caller_client ps) \<and> cl_open (service_client ps)
     \<and> takes_messages xa (caller_out ps) (caller_turn ps)
     \<and> takes_messages xb (service_out ps) (service_turn ps)"

lemma posted_forward:
  assumes "resolve_node (rt t) (crq_address req) = Some (address xb)" and "\<not> crq_no_reply req"
  shows "posted (address xa) (address xb) t (router_in xa [CallRequest req] t) = [MForward req (address xa)]"
    and "act (router_in xa [CallRequest req] t) = (act t)\<lparr>last_packet := now xa\<rparr>"
  using assms
  by (simp_all add: posted_def router_in_def handle_input_def handle_message_def handle_call_request_def)

lemma mail_of_responses:
  "concat (map (mail_of b \<circ> SendResponse a) rs) = map (\<lambda>r. (a, MResponse b r)) rs"
  by (induction rs) simp_all

lemma posted_responses:
  "effects t' = effects t @ map (SendResponse a) rs \<Longrightarrow> posted b a t t' = map (MResponse b) rs"
  by (simp add: posted_def mail_of_responses filter_map comp_def)

text \<open>
  The call has just been written by the caller, who waits for its id on the channel \<open>ch\<close>.
\<close>

lemma route_carries:
  assumes ready: "ready_route xa xb (crq_address req) ps"
    and call: "new_messages (caller_client ps) ca1 = [CallRequest req]" "\<not> crq_no_reply req"
      "hm_get (cc_call_reply ca1) (crq_request_id req) = Some ch"
    and items: "items = do_call (crq_request_id req) (crq_caller req) (crq_address req) (crq_data req) False"
    and shown: "\<forall>e. utf8_valid (as_bytes (display e))"
  shows "fst (route xa xb display do_call ca1 ps) = map (\<lambda>i. DeliverChunk ch (seen_item display i)) (until_final items)"
    and "hm_get (cc_call_reply (caller_client (snd (route xa xb display do_call ca1 ps)))) (crq_request_id req) = None"
proof -
  let ?rid = "crq_request_id req" and ?ta = "caller_turn ps" and ?tb = "service_turn ps" and ?cb = "service_client ps"
  let ?ta1 = "router_in xa [CallRequest req] ?ta"
  let ?hb = "hop_in (service_out ps) xb [MForward req (address xa)] ?tb"
  let ?cb2 = "reply_stream display ?rid items ?cb" and ?reps = "stream_replies display ?rid items"
  let ?tb2 = "router_in xb (map CallReply ?reps) (snd ?hb)"
  let ?ha = "hop_in (caller_out ps) xa (map (MResponse (address xb)) (until_full ?reps)) ?ta1"
  note r = ready [unfolded ready_route_def]
  have post: "posted (address xa) (address xb) ?ta ?ta1 = [MForward req (address xa)]"
    and same: "act ?ta1 = (act ?ta)\<lparr>last_packet := now xa\<rparr>"
    using posted_forward call(2) r by blast+
  have fwd: "fst ?hb = [CallRequest req]" "hm_get (reply_map (act (snd ?hb))) ?rid = Some (address xa)"
    using hop_forward [OF _ call(2), of xb "service_out ps" ?tb "address xa"] r by simp_all
  have asked: "cl_handle (Inr (CallRequest req)) ?cb =
      (?cb, [DoCall ?rid (crq_caller req) (crq_address req) (crq_data req) False])"
    using call(2) by (simp add: cl_handle_def cl_handle_call_request_def)
  have served: "new_messages ?cb ?cb2 = map CallReply ?reps"
    using r by (simp add: new_messages_def reply_stream_queued)
  have "\<forall>r \<in> set ?reps. crp_request_id r = ?rid" by (auto simp: stream_replies_def)
  then have "effects ?tb2 = effects (snd ?hb) @ map (SendResponse (address xa)) (until_full ?reps)"
    using r fwd(2) by (intro router_in_replies(1) [where rid = "?rid"]) simp_all
  then have returned: "posted (address xb) (address xa) (snd ?hb) ?tb2 = map (MResponse (address xb)) (until_full ?reps)"
    by (rule posted_responses)
  have "takes_messages xa (caller_out ps) ?ta1" using r by (simp add: takes_messages_def same)
  then have home: "fst ?ha = map (\<lambda>i. CallReply (snd (reply_of_item display ?rid i))) (until_final items)"
    using hop_responses [of xa "caller_out ps" ?ta1 "address xb" "until_full ?reps"]
    by (simp add: until_final_replies comp_def)
  have "route xa xb display do_call ca1 ps =
     (map (\<lambda>i. DeliverChunk ch (seen_item display i)) (until_final items),
      ps\<lparr>caller_client := ca1\<lparr>cc_call_reply := snd (hm_remove ?rid (cc_call_reply ca1))\<rparr>,
        caller_turn := snd ?ha, service_turn := ?tb2, service_client := ?cb2\<rparr>)"
    using client_in_replies [OF call(3) shown, of items]
    by (simp add: route_def call(1) post fwd(1) asked items [symmetric] served returned home split_beta Let_def)
  then show "fst (route xa xb display do_call ca1 ps) = map (\<lambda>i. DeliverChunk ch (seen_item display i)) (until_final items)"
    "hm_get (cc_call_reply (caller_client (snd (route xa xb display do_call ca1 ps)))) ?rid = None"
    by (simp_all add: hm_remove_def hm_get_def)
qed

section \<open>Calls over the route\<close>

text \<open>A remote call or streaming call, as the local router of the calling process sees it: the remote
  router has the connection \<open>conn\<close>, and the call takes the route.\<close>

definition remote_answer where
  "remote_answer conn xa xb display do_call random ch ps =
     (\<lambda>msg. Inr (rr_raw_call (\<lambda>_. routed_call xa xb display do_call random ch ps) (Some (Inr conn)) msg))"

definition remote_stream_answer where
  "remote_stream_answer conn xa xb display do_call random ch ps =
     (\<lambda>caller addr body. Inr (rr_raw_stream_call (\<lambda>_. routed_stream xa xb display do_call random ps) (Some (Inr conn))
        \<lparr>rsc_caller = caller, rsc_addr = addr, rsc_body = body, rsc_reply = ch\<rparr>))"

text \<open>How a process encodes messages and results: with its own setting of the compression.\<close>

definition body_serde :: "zlib \<Rightarrow> 'v format \<Rightarrow> 'r format \<Rightarrow> ser_config \<Rightarrow> ('v, 'r) serde" where
  "body_serde z fv fr cfg = \<lparr>dec_msg = ser_from_slice z fv, enc_msg = ser_to_vec z fv cfg,
     dec_res = ser_from_slice z fr, enc_res = ser_to_vec z fr cfg\<rparr>"

lemma call_written:
  assumes "cl_open c" and "\<not> rc_no_reply msg"
  shows "\<exists>c1. cl_rpc_raw_call random ch msg c = (Some ch, c1)
     \<and> new_messages c c1 = [CallRequest \<lparr>crq_caller = rc_caller msg, crq_address = rc_addr msg,
          crq_request_id = show_nat (unat (gen_id random)), crq_data = rc_body msg, crq_no_reply = False\<rparr>]
     \<and> hm_get (cc_call_reply c1) (show_nat (unat (gen_id random))) = Some ch"
  using assms by (simp add: cl_rpc_raw_call_def Let_def new_messages_def)

lemma stream_call_written:
  assumes "cl_open c"
  shows "new_messages c (cl_rpc_raw_stream_call random msg c) =
       [CallRequest \<lparr>crq_caller = rsc_caller msg, crq_address = rsc_addr msg,
          crq_request_id = show_nat (unat (gen_id random)), crq_data = rsc_body msg, crq_no_reply = False\<rparr>]"
    and "hm_get (cc_call_reply (cl_rpc_raw_stream_call random msg c)) (show_nat (unat (gen_id random))) = Some (rsc_reply msg)"
  using assms by (simp_all add: cl_rpc_raw_stream_call_def Let_def new_messages_def)

lemma routed_call_answer:
  assumes "do_call (show_nat (unat (gen_id random))) (rc_caller msg) (rc_addr msg) (rc_body msg) False = [Inr (FullChunk reply)]"
    and "ready_route xa xb (rc_addr msg) ps" and "\<not> rc_no_reply msg" and "\<forall>e. utf8_valid (as_bytes (display e))"
  shows "routed_call xa xb display do_call random ch ps msg = Inr reply"
proof -
  let ?req = "\<lparr>crq_caller = rc_caller msg, crq_address = rc_addr msg,
      crq_request_id = show_nat (unat (gen_id random)), crq_data = rc_body msg, crq_no_reply = False\<rparr>"
  obtain c1 where c1: "cl_rpc_raw_call random ch msg (caller_client ps) = (Some ch, c1)"
    "new_messages (caller_client ps) c1 = [CallRequest ?req]" "hm_get (cc_call_reply c1) (crq_request_id ?req) = Some ch"
    using call_written [of "caller_client ps" msg random ch] assms(2,3) by (auto simp: ready_route_def)
  have answer: "[Inr (FullChunk reply)] = do_call (crq_request_id ?req) (crq_caller ?req) (crq_address ?req) (crq_data ?req) False"
    using assms(1) by simp
  have "fst (route xa xb display do_call c1 ps) = [DeliverChunk ch (Inr (FullChunk reply))]"
    using route_carries(1) [where req = "?req" and do_call = do_call and display = display, OF _ c1(2) _ c1(3) answer assms(4)] assms(2) by simp
  with c1(1) show ?thesis by (simp add: routed_call_def ref_call_def ref_send_def fetch_response_def)
qed

lemma routed_stream_items:
  assumes "items = do_call (show_nat (unat (gen_id random))) (rsc_caller msg) (rsc_addr msg) (rsc_body msg) False"
    and "ready_route xa xb (rsc_addr msg) ps" and "\<forall>e. utf8_valid (as_bytes (display e))"
  shows "routed_stream xa xb display do_call random ps msg = map (seen_item display) (until_final items)"
proof -
  let ?req = "\<lparr>crq_caller = rsc_caller msg, crq_address = rsc_addr msg,
      crq_request_id = show_nat (unat (gen_id random)), crq_data = rsc_body msg, crq_no_reply = False\<rparr>"
  let ?c1 = "cl_rpc_raw_stream_call random msg (caller_client ps)"
  have "cl_open (caller_client ps)" using assms(2) by (simp add: ready_route_def)
  then have c1: "new_messages (caller_client ps) ?c1 = [CallRequest ?req]"
    "hm_get (cc_call_reply ?c1) (crq_request_id ?req) = Some (rsc_reply msg)"
    by (simp_all add: stream_call_written)
  have "items = do_call (crq_request_id ?req) (crq_caller ?req) (crq_address ?req) (crq_data ?req) False"
    using assms(1) by simp
  then have "fst (route xa xb display do_call ?c1 ps) = map (\<lambda>i. DeliverChunk (rsc_reply msg) (seen_item display i)) (until_final items)"
    using route_carries(1) [where req = "?req" and do_call = do_call and display = display, OF _ c1(1) _ c1(2) _ assms(3)] assms(2) by simp
  then show ?thesis by (simp add: routed_stream_def)
qed

lemma until_final_parts [simp]: "until_final (map (\<lambda>r. Inr (Part (e r))) rs) = map (\<lambda>r. Inr (Part (e r))) rs @ [Inr (FullChunk [])]"
  by (induction rs) simp_all

section \<open>Properties\<close>

lemma remote_call_answered:
  assumes bound: "list_all (\<lambda>op. \<not> touches op (addr @ ''/'' @ ident)) ops"
    and remote: "slot_at (pr_router pa) (addr @ ''/'' @ ident) = None"
    and msg: "enc_msg sda v = Inr body" "dec_msg sdb body = Inr v"
    and res: "enc_res sdb (f caller v) = Inr reply" "reply \<noteq> []" "dec_res sda reply = Inr (f caller v)"
    and ready: "ready_route xa xb (addr @ ''/'' @ ident) ps"
    and shown: "\<forall>e. utf8_valid (as_bytes (display e))"
  shows "let pb = fold process_step ops (bind_with_caller tyb ident addr f p);
             do_call = local_do_call sdb (process_actors r rs pb) (pr_router pb);
             wa = process_actors (remote_answer conn xa xb display do_call random ch ps) rs' pa
         in ep_call_as sda wa ty ident addr caller v (pr_router pa) = Some (Inr (f caller v))"
proof -
  let ?full = "addr @ ''/'' @ ident"
  let ?pb = "fold process_step ops (bind_with_caller tyb ident addr f p)"
  let ?do = "local_do_call sdb (process_actors r rs ?pb) (pr_router ?pb)"
  let ?msg = "\<lparr>rc_caller = caller, rc_addr = ?full, rc_body = body, rc_no_reply = False\<rparr>"
  note offered = host.still_offers [OF typed_bind_offers [of tyb ident addr "caller_handler f" p] bound]
  have "?do rid caller ?full body False = [Inr (FullChunk reply)]" for rid
    using offered_typed_calls(4) [OF offered] msg res
    by (simp add: local_do_call_def bind_with_caller_def caller_handler_def)
  then have "routed_call xa xb display ?do random ch ps ?msg = Inr reply"
    using ready shown by (intro routed_call_answer) simp_all
  with remote msg(1) res show ?thesis
    by (simp add: Let_def ep_call_as_def lr_forward_def from_envelope_addr_def with_caller_def process_actors_def
        remote_answer_def rr_raw_call_def await_connection_def flatten_answer_def decode_response_def)
qed

text \<open>
  A call over a route that is ready reaches the closure and brings back its result. Each process may have
  switched compression on or off for itself.
\<close>

lemma remote_call_reaches_closure:
  assumes bound: "list_all (\<lambda>op. \<not> touches op (addr @ ''/'' @ ident)) ops"
    and remote: "slot_at (pr_router pa) (addr @ ''/'' @ ident) = None"
    and fmt: "(fv, fr) = (flex cv, flex cr) \<or> (fv, fr) = (json cv, json cr)" and z: "zlib_ok z"
    and msg: "reads_back cv v body" "plain_body z body"
    and res: "reads_back cr (f caller v) reply" "plain_body z reply" "reply \<noteq> []"
    and ready: "ready_route xa xb (addr @ ''/'' @ ident) ps"
    and shown: "\<forall>e. utf8_valid (as_bytes (display e))"
  shows "let pb = fold process_step ops (bind_with_caller tyb ident addr f p);
             do_call = local_do_call (body_serde z fv fr cfgb) (process_actors r rs pb) (pr_router pb);
             wa = process_actors (remote_answer conn xa xb display do_call random ch ps) rs' pa
         in ep_call_as (body_serde z fv fr cfga) wa ty ident addr caller v (pr_router pa) = Some (Inr (f caller v))"
proof -
  have fv: "fv = flex cv \<or> fv = json cv" and fr: "fr = flex cr \<or> fr = json cr" using fmt by auto
  note v = encoded_reads_back [OF msg z fv, of cfga] and w = encoded_reads_back [OF res(1,2) z fr, of cfgb]
  have "(if compress cfgb then zl_compress z reply else reply) \<noteq> []" using res(3) z by (simp add: zlib_ok_def)
  with v w show ?thesis
    by (intro remote_call_answered [OF bound remote _ _ _ _ _ ready shown]) (simp_all add: body_serde_def)
qed

definition idle_client :: "unit client_connection" where
  "idle_client = client_connection_new (client_info_new ''0.8'' [1] ''demo'') ()"

lemma idle_client_open [simp]:
  "cl_open idle_client" "cl_queued idle_client = []" "cc_register_reply idle_client = []"
  "cc_unregister_reply idle_client = []" "cc_subscribe_reply idle_client = []" "cc_broadcast_reply idle_client = []"
  by (simp_all add: idle_client_def client_connection_new_def cl_open_def cl_queued_def sink_write_new_def)

lemma nothing_bound: "slot_at (pr_router (process_new :: ('ty, 'v, 'r) process)) addr = None"
  by (simp add: slot_at_get pb.lookup_None process_new_def local_router_new_def)

text \<open>
  A stream over a route that is ready arrives as the closure made it. The empty chunk that marks the end on
  the wire is not among the items.
\<close>

lemma remote_stream_arrives_in_order:
  assumes bound: "list_all (\<lambda>op. \<not> touches op (addr @ ''/'' @ ident)) ops"
    and remote: "slot_at (pr_router pa) (addr @ ''/'' @ ident) = None"
    and msg: "enc_msg sda v = Inr body" "dec_msg sdb body = Inr v"
    and res: "\<And>r. r \<in> set (h ''local'' v) \<Longrightarrow> enc_res sdb r = Inr (e r) \<and> dec_res sda (e r) = Inr r"
    and ready: "ready_route xa xb (addr @ ''/'' @ ident) ps"
    and shown: "\<forall>e. utf8_valid (as_bytes (display e))"
  shows "let pb = fold process_step ops (typed_bind_stream tyb ident addr h p);
             do_call = local_do_call sdb (process_actors rb rs pb) (pr_router pb);
             wa = process_actors ra (remote_stream_answer conn xa xb display do_call random ch ps) pa
         in ep_call_streaming sda wa ty ident addr v (pr_router pa) = Some (map Inr (h ''local'' v))"
proof -
  let ?full = "addr @ ''/'' @ ident"
  let ?pb = "fold process_step ops (typed_bind_stream tyb ident addr h p)"
  let ?do = "local_do_call sdb (process_actors rb rs ?pb) (pr_router ?pb)"
  let ?msg = "\<lparr>rsc_caller = ''local'', rsc_addr = ?full, rsc_body = body, rsc_reply = ch\<rparr>"
  let ?parts = "map (\<lambda>r. Inr (Part (e r))) (h ''local'' v) :: chunks"
  note offered = host.still_offers [OF typed_bind_stream_offers [of tyb ident addr h p] bound]
  have "?do rid ''local'' ?full body False = ?parts" for rid
    using offered_stream_calls(1) [OF offered msg(2)] res
    by (simp add: local_do_call_def)
  then have "routed_stream xa xb display ?do random ps ?msg = ?parts @ [Inr (FullChunk [])]"
    using routed_stream_items [of ?parts ?do random ?msg xa xb ps display] ready shown by simp
  moreover have "decode_chunks (dec_res sda) (?parts @ [Inr (FullChunk [])]) = map Inr (h ''local'' v)"
    using res by (simp add: decode_chunks_def filter_map comp_def)
  ultimately show ?thesis
    using remote msg(1)
    by (simp add: Let_def ep_call_streaming_def lr_streaming_forward_def process_actors_def
        remote_stream_answer_def rr_raw_stream_call_def await_connection_def)
qed

text \<open>
  C12. A broadcast reaches the subscriber. A client subscribes to a topic through a connection that does
  not have it yet; later another client broadcasts to the topic, which has not been collected in between.
  Both commands succeed, the router publishes the broadcast on the very channel whose receiver was made
  for the subscriber, and what arrives there is handed to the subscriber's event handler unchanged. The
  subscriber's connection at the router holds nothing back, its transport works and the high mark of its
  buffer is at least two.
\<close>

theorem broadcast_reaches_subscriber:
  assumes sub: "cl_open cs" "cc_subscribe_reply cs = []"
    and new: "hm_get (topic_map (act ts)) topic = None"
    and room: "takes_messages xs outs ts"
    and pub: "cl_open cp" "cc_broadcast_reply cp = []" "writable (act tp)"
    and kept: "find_topic (rt tp) topic =
      find_topic (rt (router_in xs (new_messages cs (snd (cl_subscribe tx topic cs))) ts)) topic"
  shows "let cs1 = snd (cl_subscribe tx topic cs);
             ts1 = router_in xs (new_messages cs cs1) ts;
             cp1 = snd (cl_broadcast tx' caller topic body cp);
             tp1 = router_in xp (new_messages cp cp1) tp;
             req = \<lparr>brq_caller = caller, brq_data = body, brq_topic = topic\<rparr>
         in \<exists>channel. SpawnTopic (fresh_handle xs) channel \<in> set (effects ts1)
          \<and> hm_get (topic_map (act ts1)) topic = Some (fresh_handle xs)
          \<and> effects tp1 = effects tp @ [Publish channel req]
          \<and> snd (client_in (written ts ts1) cs1) = [Answer Subscribe tx (Inr ())]
          \<and> snd (client_in (written tp tp1) cp1) = [Answer Broadcast tx' (Inr ())]
          \<and> snd (client_in (fst (hop outs xs [News req] ts1)) cs1) = [HandleEvent caller topic body]"
proof -
  let ?cs1 = "snd (cl_subscribe tx topic cs)" and ?cp1 = "snd (cl_broadcast tx' caller topic body cp)"
  let ?req = "\<lparr>brq_caller = caller, brq_data = body, brq_topic = topic\<rparr>"
  let ?ts1 = "router_in xs [SubscribeRequest \<lparr>srq_topic = topic\<rparr>] ts"
  let ?tp1 = "router_in xp [BroadcastRequest ?req] tp"
  let ?ch = "fst (subscribe_topic (fresh_channel xs) topic (rt ts))"
  have m: "new_messages cs ?cs1 = [SubscribeRequest \<lparr>srq_topic = topic\<rparr>]" "new_messages cp ?cp1 = [BroadcastRequest ?req]"
    and waits: "queue_of Subscribe ?cs1 = [tx]" "queue_of Broadcast ?cp1 = [tx']"
    using sub pub
    by (simp_all add: new_messages_def cl_subscribe_def cl_broadcast_def send_cmd_open)
  have ts1: "effects ?ts1 = effects ts @ [SpawnTopic (fresh_handle xs) ?ch]"
    "queued (act ?ts1) = queued (act ts) @ [SubscribeReply default_subscribe_reply]"
    "hm_get (topic_map (act ?ts1)) topic = Some (fresh_handle xs)"
    "find_topic (rt ?ts1) topic = Some ?ch" "writable (act ?ts1)" "hold_queue (act ?ts1) = []"
    "cn_config (act ?ts1) = cn_config (act ts)"
    using new room [unfolded takes_messages_def] subscribe_topic_effect(2) [of "fresh_channel xs" topic "rt ts"]
    by (simp_all add: router_in_def handle_input_def handle_message_def handle_subscribe_request_def Let_def
        split_beta find_topic_def)
  have tp1: "effects ?tp1 = effects tp @ [Publish ?ch ?req]"
    "queued (act ?tp1) = queued (act tp) @ [BroadcastReply default_broadcast_reply]"
    using kept ts1(4) pub(3)
    by (simp_all add: m router_in_def handle_input_def handle_message_def handle_broadcast_request_def)
  have item: "fst (hop outs xs [News ?req] ?ts1) = [BroadcastRequest ?req]"
    using ts1 room by (intro hop_news) (simp add: takes_messages_def)
  show ?thesis
    using ts1 tp1 item waits
    by (auto simp: Let_def m written_def cl_handle_def cl_handle_subscribe_reply_def cl_handle_broadcast_reply_def
        cl_handle_reply_def subscribe_reply_code_def broadcast_reply_code_def default_subscribe_reply_def
        default_broadcast_reply_def)
qed

theorem broadcast_reaches_subscriber_witness:
  "let cs1 = snd (cl_subscribe 4 ''news'' idle_client);
       ts1 = router_in sample_ctx (new_messages idle_client cs1) tight_turn;
       req = \<lparr>brq_caller = ''me'', brq_data = [7], brq_topic = ''news''\<rparr>
   in snd (client_in (fst (hop ready_sink sample_ctx [News req] ts1)) cs1) = [HandleEvent ''me'' ''news'' [7]]"
proof -
  let ?r = "rt (router_in sample_ctx (new_messages idle_client (snd (cl_subscribe 4 ''news'' idle_client))) tight_turn)"
  have "topic_map (act tight_turn) = []" by (simp add: tight_turn_def sample_turn_def connection_new_def)
  moreover have "takes_messages sample_ctx ready_sink tight_turn" by (simp add: takes_messages_def sample_ctx_def)
  ultimately show ?thesis
    using broadcast_reaches_subscriber [of idle_client tight_turn "''news''" sample_ctx ready_sink idle_client
        "sample_turn\<lparr>rt := ?r\<rparr>" 4 5 "''me''" "[7]" "sample_ctx\<lparr>address := 2\<rparr>"]
    by (auto simp: Let_def hm_get_def)
qed

end
