(* ===== verification/Announce.thy ===== *)
theory Announce
  imports Routes
begin

text \<open>
  From a binding in a process to the router's table. A process with its local table, its remote router,
  its connection to the router process and that connection's other end are put together: what the
  process binds is told to the remote router, which sends the commands over the connection it has, and
  after a reconnection sends all of them again. \<open>Routes\<close> then carries the calls.
\<close>

section \<open>A process and its connection\<close>

text \<open>
  Both ends of a connection, its number at the remote router, and what the client has handed to those
  who wait for answers. \<open>ln_ctx\<close> is what the end at the router sees.
\<close>

record ('s, 't) link =
  ln_conn :: nat
  ln_ctx :: "nat ctx"
  ln_client :: "'s client_connection"
  ln_turn :: "(nat, 't) turn"
  ln_heard :: "client_effect list"

text \<open>What the client has just written goes to the router, whose answers come back.\<close>

definition exchange :: "'s client_connection \<Rightarrow> ('s, 't) link \<Rightarrow> ('s, 't) link" where
  "exchange c1 l =
     (let t1 = router_in (ln_ctx l) (new_messages (ln_client l) c1) (ln_turn l);
          (c2, es) = client_in (written (ln_turn l) t1) c1
      in l\<lparr>ln_client := c2, ln_turn := t1, ln_heard := ln_heard l @ es\<rparr>)"

text \<open>The commands of the remote router. Waiters are numbered by the answers so far.\<close>

fun say :: "rr_effect \<Rightarrow> ('s, 't) link \<Rightarrow> ('s, 't) link" where
  "say (BindOn n addr) l =
     (if n = ln_conn l then exchange (snd (cl_bind (length (ln_heard l)) addr (ln_client l))) l else l)"
| "say (UnbindOn n addr) l =
     (if n = ln_conn l then exchange (snd (cl_unbind (length (ln_heard l)) addr (ln_client l))) l else l)"
| "say _ l = l"

fun tell_remote :: "update_service list \<Rightarrow> remote_router \<Rightarrow> rr_turn" where
  "tell_remote [] r = (r, [])"
| "tell_remote (u # us) r =
     (case rr_update_service u r of (r1, es1) \<Rightarrow> case tell_remote us r1 of (r2, es2) \<Rightarrow> (r2, es1 @ es2))"

text \<open>\<^verbatim>\<open>try_join_all\<close> over the answers of a new connection.\<close>

fun join_answers :: "client_effect list \<Rightarrow> gsb_error + unit" where
  "join_answers [] = Inr ()"
| "join_answers (Answer k tx (Inl e) # es) = Inl e"
| "join_answers (_ # es) = join_answers es"

record ('ty, 'v, 'r, 's, 't) node =
  nd_process :: "('ty, 'v, 'r) process"
  nd_remote :: remote_router
  nd_link :: "('s, 't) link option"
  nd_restart :: bool   \<comment> \<open>the remote router is going to give the connection up\<close>

datatype ('ty, 'v, 'r, 's, 't) node_event =
    Does "('ty, 'v, 'r) process_op"
  | Connected "('s, 't) link"
  | Disconnected
  | Others "nat router"   \<comment> \<open>other connections have changed the tables\<close>

fun node_step ::
  "('ty, 'v, 'r, 's, 't) node_event \<Rightarrow> ('ty, 'v, 'r, 's, 't) node \<Rightarrow> ('ty, 'v, 'r, 's, 't) node" where
  "node_step (Does op) nd =
     (let p1 = process_step op (nd_process nd);
          us = drop (length (pr_updates (nd_process nd))) (pr_updates p1);
          (rr1, es) = tell_remote us (nd_remote nd)
      in nd\<lparr>nd_process := p1, nd_remote := rr1, nd_link := map_option (fold say es) (nd_link nd)\<rparr>)"
| "node_step (Connected l) nd =
     (let (rr1, es) = transport_ready (Inr (ln_conn l)) (nd_remote nd);
          l1 = fold say es l;
          (rr2, es2) = bindings_done (join_answers (drop (length (ln_heard l)) (ln_heard l1))) rr1
      in nd\<lparr>nd_remote := rr2, nd_link := Some l1, nd_restart := RestartLater \<in> set es2\<rparr>)"
| "node_step Disconnected nd = nd\<lparr>nd_remote := restarting (nd_remote nd), nd_link := None, nd_restart := False\<rparr>"
| "node_step (Others r) nd = nd\<lparr>nd_link := map_option (\<lambda>l. l\<lparr>ln_turn := (ln_turn l)\<lparr>rt := r\<rparr>\<rparr>) (nd_link nd)\<rparr>"

definition node_run where
  "node_run evs nd = fold node_step evs nd"

definition node_new :: "client_info \<Rightarrow> ('ty, 'v, 'r, 's, 't) node" where
  "node_new info = \<lparr>nd_process = process_new, nd_remote = remote_router_default info, nd_link = None, nd_restart = False\<rparr>"

section \<open>Commands at the router\<close>

lemma register_input_reply:
  "writable (act t) \<Longrightarrow> queued (act (snd (handle_input x (Inr (RegisterRequest req)) t))) =
     queued (act t) @ [RegisterReply \<lparr>rrp_code = (if owner (rt t) (rrq_service_id req) = None then 0 else 409), rrp_message = []\<rparr>]"
  by (auto simp: handle_input_def handle_message_def handle_register_request_def Let_def split_beta
      register_service_effect default_register_reply_def split: option.splits)

lemma answer_register_reply:
  "queue_of Bind c = tx # rest \<Longrightarrow>
   cl_handle (Inr (RegisterReply \<lparr>rrp_code = (if ok then 0 else 409), rrp_message = msg\<rparr>)) c =
     (set_queue Bind rest c, [Answer Bind tx (if ok then Inr () else Inl (GsbAlreadyRegistered msg))])"
  by (simp add: cl_handle_def cl_handle_register_reply_def cl_handle_reply_def register_reply_code_def)

lemma unregister_input_effect:
  "owner (rt (snd (handle_input x (Inr (UnregisterRequest req)) t))) =
     (if removable (connected x) (address x) (owner (rt t) (urq_service_id req))
      then (owner (rt t))(urq_service_id req := None) else owner (rt t))"
  "writable (act t) \<Longrightarrow> queued (act (snd (handle_input x (Inr (UnregisterRequest req)) t))) =
     queued (act t) @ [UnregisterReply
       \<lparr>urp_code = (if removable (connected x) (address x) (owner (rt t) (urq_service_id req)) then 0 else 404)\<rparr>]"
  by (auto simp: handle_input_def handle_message_def handle_unregister_request_def Let_def split_beta
      unregister_service_effect default_unregister_reply_def)

lemma answer_unregister_reply:
  "queue_of Unbind c = tx # rest \<Longrightarrow>
   cl_handle (Inr (UnregisterReply \<lparr>urp_code = (if ok then 0 else 404)\<rparr>)) c =
     (set_queue Unbind rest c, [Answer Unbind tx (if ok then Inr () else Inl (GsbBadRequest ''unregister''))])"
  by (simp add: cl_handle_def cl_handle_unregister_reply_def cl_handle_reply_def unregister_reply_code_def)

text \<open>What neither command changes at the router's end.\<close>

lemma command_frame:
  "writable (act (snd (handle_input x (Inr (RegisterRequest q)) t))) = writable (act t)"
  "hold_queue (act (snd (handle_input x (Inr (RegisterRequest q)) t))) = hold_queue (act t)"
  "cn_config (act (snd (handle_input x (Inr (RegisterRequest q)) t))) = cn_config (act t)"
  "writable (act (snd (handle_input x (Inr (UnregisterRequest u)) t))) = writable (act t)"
  "hold_queue (act (snd (handle_input x (Inr (UnregisterRequest u)) t))) = hold_queue (act t)"
  "cn_config (act (snd (handle_input x (Inr (UnregisterRequest u)) t))) = cn_config (act t)"
  by (simp_all add: handle_input_def handle_message_def handle_register_request_def handle_unregister_request_def
      Let_def split_beta split: option.splits)

section \<open>The link\<close>

text \<open>
  A link \<open>l\<close> that began as \<open>l0\<close>, over which the names in \<open>S\<close> have been announced: nothing waits for an
  answer, and of the names in \<open>K\<close> that were free the router has those in \<open>S\<close> for this connection.
\<close>

definition link_ready :: "('s, 't) link \<Rightarrow> bool" where
  "link_ready l \<longleftrightarrow> cl_open (ln_client l) \<and> queue_of Bind (ln_client l) = [] \<and> queue_of Unbind (ln_client l) = []
     \<and> writable (act (ln_turn l))"

definition mirrors :: "string set \<Rightarrow> ('s, 't) link \<Rightarrow> string set \<Rightarrow> ('s, 't) link \<Rightarrow> bool" where
  "mirrors K l0 S l \<longleftrightarrow>
     link_ready l \<and> ln_conn l = ln_conn l0 \<and> ln_ctx l = ln_ctx l0
     \<and> hold_queue (act (ln_turn l)) = hold_queue (act (ln_turn l0)) \<and> cn_config (act (ln_turn l)) = cn_config (act (ln_turn l0))
     \<and> (\<forall>k \<in> K. owner (rt (ln_turn l)) k = (case owner (rt (ln_turn l0)) k of
          Some holder \<Rightarrow> Some holder | None \<Rightarrow> if k \<in> S then Some (address (ln_ctx l0)) else None))"

text \<open>A name that belongs to somebody else, who is connected.\<close>

definition not_ours :: "string \<Rightarrow> ('s, 't) link \<Rightarrow> bool" where
  "not_ours k l \<longleftrightarrow> (\<forall>holder. owner (rt (ln_turn l)) k = Some holder \<longrightarrow>
     holder \<noteq> address (ln_ctx l) \<and> connected (ln_ctx l) holder)"

lemma mirrors_start: "link_ready l \<Longrightarrow> mirrors K l {} l"
  by (auto simp: mirrors_def split: option.splits)

lemma send_cmd_still_open: "cl_open (snd (send_cmd_async k tx m c)) = cl_open c"
  by (simp add: send_cmd_async_def split_beta split: bool.splits)

lemma bind_exchange:
  assumes "link_ready l" and l1_def: "l1 = exchange (snd (cl_bind tx addr (ln_client l))) l"
  shows "link_ready l1 \<and> ln_conn l1 = ln_conn l \<and> ln_ctx l1 = ln_ctx l
     \<and> hold_queue (act (ln_turn l1)) = hold_queue (act (ln_turn l)) \<and> cn_config (act (ln_turn l1)) = cn_config (act (ln_turn l))
     \<and> owner (rt (ln_turn l1)) = (if owner (rt (ln_turn l)) addr = None
          then (owner (rt (ln_turn l)))(addr \<mapsto> address (ln_ctx l)) else owner (rt (ln_turn l)))
     \<and> ln_heard l1 = ln_heard l @ [Answer Bind tx
          (if owner (rt (ln_turn l)) addr = None then Inr () else Inl (GsbAlreadyRegistered []))]"
proof -
  let ?c = "snd (cl_bind tx addr (ln_client l))"
  have new: "new_messages (ln_client l) ?c = [RegisterRequest \<lparr>rrq_service_id = addr\<rparr>]" and q: "queue_of Bind ?c = [tx]"
    and "queue_of Unbind ?c = []" "cl_open ?c"
    using assms(1)
    by (simp_all add: link_ready_def new_messages_def cl_bind_def send_cmd_open send_cmd_still_open del: queue_of.simps)
  with assms(1) show ?thesis
    using answer_register_reply [OF q]
    by (simp add: l1_def exchange_def Let_def split_beta router_in_def link_ready_def written_def register_input_reply
        register_input_effect command_frame del: queue_of.simps set_queue.simps)
qed

lemma unbind_exchange:
  assumes "link_ready l" and l1_def: "l1 = exchange (snd (cl_unbind tx addr (ln_client l))) l"
  shows "link_ready l1 \<and> ln_conn l1 = ln_conn l \<and> ln_ctx l1 = ln_ctx l
     \<and> hold_queue (act (ln_turn l1)) = hold_queue (act (ln_turn l)) \<and> cn_config (act (ln_turn l1)) = cn_config (act (ln_turn l))
     \<and> owner (rt (ln_turn l1)) =
          (if removable (connected (ln_ctx l)) (address (ln_ctx l)) (owner (rt (ln_turn l)) addr)
           then (owner (rt (ln_turn l)))(addr := None) else owner (rt (ln_turn l)))"
proof -
  let ?c = "snd (cl_unbind tx addr (ln_client l))"
  have new: "new_messages (ln_client l) ?c = [UnregisterRequest \<lparr>urq_service_id = addr\<rparr>]" and q: "queue_of Unbind ?c = [tx]"
    and "queue_of Bind ?c = []" "cl_open ?c"
    using assms(1)
    by (simp_all add: link_ready_def new_messages_def cl_unbind_def send_cmd_open send_cmd_still_open del: queue_of.simps)
  with assms(1) show ?thesis
    using answer_unregister_reply [OF q]
    by (simp add: l1_def exchange_def Let_def split_beta router_in_def link_ready_def written_def unregister_input_effect
        command_frame del: queue_of.simps set_queue.simps)
qed

lemma mirror_bind:
  assumes "\<forall>k \<in> K. own k = (case base k of Some holder \<Rightarrow> Some holder | None \<Rightarrow> if k \<in> S then Some me else None)"
  shows "\<forall>k \<in> K. (if own addr = None then own(addr \<mapsto> me) else own) k =
     (case base k of Some holder \<Rightarrow> Some holder | None \<Rightarrow> if k \<in> insert addr S then Some me else None)"
proof
  fix k
  assume "k \<in> K"
  with assms have "own k = (case base k of Some holder \<Rightarrow> Some holder | None \<Rightarrow> if k \<in> S then Some me else None)" by blast
  then show "(if own addr = None then own(addr \<mapsto> me) else own) k =
      (case base k of Some holder \<Rightarrow> Some holder | None \<Rightarrow> if k \<in> insert addr S then Some me else None)"
    by (cases "k = addr") (auto split: option.splits if_splits)
qed

lemma mirror_unbind:
  assumes "\<forall>k \<in> K. own k = (case base k of Some holder \<Rightarrow> Some holder | None \<Rightarrow> if k \<in> S then Some me else None)"
    and "\<forall>k \<in> K. \<forall>holder. base k = Some holder \<longrightarrow> holder \<noteq> me \<and> live holder"
  shows "\<forall>k \<in> K. (if removable live me (own addr) then own(addr := None) else own) k =
     (case base k of Some holder \<Rightarrow> Some holder | None \<Rightarrow> if k \<in> S - {addr} then Some me else None)"
  using assms by (auto split: option.splits)

lemma mirrorsD:
  assumes "mirrors K l0 S l"
  shows "link_ready l" "ln_conn l = ln_conn l0" "ln_ctx l = ln_ctx l0"
    "hold_queue (act (ln_turn l)) = hold_queue (act (ln_turn l0))" "cn_config (act (ln_turn l)) = cn_config (act (ln_turn l0))"
    "\<forall>k \<in> K. owner (rt (ln_turn l)) k = (case owner (rt (ln_turn l0)) k of
       Some holder \<Rightarrow> Some holder | None \<Rightarrow> if k \<in> S then Some (address (ln_ctx l0)) else None)"
  using assms unfolding mirrors_def by blast+

lemma say_bind:
  assumes "mirrors K l0 S l"
  shows "mirrors K l0 (insert addr S) (say (BindOn (ln_conn l0) addr) l)"
  using bind_exchange [OF mirrorsD(1) [OF assms] refl, of "length (ln_heard l)" addr]
    mirror_bind [OF mirrorsD(6) [OF assms], of addr] mirrorsD(2-5) [OF assms]
  unfolding mirrors_def by (simp only: say.simps simp_thms if_True)

lemma say_unbind:
  assumes "\<forall>k \<in> K. not_ours k l0" and "mirrors K l0 S l"
  shows "mirrors K l0 (S - {addr}) (say (UnbindOn (ln_conn l0) addr) l)"
  using unbind_exchange [OF mirrorsD(1) [OF assms(2)] refl, of "length (ln_heard l)" addr]
    mirror_unbind [OF mirrorsD(6) [OF assms(2)] assms(1) [unfolded not_ours_def], of addr] mirrorsD(2-5) [OF assms(2)]
  unfolding mirrors_def by (simp only: say.simps simp_thms if_True)

lemma others_mirror:
  "mirrors K l0 S l \<Longrightarrow> \<forall>k \<in> K. owner r k = owner (rt (ln_turn l)) k
     \<Longrightarrow> mirrors K l0 S (l\<lparr>ln_turn := (ln_turn l)\<lparr>rt := r\<rparr>\<rparr>)"
  by (simp add: mirrors_def link_ready_def)

section \<open>Updates\<close>

fun update_names :: "update_service \<Rightarrow> string set \<Rightarrow> string set" where
  "update_names (Add addr) S = insert addr S"
| "update_names (Remove addr) S = S - {addr}"

text \<open>What an operation tells is how it changes the set of bound names.\<close>

lemma update_removes: "fold update_names (map Remove as) S = S - set as"
  by (induction as arbitrary: S) auto

lemma start_actor_updates [simp]: "pr_updates (snd (start_actor u p)) = pr_updates p"
  by (simp add: start_actor_def)

lemma bind_at_snd [simp]: "snd (bind_at addr ep lr) = [Add addr]"
  by (simp add: bind_at_def)

lemmas binding_funs = lr_bind_def [abs_def] lr_bind_stream_def [abs_def] lr_bind_actor_def [abs_def]
  lr_bind_stream_actor_def [abs_def] lr_bind_raw_def [abs_def] lr_bind_raw_dual_def [abs_def]

lemma process_step_updates:
  "\<exists>us. pr_updates (process_step op p) = pr_updates p @ us
     \<and> fold update_names us (dom (bound_in p)) = dom (bound_in (process_step op p))"
proof (cases op)
  case (PTryBindRaw addr a)
  then show ?thesis by (auto simp: try_bind_raw_effect bound_in_def [of p])
next
  case (PUnbind addr)
  obtain addrs lr where u: "lr_unbind addr (pr_router p) = (addrs, lr)" by (metis surj_pair)
  have "set addrs = {a. starts_with a (unbind_pattern addr) \<and> bound_in p a \<noteq> None}"
    using u unbind_addrs_iff [of _ addr "pr_router p"] by (auto simp: lr_unbind_def Let_def bound_in_def)
  then have "dom (bound_in p) - set addrs = dom (bound_in (process_step op p))"
    using PUnbind by (auto simp: typed_unbind_effect split: if_splits)
  moreover have "pr_updates (process_step op p) = pr_updates p @ map Remove addrs"
    using PUnbind u by (simp add: typed_unbind_def unbind_notify_all split_beta)
  ultimately show ?thesis by (intro exI [of _ "map Remove addrs"]) (simp add: update_removes)
next
  case (PUnbindRaw addr)
  obtain old h where rem: "pb_remove addr (handlers (pr_router p)) = (old, h)" by (metis surj_pair)
  then have old: "old = bound_in p addr"
    using pb.rem_old [of addr "handlers (pr_router p)"] by (simp add: bound_in_def bound_def)
  have bnd: "bound_in (process_step op p) = (bound_in p)(addr := None)"
    using PUnbindRaw by (simp add: unbind_raw_effect)
  have "pr_updates (process_step op p) = pr_updates p @ (if old = None then [] else [Remove addr])"
    using rem PUnbindRaw by (simp add: ar_unbind_raw_def lr_unbind_exact_def split: option.splits)
  with bnd old show ?thesis
    by (intro exI [of _ "if old = None then [] else [Remove addr]"]) (auto split: if_splits)
next
  case (PStartUser u)
  then show ?thesis by (simp add: bound_in_def)
qed (simp_all add: binding_funs typed_bind_def typed_bind_stream_def ut_subscribe_def raw_recipients_def
    ar_bind_def ar_binds_def ar_bind_raw_def split_beta bound_in_def [of p])

text \<open>The remote router keeps the set, and over its connection the router follows it.\<close>

lemma tell_remote_keeps:
  "set (rr_local_bindings (fst (tell_remote us r))) = fold update_names us (set (rr_local_bindings r))
     \<and> rr_connection (fst (tell_remote us r)) = rr_connection r
     \<and> (distinct (rr_local_bindings r) \<longrightarrow> distinct (rr_local_bindings (fst (tell_remote us r))))
     \<and> (rr_connection r = None \<longrightarrow> snd (tell_remote us r) = [])"
proof (induction us arbitrary: r)
  case (Cons u us)
  show ?case using Cons [of "fst (rr_update_service u r)"]
    by (cases u) (simp_all add: rr_update_service_def split_beta split: option.splits)
qed simp

lemma say_update:
  assumes "\<forall>k \<in> K. not_ours k l0" and "rr_connection r = Some (ln_conn l0)" and "mirrors K l0 S l"
  shows "mirrors K l0 (update_names u S) (fold say (snd (rr_update_service u r)) l)"
  using say_bind [OF assms(3)] say_unbind [OF assms(1,3)] assms(2)
  by (cases u) (simp_all add: rr_update_service_def del: say.simps)

lemma say_updates:
  assumes "\<forall>k \<in> K. not_ours k l0"
  shows "rr_connection r = Some (ln_conn l0) \<Longrightarrow> mirrors K l0 S l
     \<Longrightarrow> mirrors K l0 (fold update_names us S) (fold say (snd (tell_remote us r)) l)"
proof (induction us arbitrary: r S l)
  case (Cons u us)
  have "rr_connection (fst (rr_update_service u r)) = rr_connection r"
    by (cases u) (simp_all add: rr_update_service_def)
  with Cons say_update [OF assms Cons.prems, of u] show ?case by (simp add: split_beta)
qed simp

text \<open>A new connection announces everything; the answers tell whether a name was taken.\<close>

lemma say_bindings:
  assumes "distinct bs"
  shows "mirrors UNIV l0 S l \<Longrightarrow> set bs \<inter> S = {} \<Longrightarrow>
     mirrors UNIV l0 (set bs \<union> S) (fold say (map (BindOn (ln_conn l0)) bs) l)
     \<and> (\<exists>as. ln_heard (fold say (map (BindOn (ln_conn l0)) bs) l) = ln_heard l @ as
          \<and> (join_answers as = Inr () \<longleftrightarrow> (\<forall>b \<in> set bs. owner (rt (ln_turn l0)) b = None)))"
  using assms
proof (induction bs arbitrary: S l)
  case (Cons b bs)
  let ?l = "say (BindOn (ln_conn l0) b) l"
  have m: "mirrors UNIV l0 (insert b S) ?l" by (rule say_bind [OF Cons.prems(1)])
  have rdy: "link_ready l" "ln_conn l = ln_conn l0" "owner (rt (ln_turn l)) b = None \<longleftrightarrow> owner (rt (ln_turn l0)) b = None"
    using Cons.prems(1,2) by (auto simp: mirrors_def split: option.splits)
  obtain as where as: "ln_heard (fold say (map (BindOn (ln_conn l0)) bs) ?l) = ln_heard ?l @ as"
    "join_answers as = Inr () \<longleftrightarrow> (\<forall>b \<in> set bs. owner (rt (ln_turn l0)) b = None)"
    "mirrors UNIV l0 (set bs \<union> insert b S) (fold say (map (BindOn (ln_conn l0)) bs) ?l)"
    using Cons.IH [OF m] Cons.prems(2,3) by auto
  let ?a = "Answer Bind (length (ln_heard l)) (if owner (rt (ln_turn l)) b = None then Inr () else Inl (GsbAlreadyRegistered []))"
  have heard: "ln_heard ?l = ln_heard l @ [?a]"
    using bind_exchange [OF rdy(1) refl, of "length (ln_heard l)" b] rdy(2) by simp
  show ?case
  proof (intro conjI exI [of _ "?a # as"])
    show "mirrors UNIV l0 (set (b # bs) \<union> S) (fold say (map (BindOn (ln_conn l0)) (b # bs)) l)" using as(3) by simp
    show "ln_heard (fold say (map (BindOn (ln_conn l0)) (b # bs)) l) = ln_heard l @ ?a # as" using as(1) heard by simp
    show "join_answers (?a # as) = Inr () \<longleftrightarrow> (\<forall>b \<in> set (b # bs). owner (rt (ln_turn l0)) b = None)"
      using as(2) rdy(3) by simp
  qed
qed simp

section \<open>The node\<close>

definition node_ok :: "('ty, 'v, 'r, 's, 't) node \<Rightarrow> bool" where
  "node_ok nd \<longleftrightarrow> set (rr_local_bindings (nd_remote nd)) = dom (bound_in (nd_process nd))
     \<and> distinct (rr_local_bindings (nd_remote nd))
     \<and> rr_connection (nd_remote nd) = map_option ln_conn (nd_link nd)"

lemma say_conn: "ln_conn (fold say es l) = ln_conn l"
proof (induction es arbitrary: l)
  case (Cons e es)
  then show ?case by (cases e) (simp_all add: exchange_def Let_def split_beta)
qed simp

declare node_step.simps(1,2) [simp del]

lemma act_step:
  obtains us where "pr_updates (process_step op (nd_process nd)) = pr_updates (nd_process nd) @ us"
    "node_step (Does op) nd = nd\<lparr>nd_process := process_step op (nd_process nd), nd_remote := fst (tell_remote us (nd_remote nd)),
       nd_link := map_option (fold say (snd (tell_remote us (nd_remote nd)))) (nd_link nd)\<rparr>"
    "fold update_names us (dom (bound_in (nd_process nd))) = dom (bound_in (process_step op (nd_process nd)))"
  using process_step_updates [of op "nd_process nd"] by (auto simp: node_step.simps(1) Let_def split_beta)

lemma say_activations [simp]: "fold say (map (\<lambda>tx. SpawnSend tx c) txs) l = l"
  by (induction txs) simp_all

lemma connected_step:
  "node_step (Connected l) nd =
     (let l1 = fold say (map (BindOn (ln_conn l)) (rr_local_bindings (nd_remote nd))) l
      in nd\<lparr>nd_remote := (nd_remote nd)\<lparr>rr_connection := Some (ln_conn l), rr_pending_calls := []\<rparr>, nd_link := Some l1,
           nd_restart := join_answers (drop (length (ln_heard l)) (ln_heard l1)) \<noteq> Inr ()\<rparr>)"
  by (auto simp: node_step.simps(2) transport_ready_def clean_pending_calls_def bindings_done_def Let_def split_beta
      split: sum.splits)

lemma node_step_ok:
  assumes "node_ok nd"
  shows "node_ok (node_step ev nd)"
proof (cases ev)
  case (Does op)
  obtain us where "node_step (Does op) nd = nd\<lparr>nd_process := process_step op (nd_process nd), nd_remote := fst (tell_remote us (nd_remote nd)),
       nd_link := map_option (fold say (snd (tell_remote us (nd_remote nd)))) (nd_link nd)\<rparr>"
    "fold update_names us (dom (bound_in (nd_process nd))) = dom (bound_in (process_step op (nd_process nd)))"
    by (rule act_step)
  with Does assms tell_remote_keeps [of us "nd_remote nd"] show ?thesis
    by (cases "nd_link nd") (simp_all add: node_ok_def say_conn)
next
  case (Connected l)
  with assms show ?thesis by (simp add: connected_step node_ok_def Let_def say_conn)
next
  case Disconnected
  with assms show ?thesis by (simp add: node_ok_def restarting_def)
next
  case (Others r)
  with assms show ?thesis by (simp add: node_ok_def map_option.compositionality comp_def)
qed

lemma node_run_ok: "node_ok (node_run evs (node_new info))"
proof -
  have "node_ok nd \<Longrightarrow> node_ok (fold node_step evs nd)" for nd
    by (induction evs arbitrary: nd) (simp_all add: node_step_ok)
  moreover have "node_ok (node_new info)"
    by (simp add: node_ok_def node_new_def remote_router_default_def process_new_def bound_in_def local_router_new_def bound_def)
  ultimately show ?thesis by (simp add: node_run_def)
qed

text \<open>The operations of a run, and the process they make.\<close>

fun acts :: "('ty, 'v, 'r, 's, 't) node_event list \<Rightarrow> ('ty, 'v, 'r) process_op list" where
  "acts [] = []"
| "acts (Does op # evs) = op # acts evs"
| "acts (_ # evs) = acts evs"

lemma node_run_process: "nd_process (node_run evs nd) = fold process_step (acts evs) (nd_process nd)"
  unfolding node_run_def
proof (induction evs arbitrary: nd rule: acts.induct)
  case (2 op evs)
  obtain us where "nd_process (node_step (Does op) nd) = process_step op (nd_process nd)"
    by (rule act_step [of op nd]) simp
  with 2 show ?case by simp
qed (simp_all add: connected_step Let_def)

text \<open>
  While the link is up, the router follows the process, for every name \<open>k\<close> that others leave alone: they
  cannot take it away while this connection has it, and do not claim it while it is free.
\<close>

fun quiet :: "string \<Rightarrow> ('ty, 'v, 'r, 's, 't) node_event list \<Rightarrow> ('ty, 'v, 'r, 's, 't) node \<Rightarrow> bool" where
  "quiet k [] nd = True"
| "quiet k (ev # evs) nd =
     ((case ev of
         Does op \<Rightarrow> True
       | Others r \<Rightarrow> (case nd_link nd of None \<Rightarrow> True | Some l \<Rightarrow> owner r k = owner (rt (ln_turn l)) k)
       | _ \<Rightarrow> False)
      \<and> quiet k evs (node_step ev nd))"

lemma step_mirror:
  assumes "not_ours k l0" and "node_ok nd" and "nd_link nd = Some l" and "quiet k [ev] nd"
    and m: "mirrors {k} l0 (dom (bound_in (nd_process nd))) l"
  shows "\<exists>l'. nd_link (node_step ev nd) = Some l' \<and> mirrors {k} l0 (dom (bound_in (nd_process (node_step ev nd)))) l'"
proof (cases ev)
  case (Does op)
  obtain us where step: "node_step (Does op) nd = nd\<lparr>nd_process := process_step op (nd_process nd),
      nd_remote := fst (tell_remote us (nd_remote nd)),
      nd_link := map_option (fold say (snd (tell_remote us (nd_remote nd)))) (nd_link nd)\<rparr>"
    "fold update_names us (dom (bound_in (nd_process nd))) = dom (bound_in (process_step op (nd_process nd)))"
    by (rule act_step)
  have "rr_connection (nd_remote nd) = Some (ln_conn l0)" using assms(2,3) mirrorsD(2) [OF m] by (simp add: node_ok_def)
  from say_updates [OF _ this m, of us] assms(1,3) step Does show ?thesis by simp
next
  case (Others r)
  with assms(3,4) others_mirror [OF m, of r] show ?thesis by simp
qed (use assms(4) in simp_all)

lemma run_mirror:
  assumes "not_ours k l0"
  shows "node_ok nd \<Longrightarrow> nd_link nd = Some l \<Longrightarrow> quiet k evs nd \<Longrightarrow> mirrors {k} l0 (dom (bound_in (nd_process nd))) l \<Longrightarrow>
     \<exists>l'. nd_link (node_run evs nd) = Some l' \<and> mirrors {k} l0 (dom (bound_in (nd_process (node_run evs nd)))) l'"
proof (induction evs arbitrary: nd l)
  case Nil
  then show ?case by (simp add: node_run_def)
next
  case (Cons ev evs)
  obtain l1 where "nd_link (node_step ev nd) = Some l1" "mirrors {k} l0 (dom (bound_in (nd_process (node_step ev nd)))) l1"
    using step_mirror [OF assms Cons.prems(1,2) _ Cons.prems(4), of ev] Cons.prems(3) by auto
  with Cons.IH [OF node_step_ok [OF Cons.prems(1)]] Cons.prems(3) show ?case by (simp add: node_run_def)
qed

lemma connected_mirror:
  assumes "link_ready l" and "node_ok nd"
  shows "\<exists>l1. nd_link (node_step (Connected l) nd) = Some l1 \<and> mirrors UNIV l (dom (bound_in (nd_process nd))) l1"
    and "nd_restart (node_step (Connected l) nd) \<longleftrightarrow>
      (\<exists>k. bound_in (nd_process nd) k \<noteq> None \<and> owner (rt (ln_turn l)) k \<noteq> None)"
proof -
  let ?bs = "rr_local_bindings (nd_remote nd)"
  have bs: "distinct ?bs" "set ?bs = dom (bound_in (nd_process nd))" using assms(2) by (simp_all add: node_ok_def)
  obtain as where as: "mirrors UNIV l (set ?bs) (fold say (map (BindOn (ln_conn l)) ?bs) l)"
    "ln_heard (fold say (map (BindOn (ln_conn l)) ?bs) l) = ln_heard l @ as"
    "join_answers as = Inr () \<longleftrightarrow> (\<forall>b \<in> set ?bs. owner (rt (ln_turn l)) b = None)"
    using say_bindings [OF bs(1) mirrors_start [OF assms(1)]] by auto
  show "\<exists>l1. nd_link (node_step (Connected l) nd) = Some l1 \<and> mirrors UNIV l (dom (bound_in (nd_process nd))) l1"
    using as(1) bs(2) by (simp add: connected_step Let_def)
  show "nd_restart (node_step (Connected l) nd) \<longleftrightarrow>
      (\<exists>k. bound_in (nd_process nd) k \<noteq> None \<and> owner (rt (ln_turn l)) k \<noteq> None)"
    using as(2,3) bs(2) by (auto simp: connected_step Let_def)
qed

lemma linked_mirror:
  assumes "link_ready l" and "not_ours k l"
    and "quiet k evs (node_step (Connected l) (node_run pre (node_new info)))"
    and nd_def: "nd = node_run (pre @ Connected l # evs) (node_new info)"
  shows "\<exists>l'. nd_link nd = Some l' \<and> mirrors {k} l (dom (bound_in (nd_process nd))) l'"
proof -
  let ?nd = "node_step (Connected l) (node_run pre (node_new info))"
  obtain l1 where "nd_link ?nd = Some l1" "mirrors UNIV l (dom (bound_in (nd_process (node_run pre (node_new info))))) l1"
    using connected_mirror(1) [OF assms(1) node_run_ok [of pre info]] by blast
  moreover have "nd_process ?nd = nd_process (node_run pre (node_new info))" by (simp add: connected_step Let_def)
  ultimately have "nd_link ?nd = Some l1" "mirrors {k} l (dom (bound_in (nd_process ?nd))) l1"
    by (auto simp: mirrors_def)
  from run_mirror [OF assms(2) _ this(1) assms(3) this(2)] node_step_ok [OF node_run_ok, of "Connected l" pre info]
  show ?thesis by (simp add: nd_def node_run_def)
qed

text \<open>The way to what a linked process has bound.\<close>

lemma linked_route:
  assumes link: "link_ready l" "takes_messages (ln_ctx l) out_b (ln_turn l)" "owner (rt (ln_turn l)) k = None" "k \<noteq> []"
    and others: "quiet k evs (node_step (Connected l) (node_run pre (node_new info)))"
    and nd: "nd = node_run (pre @ Connected l # evs) (node_new info)" "bound_in (nd_process nd) k \<noteq> None"
    and caller: "cl_open ca" "takes_messages xa out_a ta" "\<not> sender_closed (ln_ctx l) (address xa)"
  shows "\<exists>l'. nd_link nd = Some l'
     \<and> ready_route xa (ln_ctx l) k \<lparr>caller_client = ca, caller_turn = ta\<lparr>rt := rt (ln_turn l')\<rparr>,
          service_turn = ln_turn l', service_client = ln_client l', caller_out = out_a, service_out = out_b\<rparr>"
proof -
  obtain l' where l': "nd_link nd = Some l'" "mirrors {k} l (dom (bound_in (nd_process nd))) l'"
    using linked_mirror [OF link(1) _ others nd(1)] link(3) by (auto simp: not_ours_def)
  then have "owner (rt (ln_turn l')) k = Some (address (ln_ctx l))" using link(3) nd(2) by (auto simp: mirrors_def)
  then have "resolve_node (rt (ln_turn l')) k = Some (address (ln_ctx l))"
    unfolding resolve_node_def by (intro pb.lookup_exact) (simp_all add: owner_def link(4))
  moreover have "takes_messages (ln_ctx l) out_b (ln_turn l')" "cl_open (ln_client l')"
    using mirrorsD(1,4,5) [OF l'(2)] link(2) by (simp_all add: link_ready_def takes_messages_def)
  ultimately show ?thesis
    using l'(1) caller by (simp add: ready_route_def takes_messages_def)
qed

end
