(* ===== verification/Tls.thy ===== *)
theory Tls
  imports Config
begin

text \<open>
  \<^verbatim>\<open>crates/util/src/tls.rs\<close> and the module \<^verbatim>\<open>tls\<close> of \<^verbatim>\<open>crates/router/src/bin.rs\<close>: a client of a TLS router
  knows nothing but the hash of the router's certificate, and accepts that certificate only. The
  server side loads the certificate, logs its hash, and adds it to the configuration.

  The hash function, the hexadecimal encoding and the verification of signatures come from other
  crates: the record \<open>crypto\<close>. So do opening and reading the two files, the record \<open>pem_files\<close>.
\<close>

section \<open>Certificate hashes\<close>

datatype hex_error = InvalidHexCharacter | OddLength | InvalidStringLength

record 'd crypto =
  sha224 :: "bytes \<Rightarrow> bytes"
  hex_encode :: "bytes \<Rightarrow> string"
  hex_decode_to_slice :: "string \<Rightarrow> nat \<Rightarrow> hex_error + bytes"   \<comment> \<open>fills a slice of the given length\<close>
  ring_verify_tls13 :: "bytes \<Rightarrow> bytes \<Rightarrow> 'd \<Rightarrow> bool"

text \<open>\<^verbatim>\<open>[u8; 28]\<close>\<close>

record cert_hash =
  ch_hash :: bytes

definition show_cert_hash :: "'d crypto \<Rightarrow> cert_hash \<Rightarrow> string" where
  "show_cert_hash cr h = hex_encode cr (ch_hash h)"

definition cert_hash_from_str :: "'d crypto \<Rightarrow> string \<Rightarrow> hex_error + cert_hash" where
  "cert_hash_from_str cr s = map_sum id (\<lambda>hash. \<lparr>ch_hash = hash\<rparr>) (hex_decode_to_slice cr s 28)"

definition cert_hash_from_der :: "'d crypto \<Rightarrow> bytes \<Rightarrow> cert_hash" where
  "cert_hash_from_der cr der = \<lparr>ch_hash = sha224 cr der\<rparr>"

section \<open>The verifier of the client\<close>

datatype tls_error = NotValidForName | SignedHandshakeWithUnadvertisedSigScheme | BadSignature

datatype signature_scheme = ECDSA_NISTP256_SHA256 | OtherScheme nat

record hash_verifier =
  hv_hash :: cert_hash

definition hash_verifier_new :: "cert_hash \<Rightarrow> hash_verifier" where
  "hash_verifier_new hash = \<lparr>hv_hash = hash\<rparr>"

text \<open>The chain, the name, the revocation response and the time are ignored.\<close>

definition verify_server_cert ::
  "'d crypto \<Rightarrow> hash_verifier \<Rightarrow> bytes \<Rightarrow> bytes list \<Rightarrow> string \<Rightarrow> bytes \<Rightarrow> nat \<Rightarrow> tls_error + unit" where
  "verify_server_cert cr v end_entity _ _ _ _ =
     (let hash = cert_hash_from_der cr end_entity
      in if hash \<noteq> hv_hash v then Inl NotValidForName else Inr ())"

definition verify_tls12_signature :: "hash_verifier \<Rightarrow> bytes \<Rightarrow> bytes \<Rightarrow> 'd \<Rightarrow> tls_error + unit" where
  "verify_tls12_signature v _ _ _ = Inl SignedHandshakeWithUnadvertisedSigScheme"

definition verify_tls13_signature :: "'d crypto \<Rightarrow> hash_verifier \<Rightarrow> bytes \<Rightarrow> bytes \<Rightarrow> 'd \<Rightarrow> tls_error + unit" where
  "verify_tls13_signature cr v message cert dss =
     (if ring_verify_tls13 cr message cert dss then Inr () else Inl BadSignature)"

definition supported_verify_schemes :: "hash_verifier \<Rightarrow> signature_scheme list" where
  "supported_verify_schemes v = [ECDSA_NISTP256_SHA256]"

text \<open>
  \<^verbatim>\<open>tls_connect\<close>: \<open>connect\<close> opens the socket, \<open>peer\<close> is its \<^verbatim>\<open>peer_addr\<close>, and \<open>handshake\<close> is that of
  \<^verbatim>\<open>tokio_rustls\<close> with the given verifier, for the server named by the address.
\<close>

definition tls_connect ::
  "(string \<Rightarrow> string + 's) \<Rightarrow> ('s \<Rightarrow> string + string) \<Rightarrow> (hash_verifier \<Rightarrow> string \<Rightarrow> 's \<Rightarrow> string + 't)
   \<Rightarrow> string \<Rightarrow> cert_hash \<Rightarrow> string + 't" where
  "tls_connect connect peer handshake addr hash =
     (let v = hash_verifier_new hash in
      case connect addr of
        Inl e \<Rightarrow> Inl e
      | Inr sock \<Rightarrow> (case peer sock of Inl e \<Rightarrow> Inl e | Inr ip \<Rightarrow> handshake v ip sock))"

text \<open>\<^verbatim>\<open>tls\<close> of \<^verbatim>\<open>src/connection.rs\<close> is the same for the client library.\<close>

definition client_tls ::
  "(string \<Rightarrow> string + 's) \<Rightarrow> ('s \<Rightarrow> string + string) \<Rightarrow> (hash_verifier \<Rightarrow> string \<Rightarrow> 's \<Rightarrow> string + 't)
   \<Rightarrow> string \<Rightarrow> cert_hash \<Rightarrow> string + 't" where
  "client_tls connect peer handshake addr hash =
     (let v = hash_verifier_new hash in
      case connect addr of
        Inl e \<Rightarrow> Inl e
      | Inr sock \<Rightarrow> (case peer sock of Inl e \<Rightarrow> Inl e | Inr ip \<Rightarrow> handshake v ip sock))"

section \<open>The certificate of the server\<close>

text \<open>How a step of the start-up ends: with a value, with an error returned, or in a panic.\<close>

datatype 'a outcome = Done 'a | Failed string | Panicked string

fun and_then :: "'a outcome \<Rightarrow> ('a \<Rightarrow> 'b outcome) \<Rightarrow> 'b outcome" where
  "and_then (Done x) f = f x"
| "and_then (Failed e) f = Failed e"
| "and_then (Panicked e) f = Panicked e"

record pem_files =
  pem_certs :: "string \<Rightarrow> string + bytes list"     \<comment> \<open>all certificates of a file\<close>
  pem_ec_keys :: "string \<Rightarrow> string + (string + bytes) list"   \<comment> \<open>what the iterator over the elliptic-curve keys of a file yields\<close>
  single_cert :: "bytes list \<Rightarrow> bytes \<Rightarrow> string + tls_server_config"

text \<open>The certificates and the lines that are logged.\<close>

definition load_certs :: "'d crypto \<Rightarrow> pem_files \<Rightarrow> string \<Rightarrow> (bytes list \<times> string list) outcome" where
  "load_certs cr pem path =
     (case pem_certs pem path of
        Inl e \<Rightarrow> Failed e
      | Inr certs \<Rightarrow> Done (certs, map (\<lambda>c. ''loaded cert '' @ show_cert_hash cr (cert_hash_from_der cr c)) certs))"

text \<open>A file without a key makes \<^verbatim>\<open>.next().unwrap()\<close> panic.\<close>

definition load_keys :: "pem_files \<Rightarrow> string \<Rightarrow> bytes outcome" where
  "load_keys pem path =
     (case pem_ec_keys pem path of
        Inl e \<Rightarrow> Failed e
      | Inr [] \<Rightarrow> Panicked ''called `Option::unwrap()` on a `None` value''
      | Inr (Inl e # _) \<Rightarrow> Failed e
      | Inr (Inr k # _) \<Rightarrow> Done k)"

definition add_config ::
  "'d crypto \<Rightarrow> pem_files \<Rightarrow> string option \<Rightarrow> string option \<Rightarrow> router_config \<Rightarrow> router_config outcome" where
  "add_config cr pem cert key config =
     (case (cert, key) of
        (Some c, Some k) \<Rightarrow>
          and_then (load_certs cr pem c) (\<lambda>(certs, _). and_then (load_keys pem k) (\<lambda>key.
            case single_cert pem certs key of
              Inl e \<Rightarrow> Failed e
            | Inr tls_config \<Rightarrow> Done (config\<lparr>tls := Some tls_config\<rparr>)))
      | (None, None) \<Rightarrow> Done config
      | _ \<Rightarrow> Failed ''misconfigured server expected key & cert'')"

section \<open>Properties\<close>

text \<open>If the library ends a handshake with success only for a certificate that its verifier has accepted,
  then a connection is made with the pinned certificate or not at all.\<close>

lemma tls_connect_pinned:
  assumes "\<And>v name sock t. handshake v name sock = Inr t \<Longrightarrow> \<exists>chain ocsp now. verify_server_cert cr v (peer_cert t) chain name ocsp now = Inr ()"
    and "tls_connect connect peer handshake addr hash = Inr t"
  shows "sha224 cr (peer_cert t) = ch_hash hash"
proof -
  obtain name sock where "handshake (hash_verifier_new hash) name sock = Inr t"
    using assms(2) by (auto simp: tls_connect_def Let_def split: sum.splits)
  from assms(1) [OF this] show ?thesis
    by (auto simp: verify_server_cert_def hash_verifier_new_def cert_hash_from_der_def Let_def split: if_splits)
qed

text \<open>
  C32. Pinning works with what the server logs. For every certificate the server loads, the hash in
  its log line, typed in at the client, parses, and the client's verifier then accepts a certificate
  if and only if its SHA-224 digest is that of the loaded one; in particular it accepts the loaded
  one itself. Whatever the hash, a TLS 1.2 handshake is never accepted, and no signature scheme but
  one is offered. This rests on two facts about the crates: a digest has 28 bytes, and hexadecimal
  encoding of 28 bytes can be read back.
\<close>

theorem logged_hash_pins_certificate:
  assumes digest: "\<And>b. length (sha224 cr b) = 28"
    and hex: "\<And>b. length b = 28 \<Longrightarrow> hex_decode_to_slice cr (hex_encode cr b) 28 = Inr b"
    and loaded: "load_certs cr pem path = Done (certs, log_lines)" and "i < length certs"
  shows "\<exists>hex h. log_lines ! i = ''loaded cert '' @ hex \<and> cert_hash_from_str cr hex = Inr h
     \<and> length (ch_hash h) = 28
     \<and> (\<forall>cert chain name ocsp now. verify_server_cert cr (hash_verifier_new h) cert chain name ocsp now =
          (if sha224 cr cert = sha224 cr (certs ! i) then Inr () else Inl NotValidForName))
     \<and> (\<forall>message cert dss. verify_tls12_signature (hash_verifier_new h) message cert dss \<noteq> Inr ())
     \<and> supported_verify_schemes (hash_verifier_new h) = [ECDSA_NISTP256_SHA256]"
proof (intro exI conjI)
  let ?d = "sha224 cr (certs ! i)"
  show "log_lines ! i = ''loaded cert '' @ hex_encode cr ?d"
    using loaded assms(4)
    by (auto simp: load_certs_def show_cert_hash_def cert_hash_from_der_def split: sum.splits)
  show "cert_hash_from_str cr (hex_encode cr ?d) = Inr \<lparr>ch_hash = ?d\<rparr>"
    by (simp add: cert_hash_from_str_def hex digest)
qed (auto simp: digest verify_server_cert_def hash_verifier_new_def cert_hash_from_der_def
    verify_tls12_signature_def supported_verify_schemes_def)

text \<open>A digest that is the first 28 bytes, padded, and an encoding that keeps the bytes.\<close>

definition plain_crypto :: "unit crypto" where
  "plain_crypto = \<lparr>sha224 = (\<lambda>b. take 28 (b @ replicate 28 0)), hex_encode = map byte_char,
     hex_decode_to_slice = (\<lambda>s n. if length s = n then Inr (as_bytes s) else Inl InvalidStringLength),
     ring_verify_tls13 = (\<lambda>_ _ _. True)\<rparr>"

definition one_pem :: pem_files where
  "one_pem = \<lparr>pem_certs = (\<lambda>_. Inr [[5]]), pem_ec_keys = (\<lambda>_. Inr [Inr [9]]), single_cert = (\<lambda>certs key. Inr (certs, key))\<rparr>"

lemma as_bytes_byte_char: "as_bytes (map byte_char bs) = bs"
proof -
  have "word_of_nat (unat b mod 256) = b" for b :: u8
  proof -
    have "unat b < 256" using unsigned_less [of b] by simp
    then show ?thesis by simp
  qed
  then show ?thesis by (induction bs) (simp_all add: as_bytes_def byte_char_def)
qed

theorem logged_hash_pins_certificate_witness:
  "\<exists>hex h. cert_hash_from_str plain_crypto hex = Inr h
     \<and> verify_server_cert plain_crypto (hash_verifier_new h) [5] [] [] [] 0 = Inr ()
     \<and> verify_server_cert plain_crypto (hash_verifier_new h) [6] [] [] [] 0 = Inl NotValidForName"
proof -
  have loaded: "load_certs plain_crypto one_pem ''c.pem'' =
      Done ([[5]], [''loaded cert '' @ show_cert_hash plain_crypto (cert_hash_from_der plain_crypto [5])])"
    by (simp add: load_certs_def one_pem_def)
  have digest: "length (sha224 plain_crypto b) = 28" for b by (simp add: plain_crypto_def)
  have hex: "length b = 28 \<Longrightarrow> hex_decode_to_slice plain_crypto (hex_encode plain_crypto b) 28 = Inr b" for b
    by (simp add: plain_crypto_def as_bytes_byte_char)
  obtain hash_text h where h: "cert_hash_from_str plain_crypto hash_text = Inr h"
    "\<And>cert chain name ocsp now. verify_server_cert plain_crypto (hash_verifier_new h) cert chain name ocsp now =
       (if sha224 plain_crypto cert = sha224 plain_crypto [5] then Inr () else Inl NotValidForName)"
    using logged_hash_pins_certificate [OF digest hex loaded, of 0] by auto
  have "sha224 plain_crypto [6] \<noteq> sha224 plain_crypto [5]" by (simp add: plain_crypto_def)
  with h show ?thesis by (intro exI [of _ hash_text] exI [of _ h]) simp
qed

end
