(* ===== verification/Unix_Socket.thy ===== *)
theory Unix_Socket
  imports Prelude
begin

text \<open>
  \<^verbatim>\<open>crates/router/src/unix_socket.rs\<close> and the start of \<^verbatim>\<open>bind_unix\<close> in \<^verbatim>\<open>router.rs\<close>: how the router
  takes over the path of its Unix socket.

  The part of the file system that the code touches is the record \<open>unix_fs\<close>, and the functions of
  the standard library it calls are operations on that record. Other processes act at any time:
  \<open>others k\<close> is what they do to the file system before the \<open>k\<close>-th call of the program, so a theorem
  for every \<open>others\<close> holds under every interference.
\<close>

unbundle bit_operations_syntax

section \<open>The file system\<close>

datatype file_type = SocketFile | SymlinkFile | DirectoryFile | RegularFile

record metadata =
  md_type :: file_type
  md_dev :: u64
  md_ino :: u64
  md_uid :: u32
  md_mode :: u32

text \<open>
  \<open>fs_target\<close> is where a path leads after its symbolic links, \<open>fs_accepts\<close> tells whether a process
  listens on the socket at a path, and \<open>fs_denied\<close> is an error every access to a path meets. The text of
  the system's own errors is \<open>fs_text\<close>.
\<close>

record unix_fs =
  fs_entry :: "string \<Rightarrow> metadata option"
  fs_target :: "string \<Rightarrow> string"
  fs_accepts :: "string \<Rightarrow> bool"
  fs_denied :: "string \<Rightarrow> io_error_kind option"
  fs_text :: "io_error_kind \<Rightarrow> string"

record io_error =
  ie_kind :: io_error_kind
  ie_text :: string

definition system_error :: "unix_fs \<Rightarrow> io_error_kind \<Rightarrow> io_error" where
  "system_error f k = \<lparr>ie_kind = k, ie_text = fs_text f k\<rparr>"

text \<open>The entry itself, without following links, and the error if there is none to see.\<close>

definition fs_look :: "string \<Rightarrow> unix_fs \<Rightarrow> io_error + metadata" where
  "fs_look path f =
     (case fs_denied f path of
        Some k \<Rightarrow> Inl (system_error f k)
      | None \<Rightarrow> (case fs_entry f path of
                   None \<Rightarrow> Inl (system_error f NotFound)
                 | Some m \<Rightarrow> Inr m))"

definition symlink_metadata :: "string \<Rightarrow> unix_fs \<Rightarrow> io_error + metadata" where
  "symlink_metadata path f = fs_look path f"

definition unix_connect :: "string \<Rightarrow> unix_fs \<Rightarrow> io_error + unit" where
  "unix_connect path f =
     (case fs_look (fs_target f path) f of
        Inl e \<Rightarrow> Inl e
      | Inr m \<Rightarrow> if md_type m = SocketFile \<and> fs_accepts f (fs_target f path) then Inr ()
                 else Inl (system_error f ConnectionRefused))"

definition remove_file :: "string \<Rightarrow> unix_fs \<Rightarrow> (io_error + unit) \<times> unix_fs" where
  "remove_file path f =
     (case fs_look path f of
        Inl e \<Rightarrow> (Inl e, f)
      | Inr m \<Rightarrow> if md_type m = DirectoryFile then (Inl (system_error f OtherKind), f)
                 else (Inr (), f\<lparr>fs_entry := (fs_entry f)(path := None)\<rparr>))"

text \<open>\<^verbatim>\<open>chmod\<close> follows links, is for the owner and the superuser, and keeps the bits of the file type.\<close>

definition set_permissions :: "u32 \<Rightarrow> string \<Rightarrow> u32 \<Rightarrow> unix_fs \<Rightarrow> (io_error + unit) \<times> unix_fs" where
  "set_permissions euid path mode f =
     (case fs_look (fs_target f path) f of
        Inl e \<Rightarrow> (Inl e, f)
      | Inr m \<Rightarrow>
          if md_uid m \<noteq> euid \<and> euid \<noteq> 0 then (Inl (system_error f PermissionDenied), f)
          else (Inr (), f\<lparr>fs_entry := (fs_entry f)(fs_target f path \<mapsto>
                  m\<lparr>md_mode := (md_mode m AND NOT 0xFFF) OR mode\<rparr>)\<rparr>))"

text \<open>Binding a listener creates the socket; \<open>fresh\<close> holds the numbers and the mode the system gives it.\<close>

definition listener_bind :: "u32 \<Rightarrow> metadata \<Rightarrow> string \<Rightarrow> unix_fs \<Rightarrow> (io_error + unit) \<times> unix_fs" where
  "listener_bind euid fresh path f =
     (case fs_denied f path of
        Some k \<Rightarrow> (Inl (system_error f k), f)
      | None \<Rightarrow>
          if fs_entry f path \<noteq> None then (Inl (system_error f AddrInUse), f)
          else (Inr (), f\<lparr>fs_entry := (fs_entry f)(path \<mapsto> fresh\<lparr>md_type := SocketFile, md_uid := euid\<rparr>),
                          fs_accepts := (fs_accepts f)(path := True)\<rparr>))"

section \<open>Taking over the path\<close>

record socket_identity =
  si_device :: u64
  si_inode :: u64
  si_uid :: u32

definition from_metadata :: "metadata \<Rightarrow> socket_identity" where
  "from_metadata m = \<lparr>si_device = md_dev m, si_inode = md_ino m, si_uid = md_uid m\<rparr>"

definition si_matches :: "socket_identity \<Rightarrow> metadata \<Rightarrow> bool" where
  "si_matches i m \<longleftrightarrow> si_device i = md_dev m \<and> si_inode i = md_ino m \<and> si_uid i = md_uid m"

definition path_error :: "io_error_kind \<Rightarrow> string \<Rightarrow> string \<Rightarrow> io_error" where
  "path_error kind path message = \<lparr>ie_kind = kind, ie_text = message @ '': '' @ path\<rparr>"

definition inspect_owned_socket ::
  "u32 \<Rightarrow> string \<Rightarrow> unix_fs \<Rightarrow> io_error + (metadata \<times> socket_identity)" where
  "inspect_owned_socket effective_uid path f =
     (case symlink_metadata path f of
        Inl e \<Rightarrow> Inl e
      | Inr m \<Rightarrow>
          if md_type m \<noteq> SocketFile
          then Inl (path_error AlreadyExists path
            ''refusing to remove GSB path because it is a symlink or not a Unix socket'')
          else if md_uid m \<noteq> effective_uid
          then Inl \<lparr>ie_kind = PermissionDenied, ie_text =
            ''refusing to remove GSB socket '' @ path @ '' owned by uid '' @ show_nat (unat (md_uid m))
            @ '', expected effective uid '' @ show_nat (unat effective_uid)\<rparr>
          else Inr (m, from_metadata m))"

definition prepare_for_bind ::
  "u32 \<Rightarrow> (nat \<Rightarrow> unix_fs \<Rightarrow> unix_fs) \<Rightarrow> string \<Rightarrow> unix_fs \<Rightarrow> (io_error + unit) \<times> unix_fs" where
  "prepare_for_bind euid others path f =
     (let f1 = others 0 f in
      case inspect_owned_socket euid path f1 of
        Inl e \<Rightarrow> if ie_kind e = NotFound then (Inr (), f1) else (Inl e, f1)
      | Inr (_, identity) \<Rightarrow>
          let f2 = others 1 f1 in
          case unix_connect path f2 of
            Inr _ \<Rightarrow> (Inl (path_error AddrInUse path ''GSB socket is already accepting connections''), f2)
          | Inl e \<Rightarrow>
              if ie_kind e = NotFound then (Inr (), f2)
              else if ie_kind e \<noteq> ConnectionRefused
              then (Inl \<lparr>ie_kind = ie_kind e, ie_text =
                ''cannot verify whether GSB socket '' @ path @ '' is stale: '' @ ie_text e\<rparr>, f2)
              else
                let f3 = others 2 f2 in
                case inspect_owned_socket euid path f3 of
                  Inl e \<Rightarrow> (Inl e, f3)
                | Inr (m, _) \<Rightarrow>
                    if \<not> si_matches identity m
                    then (Inl (path_error OtherKind path
                      ''GSB socket changed while checking whether it was stale''), f3)
                    else
                      (case remove_file path (others 3 f3) of
                         (Inl e, f4) \<Rightarrow> (Inl \<lparr>ie_kind = ie_kind e, ie_text =
                           ''cannot remove stale GSB socket '' @ path @ '': '' @ ie_text e\<rparr>, f4)
                       | (Inr _, f4) \<Rightarrow> (Inr (), f4)))"

definition set_owner_only_permissions ::
  "u32 \<Rightarrow> (nat \<Rightarrow> unix_fs \<Rightarrow> unix_fs) \<Rightarrow> string \<Rightarrow> unix_fs \<Rightarrow> (io_error + unit) \<times> unix_fs" where
  "set_owner_only_permissions euid others path f =
     (let f1 = others 0 f in
      case inspect_owned_socket euid path f1 of
        Inl e \<Rightarrow> (Inl e, f1)
      | Inr (_, identity) \<Rightarrow>
          (case set_permissions euid path 0x180 (others 1 f1) of
             (Inl e, f2) \<Rightarrow> (Inl \<lparr>ie_kind = ie_kind e, ie_text =
               ''cannot set mode 0600 on GSB socket '' @ path @ '': '' @ ie_text e\<rparr>, f2)
           | (Inr _, f2) \<Rightarrow>
               let f3 = others 2 f2 in
               case inspect_owned_socket euid path f3 of
                 Inl e \<Rightarrow> (Inl e, f3)
               | Inr (m, _) \<Rightarrow>
                   if \<not> si_matches identity m \<or> md_mode m AND 0x1FF \<noteq> 0x180
                   then (Inl (path_error OtherKind path
                     ''GSB socket changed while applying owner-only permissions''), f3)
                   else (Inr (), f3)))"

text \<open>How \<^verbatim>\<open>bind_unix\<close> gets its listener, with \<open>others\<close> for its two longer steps.\<close>

definition bind_unix_listener ::
  "u32 \<Rightarrow> metadata \<Rightarrow> (nat \<Rightarrow> unix_fs \<Rightarrow> unix_fs) \<Rightarrow> (nat \<Rightarrow> unix_fs \<Rightarrow> unix_fs) \<Rightarrow> string \<Rightarrow> unix_fs
   \<Rightarrow> (io_error + unit) \<times> unix_fs" where
  "bind_unix_listener euid fresh others others' path f =
     (case prepare_for_bind euid others path f of
        (Inl e, f1) \<Rightarrow> (Inl e, f1)
      | (Inr _, f1) \<Rightarrow>
          (case listener_bind euid fresh path f1 of
             (Inl e, f2) \<Rightarrow> (Inl e, f2)
           | (Inr _, f2) \<Rightarrow> set_owner_only_permissions euid others' path f2))"

section \<open>Facts about the checks\<close>

definition owned_socket :: "u32 \<Rightarrow> string \<Rightarrow> unix_fs \<Rightarrow> bool" where
  "owned_socket euid path f \<longleftrightarrow>
     (\<exists>m. fs_look path f = Inr m \<and> md_type m = SocketFile \<and> md_uid m = euid)"

text \<open>The state of the file system when only the others have acted, \<open>k\<close> times.\<close>

definition world :: "(nat \<Rightarrow> unix_fs \<Rightarrow> unix_fs) \<Rightarrow> nat \<Rightarrow> unix_fs \<Rightarrow> unix_fs" where
  "world others k f = fold others [0..<k] f"

lemma world_simps:
  "world others (Suc 0) f = others 0 f" "world others 2 f = others (Suc 0) (others 0 f)"
  "world others 3 f = others 2 (others (Suc 0) (others 0 f))"
  "world others 4 f = others 3 (others 2 (others (Suc 0) (others 0 f)))"
  by (simp_all add: world_def upt_rec numeral_eq_Suc)

lemma inspect_Inr:
  "inspect_owned_socket euid path f = Inr (m, i) \<longleftrightarrow>
     fs_look path f = Inr m \<and> md_type m = SocketFile \<and> md_uid m = euid \<and> i = from_metadata m"
  by (auto simp: inspect_owned_socket_def symlink_metadata_def split: sum.splits)

lemma si_matches_iff: "si_matches (from_metadata m) m' \<longleftrightarrow> from_metadata m = from_metadata m'"
  by (auto simp: si_matches_def from_metadata_def)

lemma remove_file_cases:
  "(\<exists>e. remove_file path f = (Inl e, f))
   \<or> remove_file path f = (Inr (), f\<lparr>fs_entry := (fs_entry f)(path := None)\<rparr>)"
  by (simp add: remove_file_def split: sum.split)

lemma prepare_reaches_removal:
  assumes "inspect_owned_socket euid path (world others 1 f) = Inr (m, i)"
    and "unix_connect path (world others 2 f) = Inl e" "ie_kind e = ConnectionRefused"
    and "inspect_owned_socket euid path (world others 3 f) = Inr (m', i')" "si_matches i m'"
  shows "snd (prepare_for_bind euid others path f) = snd (remove_file path (world others 4 f))"
    and "fst (remove_file path (world others 4 f)) = Inr () \<Longrightarrow> fst (prepare_for_bind euid others path f) = Inr ()"
    and "owned_socket euid path (world others 1 f)" and "owned_socket euid path (world others 3 f)"
    and "map_sum id from_metadata (fs_look path (world others 1 f)) =
         map_sum id from_metadata (fs_look path (world others 3 f))"
  using assms
  by (auto simp: prepare_for_bind_def Let_def world_simps owned_socket_def split: prod.split sum.split)
    (auto simp: inspect_Inr si_matches_iff)

text \<open>Owner-only: the new mode has exactly the permission bits of \<^verbatim>\<open>0600\<close>.\<close>

lemma owner_only_bits: "(((w :: u32) AND NOT 0xFFF) OR 0x180) AND 0x1FF = 0x180"
proof -
  have "(w AND NOT 0xFFF) AND 0x1FF = 0"
    by (simp add: and.assoc)
  then show ?thesis by (simp add: bit.conj_disj_distrib2)
qed

lemmas owner_only_mode = owner_only_bits [simplified]

section \<open>Properties\<close>

text \<open>
  C36. Whatever other processes do in the meantime, preparing the path deletes at most the entry at
  that path, and only when it was, before and after a refused connection attempt, a socket of the
  effective user with the same device, inode and owner; in every other case the code changes nothing.
\<close>

theorem only_stale_socket_removed:
  "let (res, f') = prepare_for_bind euid others path f; w = (\<lambda>k. world others k f)
   in (\<exists>k \<le> 4. f' = w k)
    \<or> (res = Inr () \<and> f' = (w 4)\<lparr>fs_entry := (fs_entry (w 4))(path := None)\<rparr>
        \<and> owned_socket euid path (w 1) \<and> owned_socket euid path (w 3)
        \<and> map_sum id from_metadata (fs_look path (w 1)) = map_sum id from_metadata (fs_look path (w 3))
        \<and> (\<exists>e. unix_connect path (w 2) = Inl e \<and> ie_kind e = ConnectionRefused))"
proof -
  let ?p = "prepare_for_bind euid others path f"
  let ?w = "\<lambda>k. world others k f"
  note step = prepare_for_bind_def Let_def world_simps
  have quiet: "snd ?p = ?w k \<Longrightarrow> k \<le> 4 \<Longrightarrow> ?thesis" for k
    by (auto simp: Let_def split_beta)
  show ?thesis
  proof (cases "inspect_owned_socket euid path (?w 1)")
    case (Inl e)
    then show ?thesis by (intro quiet [of 1]) (auto simp: step)
  next
    case i1: (Inr mi)
    obtain m i where mi: "mi = (m, i)" by (cases mi)
    show ?thesis
    proof (cases "\<exists>e. unix_connect path (?w 2) = Inl e \<and> ie_kind e = ConnectionRefused")
      case False
      with i1 mi show ?thesis by (intro quiet [of 2]) (auto simp: step split: sum.split)
    next
      case True
      then obtain e where e: "unix_connect path (?w 2) = Inl e" "ie_kind e = ConnectionRefused" by blast
      show ?thesis
      proof (cases "\<exists>m' i'. inspect_owned_socket euid path (?w 3) = Inr (m', i') \<and> si_matches i m'")
        case False
        with i1 mi e show ?thesis by (intro quiet [of 3]) (auto simp: step split: sum.split)
      next
        case True
        then obtain m' i' where i3: "inspect_owned_socket euid path (?w 3) = Inr (m', i')" "si_matches i m'"
          by blast
        note removal = prepare_reaches_removal [OF i1 [unfolded mi] e i3]
        show ?thesis
          using remove_file_cases [of path "?w 4"]
        proof
          assume "\<exists>e. remove_file path (?w 4) = (Inl e, ?w 4)"
          with removal(1,2) show ?thesis by (intro quiet [of 4]) auto
        next
          assume "remove_file path (?w 4) = (Inr (), (?w 4)\<lparr>fs_entry := (fs_entry (?w 4))(path := None)\<rparr>)"
          with removal e show ?thesis by (simp add: Let_def split_beta)
        qed
      qed
    qed
  qed
qed

text \<open>The path is taken: a listening socket with owner-only permissions, all other paths as before.\<close>

definition taken_over :: "u32 \<Rightarrow> string \<Rightarrow> unix_fs \<Rightarrow> unix_fs \<Rightarrow> bool" where
  "taken_over euid path f f' \<longleftrightarrow> fs_accepts f' path
     \<and> (\<exists>m. fs_entry f' path = Some m \<and> md_type m = SocketFile \<and> md_uid m = euid
            \<and> md_mode m AND 0x1FF = 0x180)
     \<and> (\<forall>q. q \<noteq> path \<longrightarrow> fs_entry f' q = fs_entry f q)"

lemma listener_then_permissions:
  assumes "\<And>p. fs_denied f p = None" and "fs_entry f path = None" and "fs_target f path = path"
  shows "let (res, f2) = listener_bind euid fresh path f;
             (res', f') = set_owner_only_permissions euid (\<lambda>_ g. g) path f2
         in res = Inr () \<and> res' = Inr () \<and> taken_over euid path f f'"
  using assms
  by (simp add: listener_bind_def set_owner_only_permissions_def inspect_owned_socket_def symlink_metadata_def
      fs_look_def set_permissions_def si_matches_def from_metadata_def owner_only_mode taken_over_def Let_def)

text \<open>
  C35. Left alone, and with no access denied by the system, the router takes over its path exactly when nothing is there or a socket of its own
  user on which nobody listens: it then listens there, and only the user has access. A symbolic link
  or a file of another kind, a socket of another user, and a socket in use are refused, each with its
  kind of error, and the file system stays as it was.
\<close>

theorem bind_takes_over_only_stale_path:
  assumes "\<And>p. fs_denied f p = None"
    and "fs_target f path = path \<or> (\<exists>m. fs_entry f path = Some m \<and> md_type m = SymlinkFile)"
  shows "let (res, f') = bind_unix_listener euid fresh (\<lambda>_ g. g) (\<lambda>_ g. g) path f;
             refused = (\<lambda>k. f' = f \<and> (\<exists>e. res = Inl e \<and> ie_kind e = k));
             taken = (res = Inr () \<and> taken_over euid path f f')
         in case fs_entry f path of
              None \<Rightarrow> taken
            | Some m \<Rightarrow>
                if md_type m \<noteq> SocketFile then refused AlreadyExists
                else if md_uid m \<noteq> euid then refused PermissionDenied
                else if fs_accepts f path then refused AddrInUse
                else taken"
proof -
  have look: "fs_look p f = (case fs_entry f p of None \<Rightarrow> Inl (system_error f NotFound) | Some m \<Rightarrow> Inr m)" for p
    by (simp add: fs_look_def assms(1))
  note defs = bind_unix_listener_def prepare_for_bind_def inspect_owned_socket_def symlink_metadata_def look
    system_error_def unix_connect_def remove_file_def path_error_def si_matches_def from_metadata_def Let_def
  show ?thesis
  proof (cases "fs_entry f path")
    case None
    with assms listener_then_permissions [of f path euid fresh] show ?thesis
      by (simp add: defs split_beta split: prod.split sum.split)
  next
    case (Some m)
    let ?f = "f\<lparr>fs_entry := (fs_entry f)(path := None)\<rparr>"
    have free: "taken_over euid path ?f f' \<Longrightarrow> taken_over euid path f f'" for f'
      by (simp add: taken_over_def)
    show ?thesis
      using Some assms listener_then_permissions [of ?f path euid fresh] free
      by (auto simp: defs split_beta split: prod.split sum.split)
  qed
qed

definition stale_socket :: unix_fs where
  "stale_socket = \<lparr>fs_entry = [''/run/gsb.sock'' \<mapsto> \<lparr>md_type = SocketFile, md_dev = 1, md_ino = 7, md_uid = 1000, md_mode = 0xC1ED\<rparr>],
     fs_target = (\<lambda>p. p), fs_accepts = (\<lambda>_. False), fs_denied = (\<lambda>_. None), fs_text = (\<lambda>_. [])\<rparr>"

definition new_socket :: metadata where
  "new_socket = \<lparr>md_type = SocketFile, md_dev = 1, md_ino = 8, md_uid = 0, md_mode = 0xC1ED\<rparr>"

theorem bind_takes_over_only_stale_path_witness:
  "fst (bind_unix_listener 1000 new_socket (\<lambda>_ g. g) (\<lambda>_ g. g) ''/run/gsb.sock'' stale_socket) = Inr ()
   \<and> (\<exists>e. fst (bind_unix_listener 0 new_socket (\<lambda>_ g. g) (\<lambda>_ g. g) ''/run/gsb.sock'' stale_socket) = Inl e
          \<and> ie_kind e = PermissionDenied)"
  using bind_takes_over_only_stale_path [of stale_socket "''/run/gsb.sock''" 1000 new_socket]
    bind_takes_over_only_stale_path [of stale_socket "''/run/gsb.sock''" 0 new_socket]
  by (simp add: stale_socket_def Let_def split_beta)

end
