(* ===== verification/Launch.thy ===== *)
theory Launch
  imports Tls Gsb_Addr Unix_Socket Router_Connection
begin

text \<open>
  How a router is started: \<^verbatim>\<open>bind_*\<close> and \<^verbatim>\<open>run_*\<close> of \<^verbatim>\<open>crates/router/src/router.rs\<close>, the entry points
  of \<^verbatim>\<open>crates/router/src/lib.rs\<close> and the executable \<^verbatim>\<open>bin.rs\<close>; and the connections it then accepts.

  The state is the instance (whose slot for the router is shared by its clones), the listeners that
  are open, the status servers that were spawned, and the file system. What the platform answers is
  the record \<open>host\<close>. A server that runs until it is stopped ends in \<open>Done\<close>.
\<close>

section \<open>Binding\<close>

text \<open>A TLS listener has the configuration that its workers will unwrap.\<close>

datatype listener = TcpListener string | TlsListener string "tls_server_config option" | UnixListener string

record 'u host =
  ho_url :: "'u url_ops"
  ho_gsb_url_var :: "string option"        \<comment> \<open>\<^verbatim>\<open>GSB_URL\<close>\<close>
  ho_xdg :: "string option"                \<comment> \<open>\<^verbatim>\<open>XDG_RUNTIME_DIR\<close>\<close>
  ho_project_dir :: "string option"
  ho_ping_var :: "string option"           \<comment> \<open>\<^verbatim>\<open>GSB_PING_TIMEOUT\<close>\<close>
  ho_bind :: "string \<Rightarrow> string option"      \<comment> \<open>the error of \<^verbatim>\<open>ServerBuilder::bind\<close>, if there is one\<close>
  ho_euid :: u32
  ho_fresh :: metadata
  ho_others :: "nat \<Rightarrow> unix_fs \<Rightarrow> unix_fs"
  ho_others' :: "nat \<Rightarrow> unix_fs \<Rightarrow> unix_fs"

record 'u launch =
  la_instance :: instance_config
  la_listeners :: "listener list"
  la_web :: "'u list"   \<comment> \<open>where a server for the status pages was spawned; that it fails is only logged\<close>
  la_fs :: unix_fs

definition generated_endpoint :: "'u host \<Rightarrow> generated_gsb_endpoint" where
  "generated_endpoint h = generated_default (ho_xdg h) (ho_project_dir h)"

definition save_router :: "'u launch \<Rightarrow> 'u launch" where
  "save_router st = st\<lparr>la_instance := fst (create_router_and_save (la_instance st) :: instance_config \<times> unit router)\<rparr>"

definition open_listener :: "listener \<Rightarrow> 'u launch \<Rightarrow> 'u launch" where
  "open_listener l st = st\<lparr>la_listeners := la_listeners st @ [l]\<rparr>"

text \<open>The router is saved before the address is bound.\<close>

definition bind_tls :: "'u host \<Rightarrow> string \<Rightarrow> 'u launch \<Rightarrow> unit outcome \<times> 'u launch" where
  "bind_tls h addr st =
     (let st1 = save_router st in
      case ho_bind h addr of
        Some e \<Rightarrow> (Failed e, st1)
      | None \<Rightarrow> (Done (), open_listener (TlsListener addr (tls (ic_config (la_instance st1)))) st1))"

definition bind_tcp :: "'u host \<Rightarrow> string \<Rightarrow> 'u launch \<Rightarrow> unit outcome \<times> 'u launch" where
  "bind_tcp h addr st =
     (let st1 = save_router st in
      case ho_bind h addr of
        Some e \<Rightarrow> (Failed e, st1)
      | None \<Rightarrow> (Done (), open_listener (TcpListener addr) st1))"

text \<open>Here the socket comes first.\<close>

definition bind_unix :: "'u host \<Rightarrow> string \<Rightarrow> 'u launch \<Rightarrow> unit outcome \<times> 'u launch" where
  "bind_unix h path st =
     (case bind_unix_listener (ho_euid h) (ho_fresh h) (ho_others h) (ho_others' h) path (la_fs st) of
        (Inl e, f) \<Rightarrow> (Failed (ie_text e), st\<lparr>la_fs := f\<rparr>)
      | (Inr _, f) \<Rightarrow> (Done (), open_listener (UnixListener path) (save_router (st\<lparr>la_fs := f\<rparr>))))"

definition bind_url :: "'u host \<Rightarrow> 'u option \<Rightarrow> 'u launch \<Rightarrow> unit outcome \<times> 'u launch" where
  "bind_url h gsb_url st =
     (case addr_from_url (ho_url h) (generated_endpoint h) (ho_gsb_url_var h) gsb_url of
        Inl panic \<Rightarrow> (Panicked panic, st)
      | Inr (Tcp addr) \<Rightarrow>
          if tls (ic_config (la_instance st)) \<noteq> None then bind_tls h addr st else bind_tcp h addr st
      | Inr (Unix path) \<Rightarrow> bind_unix h path st)"

definition run_rest_api :: "'u \<Rightarrow> 'u launch \<Rightarrow> unit outcome \<times> 'u launch" where
  "run_rest_api web_addr st =
     (if ic_router (la_instance st) then (Done (), st\<lparr>la_web := la_web st @ [web_addr]\<rparr>)
      else (Failed ''Router not initialized'', st))"

definition run_router :: "'u host \<Rightarrow> 'u option \<Rightarrow> 'u option \<Rightarrow> 'u launch \<Rightarrow> unit outcome \<times> 'u launch" where
  "run_router h gsb_url web_addr st =
     (case bind_url h gsb_url st of
        (Done _, st1) \<Rightarrow>
          (case web_addr of
             Some w \<Rightarrow> run_rest_api w st1
           | None \<Rightarrow> (Done (), st1))
      | failure \<Rightarrow> failure)"

text \<open>\<^verbatim>\<open>lib.rs\<close>: a background router with the configuration of the environment.\<close>

definition start_with :: "instance_config \<Rightarrow> unix_fs \<Rightarrow> 'u launch" where
  "start_with ic f = \<lparr>la_instance = ic, la_listeners = [], la_web = [], la_fs = f\<rparr>"

definition bind_tcp_router :: "'u host \<Rightarrow> string \<Rightarrow> string \<Rightarrow> bytes \<Rightarrow> string \<Rightarrow> unix_fs \<Rightarrow> unit outcome \<times> 'u launch" where
  "bind_tcp_router h pkg version uuid addr f =
     bind_tcp h addr (start_with (instance_new pkg version uuid (from_env (ho_ping_var h))) f)"

definition bind_gsb_router :: "'u host \<Rightarrow> string \<Rightarrow> string \<Rightarrow> bytes \<Rightarrow> 'u option \<Rightarrow> unix_fs \<Rightarrow> unit outcome \<times> 'u launch" where
  "bind_gsb_router h pkg version uuid gsb_url f =
     bind_url h gsb_url (start_with (instance_new pkg version uuid (from_env (ho_ping_var h))) f)"

text \<open>\<^verbatim>\<open>connect\<close>: a framed socket of the kind the address asks for; a failure to connect panics.\<close>

definition tcp_connect :: "(string \<Rightarrow> string + 's) \<Rightarrow> string \<Rightarrow> 's outcome" where
  "tcp_connect open_tcp addr = (case open_tcp addr of Inl _ \<Rightarrow> Panicked ''Connect failed'' | Inr s \<Rightarrow> Done s)"

definition unix_stream_connect :: "(string \<Rightarrow> string + 's) \<Rightarrow> string \<Rightarrow> 's outcome" where
  "unix_stream_connect open_unix path = (case open_unix path of Inl _ \<Rightarrow> Panicked ''Connect failed'' | Inr s \<Rightarrow> Done s)"

definition router_connect :: "(string \<Rightarrow> string + 's) \<Rightarrow> (string \<Rightarrow> string + 's) \<Rightarrow> gsb_addr \<Rightarrow> 's outcome" where
  "router_connect open_tcp open_unix addr =
     (case addr of
        Tcp a \<Rightarrow> tcp_connect open_tcp a
      | Unix path \<Rightarrow> unix_stream_connect open_unix path)"

section \<open>The executable\<close>

text \<open>The arguments that were given, on the command line or in the environment.\<close>

record 'u given =
  gv_gsb_url :: "string option"
  gv_ping_interval :: "duration option"
  gv_ping_timeout :: "duration option"
  gv_forward_timeout :: "duration option"
  gv_gc_interval :: "duration option"
  gv_high_buffer_mark :: "nat option"
  gv_broadcast_backlog :: "nat option"
  gv_cert :: "string option"
  gv_key :: "string option"
  gv_web_addr :: "'u option"

record 'u options =
  op_gsb_url :: "'u option"
  op_ping_interval :: duration
  op_ping_timeout :: duration
  op_forward_timeout :: duration
  op_gc_interval :: "duration option"
  op_high_buffer_mark :: nat
  op_broadcast_backlog :: nat
  op_cert :: "string option"
  op_key :: "string option"
  op_web_addr :: "'u option"

definition first_given :: "'a option \<Rightarrow> 'a option \<Rightarrow> 'a option" where
  "first_given cli env = (case cli of Some v \<Rightarrow> Some v | None \<Rightarrow> env)"

definition or_default :: "'a option \<Rightarrow> 'a option \<Rightarrow> 'a \<Rightarrow> 'a" where
  "or_default cli env d = (case first_given cli env of Some v \<Rightarrow> v | None \<Rightarrow> d)"

text \<open>\<^verbatim>\<open>Options::parse()\<close>: the command line before the environment before the default; a value that is
  not a URL ends the program. Unlike the library, the executable does not try \<^verbatim>\<open>tcp://\<close> in front of
  an address without a scheme.\<close>

definition options_parse :: "'u url_ops \<Rightarrow> 'u given \<Rightarrow> 'u given \<Rightarrow> 'u options outcome" where
  "options_parse ops cli env =
     (case map_option (url_parse ops) (first_given (gv_gsb_url cli) (gv_gsb_url env)) of
        Some (Inl _) \<Rightarrow> Failed ''invalid value for -l''
      | url \<Rightarrow> Done \<lparr>
          op_gsb_url = (case url of Some (Inr u) \<Rightarrow> Some u | _ \<Rightarrow> None),
          op_ping_interval = or_default (gv_ping_interval cli) (gv_ping_interval env) (from_secs (2 * 60)),
          op_ping_timeout = or_default (gv_ping_timeout cli) (gv_ping_timeout env) (from_secs (5 * 60)),
          op_forward_timeout = or_default (gv_forward_timeout cli) (gv_forward_timeout env) (from_secs 30),
          op_gc_interval = first_given (gv_gc_interval cli) (gv_gc_interval env),
          op_high_buffer_mark = or_default (gv_high_buffer_mark cli) (gv_high_buffer_mark env) 8,
          op_broadcast_backlog = or_default (gv_broadcast_backlog cli) (gv_broadcast_backlog env) 4,
          op_cert = first_given (gv_cert cli) (gv_cert env),
          op_key = first_given (gv_key cli) (gv_key env),
          op_web_addr = first_given (gv_web_addr cli) (gv_web_addr env)\<rparr>)"

definition options_config :: "'u options \<Rightarrow> router_config" where
  "options_config o1 = default_config\<lparr>
     ping_interval := op_ping_interval o1, ping_timeout := op_ping_timeout o1,
     gc_interval := op_gc_interval o1, high_buffer_mark := op_high_buffer_mark o1,
     forward_timeout := op_forward_timeout o1, broadcast_backlog := op_broadcast_backlog o1\<rparr>"

text \<open>\<^verbatim>\<open>main\<close>; the result is how it ended and what was open then.\<close>

definition router_main ::
  "'d crypto \<Rightarrow> pem_files \<Rightarrow> 'u host \<Rightarrow> string \<Rightarrow> string \<Rightarrow> bytes \<Rightarrow> 'u given \<Rightarrow> 'u given \<Rightarrow> unix_fs
   \<Rightarrow> unit outcome \<times> 'u launch" where
  "router_main cr pem h pkg version uuid cli env f =
     (let stop = (\<lambda>r. (r, start_with (instance_new pkg version uuid default_config) f)) in
      case options_parse (ho_url h) cli env of
        Failed e \<Rightarrow> stop (Failed e)
      | Panicked e \<Rightarrow> stop (Panicked e)
      | Done o1 \<Rightarrow>
          (case add_config cr pem (op_cert o1) (op_key o1) (options_config o1) of
             Failed e \<Rightarrow> stop (Failed e)
           | Panicked e \<Rightarrow> stop (Panicked e)
           | Done config \<Rightarrow>
               let st = start_with (instance_new pkg version uuid config) f in
               case (case op_gsb_url o1 of
                       Some u \<Rightarrow> Inr u
                     | None \<Rightarrow> default_gsb_url (ho_url h) (ho_xdg h) (ho_project_dir h)) of
                 Inl panic \<Rightarrow> (Panicked panic, st)
               | Inr u \<Rightarrow> run_router h (Some u) (op_web_addr o1) st))"

section \<open>Accepting connections\<close>

text \<open>
  What becomes of an accepted socket: the label of the connection that is created for it. \<open>peer\<close> is
  the answer of \<^verbatim>\<open>peer_addr\<close>, \<open>handshake\<close> that of the TLS acceptor built from the configuration.
\<close>

definition accept_tcp :: "string + string \<Rightarrow> string outcome" where
  "accept_tcp peer = (case peer of Inl e \<Rightarrow> Failed e | Inr addr \<Rightarrow> Done addr)"

definition accept_tls ::
  "tls_server_config option \<Rightarrow> (tls_server_config \<Rightarrow> string + unit) \<Rightarrow> string + string \<Rightarrow> string outcome" where
  "accept_tls config handshake peer =
     (case config of
        None \<Rightarrow> Panicked ''called `Option::unwrap()` on a `None` value''
      | Some c \<Rightarrow>
          (case peer of
             Inl e \<Rightarrow> Failed e
           | Inr addr \<Rightarrow> (case handshake c of Inl e \<Rightarrow> Failed e | Inr _ \<Rightarrow> Done addr)))"

text \<open>
  A Unix listener numbers its workers and, within a worker, the connections. \<open>workers\<close> lists the
  workers that were started, each with its number and its counter.
\<close>

record uds_server =
  worker_counter :: u64
  workers :: "(u64 \<times> u64) list"

definition uds_new :: uds_server where
  "uds_new = \<lparr>worker_counter = 1, workers = []\<rparr>"

definition start_worker :: "uds_server \<Rightarrow> uds_server" where
  "start_worker s = \<lparr>worker_counter = worker_counter s + 1, workers = workers s @ [(worker_counter s, 0)]\<rparr>"

text \<open>The \<open>i\<close>th worker gets a socket: the worker's number and the connection's.\<close>

definition accept_uds :: "nat \<Rightarrow> uds_server \<Rightarrow> (u64 \<times> u64) option \<times> uds_server" where
  "accept_uds i s =
     (if i < length (workers s)
      then let (worker_id, n) = workers s ! i; connection_id = n + 1
           in (Some (worker_id, connection_id), s\<lparr>workers := (workers s)[i := (worker_id, connection_id)]\<rparr>)
      else (None, s))"

text \<open>\<^verbatim>\<open>W{:02}C{:04}\<close>\<close>

definition zero_padded :: "nat \<Rightarrow> nat \<Rightarrow> string" where
  "zero_padded width n = replicate (width - length (show_nat n)) (CHR ''0'') @ show_nat n"

definition show_conn_info :: "u64 \<times> u64 \<Rightarrow> string" where
  "show_conn_info c = ''W'' @ zero_padded 2 (unat (fst c)) @ ''C'' @ zero_padded 4 (unat (snd c))"

datatype uds_event = StartWorker | AcceptOn nat

fun uds_run :: "uds_event list \<Rightarrow> uds_server \<Rightarrow> (u64 \<times> u64) list" where
  "uds_run [] s = []"
| "uds_run (StartWorker # evs) s = uds_run evs (start_worker s)"
| "uds_run (AcceptOn i # evs) s =
     (case accept_uds i s of
        (Some c, s1) \<Rightarrow> c # uds_run evs s1
      | (None, s1) \<Rightarrow> uds_run evs s1)"

section \<open>Facts\<close>

text \<open>The label can be read back.\<close>

definition digits_value :: "string \<Rightarrow> nat" where
  "digits_value s = foldl (\<lambda>n c. 10 * n + (of_char c - 48)) 0 s"

lemma show_nat_digits: "set (show_nat n) \<subseteq> {c. (48 :: nat) \<le> of_char c \<and> of_char c < (58 :: nat)}"
proof (induction n rule: show_nat.induct)
  case (1 n)
  then show ?case by (subst show_nat.simps) auto
qed

lemma show_nat_value: "foldl (\<lambda>n c. 10 * n + (of_char c - 48)) 0 (show_nat n) = n"
proof (induction n rule: show_nat.induct)
  case (1 n)
  then show ?case by (subst show_nat.simps) auto
qed

lemma zero_padded_value [simp]: "digits_value (zero_padded k n) = n"
proof -
  have zeros: "foldl (\<lambda>n c. 10 * n + (of_char c - 48)) 0 (replicate m (CHR ''0'')) = (0 :: nat)" for m
    by (induction m) simp_all
  show ?thesis by (simp add: digits_value_def zero_padded_def zeros show_nat_value)
qed

lemma zero_padded_no_letter: "CHR ''C'' \<notin> set (zero_padded k n)"
  using show_nat_digits [of n] by (auto simp: zero_padded_def)

lemma show_conn_info_inj: "show_conn_info c = show_conn_info d \<Longrightarrow> c = d"
proof -
  assume "show_conn_info c = show_conn_info d"
  then have "zero_padded 2 (unat (fst c)) @ ''C'' @ zero_padded 4 (unat (snd c)) =
      zero_padded 2 (unat (fst d)) @ ''C'' @ zero_padded 4 (unat (snd d))"
    by (simp add: show_conn_info_def)
  then have "zero_padded 2 (unat (fst c)) = zero_padded 2 (unat (fst d))"
    "zero_padded 4 (unat (snd c)) = zero_padded 4 (unat (snd d))"
    by (simp_all add: append_Cons_eq_iff zero_padded_no_letter)
  then have "unat (fst c) = unat (fst d)" "unat (snd c) = unat (snd d)"
    by (metis zero_padded_value)+
  then show ?thesis by (simp add: prod_eq_iff word_unat_eq_iff)
qed

text \<open>The numbers that a server has not given out yet: those of workers still to come, and those above
  the counter of a worker.\<close>

definition uds_fresh :: "uds_server \<Rightarrow> u64 \<times> u64 \<Rightarrow> bool" where
  "uds_fresh s c \<longleftrightarrow> worker_counter s \<le> fst c \<or> (\<exists>n. (fst c, n) \<in> set (workers s) \<and> n < snd c)"

definition uds_ok :: "nat \<Rightarrow> uds_server \<Rightarrow> bool" where
  "uds_ok left s \<longleftrightarrow> unat (worker_counter s) + left < 2 ^ 64 \<and> distinct (map fst (workers s))
     \<and> (\<forall>(w, n) \<in> set (workers s). w < worker_counter s \<and> unat n + left < 2 ^ 64)"

lemma u64_suc: "unat (n :: u64) + 1 < 2 ^ 64 \<Longrightarrow> unat (n + 1) = unat n + 1"
  by (simp add: unat_word_ariths)

lemma start_worker_ok:
  assumes "uds_ok (Suc left) s"
  shows "uds_ok left (start_worker s)" and "uds_fresh (start_worker s) c \<Longrightarrow> uds_fresh s c"
proof -
  have wc: "unat (worker_counter s + 1) = unat (worker_counter s) + 1"
    using assms by (intro u64_suc) (simp add: uds_ok_def)
  show "uds_ok left (start_worker s)"
    using assms wc by (auto simp: uds_ok_def start_worker_def word_less_nat_alt)
  show "uds_fresh (start_worker s) c \<Longrightarrow> uds_fresh s c"
    using wc by (auto simp: uds_fresh_def start_worker_def word_le_nat_alt)
qed

lemma accept_uds_ok:
  assumes ok: "uds_ok (Suc left) s" and acc: "accept_uds i s = (Some c, s1)"
  shows "uds_ok left s1" and "uds_fresh s c" and "uds_fresh s1 d \<Longrightarrow> uds_fresh s d \<and> d \<noteq> c"
proof -
  obtain w n where i: "i < length (workers s)" "workers s ! i = (w, n)" and c: "c = (w, n + 1)"
    and s1: "s1 = s\<lparr>workers := (workers s)[i := (w, n + 1)]\<rparr>"
    using acc by (auto simp: accept_uds_def Let_def split: if_splits prod.splits)
  have mem: "(w, n) \<in> set (workers s)" using i nth_mem by metis
  then have bounds: "w < worker_counter s" "unat n + Suc left < 2 ^ 64"
    using ok by (auto simp: uds_ok_def)
  then have n1: "unat (n + 1) = unat n + 1" by (intro u64_suc) simp
  have ids: "map fst (workers s1) = map fst (workers s)"
    using i by (simp add: s1 map_update list_update_same_conv)
  have sub: "x = (w, n + 1) \<or> x \<in> set (workers s)" if "x \<in> set (workers s1)" for x
    using that set_update_subset_insert [of "workers s" i "(w, n + 1)"] by (auto simp: s1)
  have new: "(w, n + 1) \<in> set (workers s1)" using i by (simp add: s1 set_update_memI)
  have "fst x < worker_counter s \<and> unat (snd x) + left < 2 ^ 64" if "x \<in> set (workers s1)" for x
    using sub [OF that] ok bounds n1 by (auto simp: uds_ok_def)
  then show "uds_ok left s1"
    using ok ids by (auto simp: uds_ok_def s1)
  show "uds_fresh s c" using mem n1 by (auto simp: uds_fresh_def c word_less_nat_alt)
  assume "uds_fresh s1 d"
  show "uds_fresh s d \<and> d \<noteq> c"
  proof (cases "fst d = w")
    case True
    have "(w, m) \<in> set (workers s1) \<Longrightarrow> m = n + 1" for m
      using eq_key_imp_eq_value [OF _ _ new] ok ids by (auto simp: uds_ok_def)
    then have "n + 1 < snd d" using \<open>uds_fresh s1 d\<close> True bounds by (auto simp: uds_fresh_def s1)
    with True mem n1 show ?thesis by (cases d) (auto simp: uds_fresh_def c word_less_nat_alt)
  next
    case False
    then have "(fst d, m) \<in> set (workers s1) \<Longrightarrow> (fst d, m) \<in> set (workers s)" for m
      using sub [of "(fst d, m)"] by auto
    with False \<open>uds_fresh s1 d\<close> show ?thesis by (auto simp: uds_fresh_def c s1)
  qed
qed

lemma uds_run_fresh:
  "uds_ok (length evs) s \<Longrightarrow> distinct (uds_run evs s) \<and> (\<forall>c \<in> set (uds_run evs s). uds_fresh s c)"
proof (induction evs s rule: uds_run.induct)
  case (2 evs s)
  then show ?case using start_worker_ok [of "length evs" s] by auto
next
  case (3 i evs s)
  obtain r s1 where r: "accept_uds i s = (r, s1)" by (metis surj_pair)
  show ?case
  proof (cases r)
    case None
    with r have "s1 = s" by (auto simp: accept_uds_def Let_def split: if_splits prod.splits)
    moreover have "uds_ok (length evs) s" using 3(3) by (fastforce simp: uds_ok_def)
    ultimately show ?thesis using 3 r None by simp
  next
    case (Some c)
    have ok: "uds_ok (Suc (length evs)) s" using 3(3) by simp
    note acc = accept_uds_ok [OF ok r [unfolded Some]]
    have "distinct (uds_run evs s1) \<and> (\<forall>d \<in> set (uds_run evs s1). uds_fresh s1 d)"
      using 3(2) [OF r [symmetric] Some acc(1)] .
    then show ?thesis using acc(2,3) r Some by fastforce
  qed
qed simp

section \<open>Properties\<close>

text \<open>
  C34. The labels of the connections that a Unix listener accepts tell them apart: as long as there are
  fewer than two to the power of 64, less one, events, no two accepted connections have the same label
  \<^verbatim>\<open>W..C....\<close>, in whatever order workers are started and sockets are handed to them, and also when the
  numbers outgrow the width they are padded to.
\<close>

theorem connection_labels_distinct:
  assumes "length evs < 2 ^ 64 - 1"
  shows "distinct (map show_conn_info (uds_run evs uds_new))"
proof -
  have "uds_ok (length evs) uds_new" using assms by (simp add: uds_ok_def uds_new_def)
  then show ?thesis
    using uds_run_fresh show_conn_info_inj by (auto simp: distinct_map inj_on_def)
qed

theorem connection_labels_distinct_witness:
  "distinct (map show_conn_info (uds_run [StartWorker, AcceptOn 0, StartWorker, AcceptOn 1, AcceptOn 0] uds_new))
   \<and> uds_run [StartWorker, AcceptOn 0, StartWorker, AcceptOn 1, AcceptOn 0] uds_new = [(1, 1), (2, 1), (1, 2)]"
  using connection_labels_distinct [of "[StartWorker, AcceptOn 0, StartWorker, AcceptOn 1, AcceptOn 0]"]
  by (simp add: uds_new_def start_worker_def accept_uds_def)

text \<open>What \<^verbatim>\<open>run_router\<close> opens: the listener that belongs to an address under a configuration.\<close>

definition listener_for :: "gsb_addr \<Rightarrow> router_config \<Rightarrow> listener" where
  "listener_for addr config =
     (case addr of
        Tcp a \<Rightarrow> if tls config = None then TcpListener a else TlsListener a (tls config)
      | Unix path \<Rightarrow> UnixListener path)"

lemma save_router_fields [simp]:
  "la_listeners (save_router st) = la_listeners st" "la_web (save_router st) = la_web st"
  "ic_router (la_instance (save_router st))" "ic_config (la_instance (save_router st)) = ic_config (la_instance st)"
  by (simp_all add: save_router_def create_router_and_save_def)

lemma open_listener_fields [simp]:
  "la_listeners (open_listener l st) = la_listeners st @ [l]" "la_web (open_listener l st) = la_web st"
  "la_instance (open_listener l st) = la_instance st"
  by (simp_all add: open_listener_def)

lemmas bind_defs = bind_url_def bind_tcp_def bind_tls_def bind_unix_def

lemma bind_url_done:
  assumes "bind_url h gsb_url st = (Done (), st1)"
  shows "\<exists>addr. addr_from_url (ho_url h) (generated_endpoint h) (ho_gsb_url_var h) gsb_url = Inr addr
     \<and> la_listeners st1 = la_listeners st @ [listener_for addr (ic_config (la_instance st))]
     \<and> la_web st1 = la_web st \<and> ic_router (la_instance st1)"
proof -
  obtain addr where addr: "addr_from_url (ho_url h) (generated_endpoint h) (ho_gsb_url_var h) gsb_url = Inr addr"
    using assms by (cases "addr_from_url (ho_url h) (generated_endpoint h) (ho_gsb_url_var h) gsb_url") (auto simp: bind_url_def)
  show ?thesis
    using assms addr
    by (cases addr)
       (auto simp: bind_defs listener_for_def Let_def split: option.splits sum.splits prod.splits if_splits)
qed

lemma bind_url_failed:
  assumes "fst (bind_url h gsb_url st) \<noteq> Done ()"
  shows "la_listeners (snd (bind_url h gsb_url st)) = la_listeners st \<and> la_web (snd (bind_url h gsb_url st)) = la_web st"
  using assms
  by (auto simp: bind_defs Let_def split: option.splits sum.splits prod.splits if_splits gsb_addr.splits)

lemma run_router_done:
  assumes "run_router h gsb_url web st = (Done (), st1)"
  shows "\<exists>addr. addr_from_url (ho_url h) (generated_endpoint h) (ho_gsb_url_var h) gsb_url = Inr addr
     \<and> la_listeners st1 = la_listeners st @ [listener_for addr (ic_config (la_instance st))]
     \<and> la_web st1 = la_web st @ (case web of None \<Rightarrow> [] | Some w \<Rightarrow> [w])"
proof -
  obtain r st2 where b: "bind_url h gsb_url st = (r, st2)" by (metis surj_pair)
  with assms have "r = Done ()" by (cases r) (auto simp: run_router_def)
  with bind_url_done [of h gsb_url st st2] b assms show ?thesis
    by (auto simp: run_router_def run_rest_api_def split: option.splits if_splits)
qed

lemma router_main_done:
  assumes "router_main cr pem h pkg version uuid cli env f = (Done (), st)"
  shows "\<exists>o1 config u. options_parse (ho_url h) cli env = Done o1
     \<and> add_config cr pem (op_cert o1) (op_key o1) (options_config o1) = Done config
     \<and> (case op_gsb_url o1 of Some u \<Rightarrow> Inr u | None \<Rightarrow> default_gsb_url (ho_url h) (ho_xdg h) (ho_project_dir h)) = Inr u
     \<and> run_router h (Some u) (op_web_addr o1) (start_with (instance_new pkg version uuid config) f) = (Done (), st)"
  using assms by (auto simp: router_main_def Let_def split: outcome.splits sum.splits)

lemma parsed_url:
  assumes "options_parse ops cli env = Done o1" and "gv_gsb_url cli = None"
  shows "(case gv_gsb_url env of None \<Rightarrow> op_gsb_url o1 = None
     | Some v \<Rightarrow> (\<exists>u. url_parse ops v = Inr u \<and> op_gsb_url o1 = Some u))"
    and "op_cert o1 = first_given (gv_cert cli) (gv_cert env)" and "op_key o1 = first_given (gv_key cli) (gv_key env)"
  using assms by (auto simp: options_parse_def first_given_def split: option.splits sum.splits)

lemma env_url_addr:
  "url_parse ops v = Inr u \<Longrightarrow> addr_from_url ops g (Some v) None = addr_from_url ops g var (Some u)"
  by (simp add: addr_from_url_def requested_url_def env_url_def)

text \<open>The path of the default socket, below the runtime directory or else the data directory.\<close>

definition default_socket :: "'u host \<Rightarrow> string" where
  "default_socket h = (case generated_endpoint h of GeneratedUnix ep \<Rightarrow> socket_path ep | GeneratedTcp addr \<Rightarrow> addr)"

lemma default_url_addr:
  assumes "unix_urls_ok (ho_url h)" and "normal_path (default_socket h)"
    and "default_gsb_url (ho_url h) (ho_xdg h) (ho_project_dir h) = Inr u"
  shows "addr_from_url (ho_url h) g var (Some u) = addr_from_url (ho_url h) (generated_endpoint h) None None"
  using default_url_leads_to_socket [OF assms(1), of _ u g var] assms(2,3)
  by (simp add: default_socket_def default_gsb_url_def generated_endpoint_def generated_default_def for_data_dir_def addr_from_url_def requested_url_def into_addr_def)

lemma run_router_failed:
  assumes "fst (run_router h gsb_url web st) \<noteq> Done ()"
  shows "la_listeners (snd (run_router h gsb_url web st)) = la_listeners st \<and> la_web (snd (run_router h gsb_url web st)) = la_web st"
proof -
  obtain r st2 where b: "bind_url h gsb_url st = (r, st2)" by (metis surj_pair)
  show ?thesis
  proof (cases r)
    case (Done x)
    with bind_url_done [of h gsb_url st st2] b assms show ?thesis
      by (auto simp: run_router_def run_rest_api_def split: option.splits)
  qed (use bind_url_failed [of h gsb_url st] b in \<open>simp_all add: run_router_def\<close>)
qed

lemma router_main_failed:
  assumes "fst (router_main cr pem h pkg version uuid cli env f) \<noteq> Done ()"
  shows "la_listeners (snd (router_main cr pem h pkg version uuid cli env f)) = []
     \<and> la_web (snd (router_main cr pem h pkg version uuid cli env f)) = []"
  using assms
  by (auto simp: router_main_def Let_def start_with_def run_router_failed split: outcome.splits sum.splits)

lemma add_config_tls:
  assumes "add_config cr pem cert key config = Done config'" and "tls config = None"
  shows "(tls config' = None \<longleftrightarrow> cert = None) \<and> (cert = None \<longleftrightarrow> key = None)"
  using assms
  by (auto simp: add_config_def load_certs_def load_keys_def split: option.splits sum.splits list.splits)

text \<open>
  C33. The executable and the clients meet. Started without \<^verbatim>\<open>-l\<close>, the executable either serves or has
  opened nothing. If it serves, it has opened exactly one listener, at the address where a client with
  the same environment connects by default: the one in \<^verbatim>\<open>GSB_URL\<close>, or else the default socket. On TCP
  it is a TLS listener exactly when a certificate was given, and a certificate without a key, or a key
  without a certificate, never gets that far. A server for the status pages is spawned exactly when an
  address for them was given; that the router they need was not saved yet cannot happen. The executable
  makes a URL of the default socket's path and reads it back: this is to work for paths that have nothing
  to normalise, and when no address is given the path of the default socket is to be such a one.
\<close>

theorem executable_listens_where_clients_connect:
  assumes urls: "unix_urls_ok (ho_url h)" and path: "ho_gsb_url_var h = None \<Longrightarrow> normal_path (default_socket h)"
    and env: "gv_gsb_url cli = None" "gv_gsb_url env = ho_gsb_url_var h"
  shows "let (r, st) = router_main cr pem h pkg version uuid cli env f;
             cert = first_given (gv_cert cli) (gv_cert env); key = first_given (gv_key cli) (gv_key env)
         in if r = Done ()
            then \<exists>addr o1 config. addr_default (ho_url h) (generated_endpoint h) (ho_gsb_url_var h) = Inr addr
              \<and> options_parse (ho_url h) cli env = Done o1
              \<and> add_config cr pem cert key (options_config o1) = Done config
              \<and> la_listeners st = [listener_for addr config]
              \<and> la_web st = (case op_web_addr o1 of None \<Rightarrow> [] | Some w \<Rightarrow> [w])
              \<and> (tls config = None \<longleftrightarrow> cert = None) \<and> (cert = None \<longleftrightarrow> key = None)
            else la_listeners st = [] \<and> la_web st = []"
proof -
  let ?main = "router_main cr pem h pkg version uuid cli env f"
  show ?thesis
  proof (cases "fst ?main = Done ()")
    case True
    then obtain st where main: "?main = (Done (), st)" by (metis prod.collapse)
    obtain o1 config u where o1: "options_parse (ho_url h) cli env = Done o1"
      and config: "add_config cr pem (op_cert o1) (op_key o1) (options_config o1) = Done config"
      and u: "(case op_gsb_url o1 of Some u \<Rightarrow> Inr u | None \<Rightarrow> default_gsb_url (ho_url h) (ho_xdg h) (ho_project_dir h)) = Inr u"
      and run: "run_router h (Some u) (op_web_addr o1) (start_with (instance_new pkg version uuid config) f) = (Done (), st)"
      using router_main_done [OF main] by blast
    have addr: "addr_default (ho_url h) (generated_endpoint h) (ho_gsb_url_var h)
        = addr_from_url (ho_url h) (generated_endpoint h) (ho_gsb_url_var h) (Some u)"
      using parsed_url(1) [OF o1 env(1)] u default_url_addr [OF urls path] env_url_addr
      by (auto simp: addr_default_def env(2) split: option.splits)
    have "tls (options_config o1) = None" by (simp add: options_config_def default_config_def)
    with add_config_tls [OF config] main addr run_router_done [OF run] parsed_url(2,3) [OF o1 env(1)] o1 config
    show ?thesis by (simp add: Let_def start_with_def instance_new_def with_app_def)
  next
    case False
    with router_main_failed [of cr pem h pkg version uuid cli env f] show ?thesis
      by (simp add: Let_def split_beta)
  qed
qed

text \<open>A host without settings whose URLs are their own text, and nothing on the command line.\<close>

definition text_urls :: "string url_ops" where
  "text_urls = \<lparr>url_parse = Inr, url_scheme = takeWhile (\<lambda>c. c \<noteq> CHR '':''), url_host_str = (\<lambda>_. None),
     url_port = (\<lambda>_. None), url_to_file_path = (\<lambda>u. Some (drop 5 u)), url_from_file_path = Some, url_path = id\<rparr>"

definition plain_host :: "string host" where
  "plain_host = \<lparr>ho_url = text_urls, ho_gsb_url_var = None, ho_xdg = Some ''/run'', ho_project_dir = Some ''/data'',
     ho_ping_var = None, ho_bind = (\<lambda>_. None), ho_euid = 0, ho_fresh = new_socket, ho_others = (\<lambda>_. id), ho_others' = (\<lambda>_. id)\<rparr>"

definition nothing_given :: "string given" where
  "nothing_given = \<lparr>gv_gsb_url = None, gv_ping_interval = None, gv_ping_timeout = None, gv_forward_timeout = None,
     gv_gc_interval = None, gv_high_buffer_mark = None, gv_broadcast_backlog = None, gv_cert = None, gv_key = None,
     gv_web_addr = None\<rparr>"

lemma plain_host_binds:
  "fst (bind_unix_listener 0 new_socket (\<lambda>_. id) (\<lambda>_. id) ''/run/yagna/gsb.sock'' stale_socket) = Inr ()"
  by (simp add: bind_unix_listener_def prepare_for_bind_def listener_bind_def set_owner_only_permissions_def
      inspect_owned_socket_def set_permissions_def symlink_metadata_def fs_look_def system_error_def from_metadata_def
      si_matches_def stale_socket_def new_socket_def Let_def)

lemma plain_host_serves:
  "fst (router_main plain_crypto one_pem plain_host ''router'' ''1'' [1] nothing_given nothing_given stale_socket) = Done ()"
proof -
  have "options_parse text_urls nothing_given nothing_given = Done o1 \<Longrightarrow>
      op_gsb_url o1 = None \<and> op_cert o1 = None \<and> op_key o1 = None \<and> op_web_addr o1 = None" for o1
    by (auto simp: options_parse_def nothing_given_def first_given_def)
  moreover have "\<exists>o1. options_parse text_urls nothing_given nothing_given = Done o1"
    by (simp add: options_parse_def nothing_given_def first_given_def)
  moreover have "default_gsb_url text_urls (Some ''/run'') (Some ''/data'') = Inr ''unix:/run/yagna/gsb.sock''"
    by code_simp
  moreover have "addr_from_url text_urls g None (Some ''unix:/run/yagna/gsb.sock'') = Inr (Unix ''/run/yagna/gsb.sock'')" for g
    by (simp add: addr_from_url_def requested_url_def text_urls_def parse_unix_url_def)
  ultimately show ?thesis
    using plain_host_binds
    by (auto simp: router_main_def plain_host_def add_config_def run_router_def bind_url_def bind_unix_def start_with_def
        Let_def split_beta split: sum.splits prod.splits)
qed

theorem executable_listens_where_clients_connect_witness:
  "la_listeners (snd (router_main plain_crypto one_pem plain_host ''router'' ''1'' [1]
       (nothing_given\<lparr>gv_cert := Some ''c.pem''\<rparr>) nothing_given stale_socket)) = []
   \<and> la_listeners (snd (router_main plain_crypto one_pem plain_host ''router'' ''1'' [1] nothing_given nothing_given stale_socket))
       = [UnixListener ''/run/yagna/gsb.sock'']"
proof -
  have path: "normal_path (default_socket plain_host)" by code_simp
  have urls: "unix_urls_ok (ho_url plain_host)" by (simp add: unix_urls_ok_def plain_host_def text_urls_def)
  have addr: "addr_default (ho_url plain_host) (generated_endpoint plain_host) (ho_gsb_url_var plain_host) = Inr (Unix ''/run/yagna/gsb.sock'')"
    by code_simp
  have env: "gv_gsb_url nothing_given = None" "gv_gsb_url nothing_given = ho_gsb_url_var plain_host"
    by (simp_all add: nothing_given_def plain_host_def)
  have "la_listeners (snd (router_main plain_crypto one_pem plain_host ''router'' ''1'' [1] nothing_given nothing_given stale_socket))
       = [UnixListener ''/run/yagna/gsb.sock'']"
    using executable_listens_where_clients_connect [OF urls path env, of plain_crypto one_pem "''router''" "''1''" "[1]" stale_socket]
      plain_host_serves
    by (auto simp: Let_def split_beta addr listener_for_def)
  moreover have "la_listeners (snd (router_main plain_crypto one_pem plain_host ''router'' ''1'' [1]
       (nothing_given\<lparr>gv_cert := Some ''c.pem''\<rparr>) nothing_given stale_socket)) = []"
    using executable_listens_where_clients_connect [OF urls path _ env(2), of "nothing_given\<lparr>gv_cert := Some ''c.pem''\<rparr>"
      plain_crypto one_pem "''router''" "''1''" "[1]" stale_socket]
    by (auto simp: nothing_given_def first_given_def Let_def split_beta split: if_splits)
  ultimately show ?thesis by simp
qed

end
