(* ===== verification/Examples.thy ===== *)
theory Examples
  imports Routes Launch
begin

text \<open>
  The example programs \<^verbatim>\<open>crates/router/examples/echo_server.rs\<close>, \<^verbatim>\<open>echo_client.rs\<close> and \<^verbatim>\<open>broadcast.rs\<close>.
  They speak the protocol without the client library: a program is a function from the items it reads
  to the messages it sends and how it ended. The end of the list is the end of the stream. Delays are
  left out; the client's fresh identifiers are arguments.
\<close>

section \<open>Reading\<close>

text \<open>\<^verbatim>\<open>reader.next().await.unwrap().expect(..)\<close>\<close>

type_synonym items = "(protocol_error + gsb_message) list"

fun expect_item :: "string \<Rightarrow> items \<Rightarrow> (gsb_message \<times> items) outcome" where
  "expect_item what [] = Panicked ''called `Option::unwrap()` on a `None` value''"
| "expect_item what (Inl e # rest) = Panicked what"
| "expect_item what (Inr m # rest) = Done (m, rest)"

section \<open>Echo server\<close>

text \<open>The closure of \<^verbatim>\<open>filter_map\<close>.\<close>

definition echo_reply :: "protocol_error + gsb_message \<Rightarrow> gsb_message option" where
  "echo_reply item =
     (case item of
        Inr (CallRequest msg) \<Rightarrow> Some (CallReply \<lparr>crp_request_id = crq_request_id msg, crp_code = code_call CallReplyOk,
          crp_reply_type = code_reply_type Full, crp_data = crq_data msg\<rparr>)
      | Inr Ping \<Rightarrow> Some Pong
      | _ \<Rightarrow> None)"

definition registered_ok :: "gsb_message \<Rightarrow> bool" where
  "registered_ok m = (case m of RegisterReply r \<Rightarrow> rrp_code r = code_register RegisteredOk | Ping \<Rightarrow> True | _ \<Rightarrow> False)"

text \<open>What is sent, and how it ended; \<open>more\<close> puts messages in front.\<close>

definition more :: "gsb_message list \<Rightarrow> gsb_message list \<times> 'a outcome \<Rightarrow> gsb_message list \<times> 'a outcome" where
  "more ms r = (ms @ fst r, snd r)"

fun and_read :: "(gsb_message \<times> items) outcome \<Rightarrow> (gsb_message \<Rightarrow> items \<Rightarrow> gsb_message list \<times> 'a outcome)
   \<Rightarrow> gsb_message list \<times> 'a outcome" where
  "and_read (Done (m, rest)) f = f m rest"
| "and_read (Failed e) f = ([], Failed e)"
| "and_read (Panicked e) f = ([], Panicked e)"

definition echo_server_run :: "items \<Rightarrow> gsb_message list \<times> unit outcome" where
  "echo_server_run items =
     more [Hello \<lparr>hl_name = ''echo-server'', hl_version = ''0.0'', hl_instance_id = [1, 2, 3, 4]\<rparr>]
       (and_read (expect_item ''hello not received'' items) (\<lambda>m items1.
          case m of
            Hello h \<Rightarrow>
              more [RegisterRequest \<lparr>rrq_service_id = ''echo''\<rparr>]
                (and_read (expect_item ''Register reply not received'' items1) (\<lambda>m items2.
                   if \<not> registered_ok m then ([], Failed ''Unexpected message received'')
                   else more [RegisterRequest \<lparr>rrq_service_id = ''echo2''\<rparr>]
                     (and_read (expect_item ''Register reply not received'' items2) (\<lambda>m items3.
                        if \<not> registered_ok m then ([], Panicked ''Unexpected message received'')
                        else (List.map_filter echo_reply items3, Done ())))))
          | _ \<Rightarrow> ([], Failed ''Unexpected message received'')))"

section \<open>Echo client\<close>

text \<open>The requests; \<open>ids\<close> are the identifiers made for them.\<close>

definition echo_requests :: "string list \<Rightarrow> call_request list" where
  "echo_requests ids = map (\<lambda>(uuid, idx). \<lparr>crq_caller = [], crq_address = ''echo/test'',
     crq_request_id = uuid @ ''-'' @ show_nat idx, crq_data = replicate 200000 0, crq_no_reply = False\<rparr>)
       (zip ids [0..<length ids])"

text \<open>What is printed about one reply. Printing a wrong payload takes its first 20 bytes.\<close>

definition check_reply :: "call_request \<Rightarrow> gsb_message \<Rightarrow> string list outcome" where
  "check_reply request m =
     (case m of
        CallReply msg \<Rightarrow>
          let wrong_id = (if crp_request_id msg \<noteq> crq_request_id request then [''Wrong request_id''] else [])
          in if crp_data msg \<noteq> crq_data request
             then (if length (crp_data msg) < 20 then Panicked ''range end index 20 out of range''
                   else Done (wrong_id @ [''Wrong payload'']))
             else Done wrong_id
      | _ \<Rightarrow> Done [''Unexpected message received''])"

fun echo_recv :: "call_request list \<Rightarrow> items \<Rightarrow> string list outcome" where
  "echo_recv [] items = Done []"
| "echo_recv (r # rs) items =
     and_then (expect_item ''Reply not received'' items) (\<lambda>(m, rest).
       and_then (check_reply r m) (\<lambda>complaints.
         and_then (echo_recv rs rest) (\<lambda>later. Done (complaints @ later))))"

definition echo_client_run :: "bytes \<Rightarrow> string list \<Rightarrow> items \<Rightarrow> gsb_message list \<times> string list outcome" where
  "echo_client_run uuid ids items =
     more [Hello \<lparr>hl_name = ''echo-client'', hl_version = ''0.0'', hl_instance_id = uuid\<rparr>]
       (and_read (expect_item ''Reply not received'' items) (\<lambda>_ items1.
          let requests = echo_requests ids
          in (map CallRequest requests, echo_recv requests items1)))"

section \<open>Broadcast client\<close>

definition subscribed_ok :: "gsb_message \<Rightarrow> unit outcome" where
  "subscribed_ok m =
     (case m of
        SubscribeReply r \<Rightarrow> if srp_code r = code_subscribe SubscribedOk then Done () else Panicked ''Non-zero reply code''
      | Ping \<Rightarrow> Done ()
      | _ \<Rightarrow> Panicked ''Unexpected message received'')"

text \<open>The three loops that read until a message of a kind has come.\<close>

fun await_broadcast_reply :: "items \<Rightarrow> items outcome" where
  "await_broadcast_reply [] = Panicked ''called `Option::unwrap()` on a `None` value''"
| "await_broadcast_reply (Inr (BroadcastRequest _) # rest) = await_broadcast_reply rest"
| "await_broadcast_reply (Inr (BroadcastReply r) # rest) =
     (if brp_code r = code_broadcast BroadcastOk then Done rest else Panicked ''Non-zero reply code'')"
| "await_broadcast_reply (Inr Ping # rest) = await_broadcast_reply rest"
| "await_broadcast_reply (Inl _ # rest) = Panicked ''Reply not received''"
| "await_broadcast_reply (_ # rest) = Panicked ''Unexpected message received''"

fun await_own_broadcast :: "broadcast_request \<Rightarrow> items \<Rightarrow> items outcome" where
  "await_own_broadcast req [] = Panicked ''called `Option::unwrap()` on a `None` value''"
| "await_own_broadcast req (Inr (BroadcastRequest msg) # rest) =
     (if msg = req then Done rest else await_own_broadcast req rest)"
| "await_own_broadcast req (Inr Ping # rest) = await_own_broadcast req rest"
| "await_own_broadcast req (Inl _ # rest) = Panicked ''Broadcast message not received''"
| "await_own_broadcast req (_ # rest) = Panicked ''Unexpected message received''"

fun await_unsubscribe_reply :: "items \<Rightarrow> items outcome" where
  "await_unsubscribe_reply [] = Panicked ''called `Option::unwrap()` on a `None` value''"
| "await_unsubscribe_reply (Inr (UnsubscribeReply r) # rest) =
     (if usrp_code r = code_unsubscribe UnsubscribedOk then Done rest else Panicked ''Non-zero reply code'')"
| "await_unsubscribe_reply (Inr (BroadcastRequest _) # rest) = await_unsubscribe_reply rest"
| "await_unsubscribe_reply (Inr Ping # rest) = await_unsubscribe_reply rest"
| "await_unsubscribe_reply (Inl _ # rest) = Panicked ''Reply not received''"
| "await_unsubscribe_reply (_ # rest) = Panicked ''Unexpected message received''"

definition own_broadcast :: "nat \<Rightarrow> broadcast_request" where
  "own_broadcast payload_size = \<lparr>brq_caller = ''some_id'', brq_data = replicate payload_size 0, brq_topic = ''test''\<rparr>"

fun broadcast_rounds :: "nat \<Rightarrow> nat \<Rightarrow> items \<Rightarrow> gsb_message list \<times> items outcome" where
  "broadcast_rounds payload_size 0 items = ([], Done items)"
| "broadcast_rounds payload_size (Suc n) items =
     more [BroadcastRequest (own_broadcast payload_size)]
       (case and_then (await_broadcast_reply items) (await_own_broadcast (own_broadcast payload_size)) of
          Done rest \<Rightarrow> broadcast_rounds payload_size n rest
        | Failed e \<Rightarrow> ([], Failed e)
        | Panicked e \<Rightarrow> ([], Panicked e))"

text \<open>\<open>runs\<close> is the argument \<^verbatim>\<open>count\<close>, one if it is not given.\<close>

definition broadcast_client_run :: "bytes \<Rightarrow> nat \<Rightarrow> nat option \<Rightarrow> items \<Rightarrow> gsb_message list \<times> unit outcome" where
  "broadcast_client_run uuid payload_size runs items =
     more [Hello \<lparr>hl_name = ''broadcast-client'', hl_version = ''0.0'', hl_instance_id = uuid\<rparr>]
       (and_read (expect_item ''Reply not received'' items) (\<lambda>_ items1.
          more [SubscribeRequest \<lparr>srq_topic = ''test''\<rparr>]
            (and_read (expect_item ''Reply not received'' items1) (\<lambda>m items2.
               case subscribed_ok m of
                 Failed e \<Rightarrow> ([], Failed e)
               | Panicked e \<Rightarrow> ([], Panicked e)
               | Done _ \<Rightarrow>
                   (case broadcast_rounds payload_size (case runs of None \<Rightarrow> 1 | Some n \<Rightarrow> n) items2 of
                      (sent, Done items3) \<Rightarrow>
                        (sent @ [UnsubscribeRequest \<lparr>usrq_topic = ''test''\<rparr>],
                         and_then (await_unsubscribe_reply items3) (\<lambda>_. Done ()))
                    | (sent, Failed e) \<Rightarrow> (sent, Failed e)
                    | (sent, Panicked e) \<Rightarrow> (sent, Panicked e))))))"

text \<open>
  \<^verbatim>\<open>main\<close>: one client, whose error is unwrapped, or several at a time in one task, where errors are dropped
  and a panic ends the task. \<open>run i\<close> is how the \<open>i\<close>-th client ends.
\<close>

definition broadcast_main :: "nat option \<Rightarrow> (nat \<Rightarrow> unit outcome) \<Rightarrow> unit outcome" where
  "broadcast_main parallel run =
     (case parallel of
        Some n \<Rightarrow>
          (case find_map (\<lambda>i. case run i of Panicked e \<Rightarrow> Some e | _ \<Rightarrow> None) [0..<n] of
             Some e \<Rightarrow> Panicked e
           | None \<Rightarrow> Done ())
      | None \<Rightarrow>
          (case run 0 of
             Failed e \<Rightarrow> Panicked (''called `Result::unwrap()` on an `Err` value: '' @ e)
           | r \<Rightarrow> r))"

section \<open>The echo programs over the router\<close>

lemma echo_prefixes: "RevPrefixes ''echo/test'' = [''echo/test'', ''echo'']"
  by (simp add: RevPrefixes.simps rev_prefixes_next_def)

lemma echo_resolves:
  "owner r ''echo'' = Some b \<Longrightarrow> owner r ''echo/test'' = None \<Longrightarrow> resolve_node r ''echo/test'' = Some b"
  by (simp add: resolve_node_def pb_get_def echo_prefixes owner_def pb_content_def)

lemma echo_requests_fields:
  "r \<in> set (echo_requests ids) \<Longrightarrow> crq_address r = ''echo/test'' \<and> \<not> crq_no_reply r"
  by (auto simp: echo_requests_def)

lemma length_echo_requests [simp]: "length (echo_requests ids) = length ids"
  by (simp add: echo_requests_def)

text \<open>A hyphenated UUID has 36 characters, so the numbers behind them keep the identifiers apart.\<close>

lemma echo_request_ids:
  assumes "\<forall>u \<in> set ids. length u = 36"
  shows "distinct (map crq_request_id (echo_requests ids))"
proof -
  have same: "i = j" if "i < length ids" "j < length ids" "(ids ! i @ ''-'') @ show_nat i = (ids ! j @ ''-'') @ show_nat j" for i j
  proof -
    have "length (ids ! i) = length (ids ! j)" using assms that by (metis nth_mem)
    then have "show_nat i = show_nat j" using that(3) by simp
    then show "i = j" by (metis show_nat_value)
  qed
  have "map crq_request_id (echo_requests ids) = map (\<lambda>i. (ids ! i @ ''-'') @ show_nat i) [0..<length ids]"
    by (rule nth_equalityI) (simp_all add: echo_requests_def)
  then show ?thesis
    using same by (simp add: distinct_map inj_on_def)
qed

definition echoed :: "call_request \<Rightarrow> call_reply" where
  "echoed r = \<lparr>crp_request_id = crq_request_id r, crp_code = 0, crp_reply_type = 0, crp_data = crq_data r\<rparr>"

lemma echoed_fields [simp]: "crp_request_id (echoed r) = crq_request_id r" "get_reply_type (echoed r) = Full"
  by (simp_all add: echoed_def get_reply_type_def)

lemma echo_replies: "List.map_filter echo_reply (map (Inr \<circ> CallRequest) rs) = map (CallReply \<circ> echoed) rs"
proof -
  have "echo_reply (Inr (CallRequest r)) = Some (CallReply (echoed r))" for r
    by (simp add: echo_reply_def echoed_def)
  then show ?thesis by (induction rs) (simp_all add: map_filter_simps)
qed

lemma forward_requests:
  assumes "\<forall>r \<in> set rs. resolve_node (rt t) (crq_address r) = Some b \<and> \<not> crq_no_reply r"
  shows "effects (router_in x (map CallRequest rs) t) = effects t @ map (\<lambda>r. SendForward b r (address x)) rs
     \<and> (\<exists>n. act (router_in x (map CallRequest rs) t) = (act t)\<lparr>last_packet := n\<rparr>)
     \<and> rt (router_in x (map CallRequest rs) t) = rt t"
  using assms
proof (induction rs arbitrary: t)
  case Nil
  show ?case by (simp add: router_in_def) (metis connection.surjective connection.update_convs(10))
next
  case (Cons r rs)
  let ?t = "snd (handle_input x (Inr (CallRequest r)) t)"
  have t: "effects ?t = effects t @ [SendForward b r (address x)]" "act ?t = (act t)\<lparr>last_packet := now x\<rparr>" "rt ?t = rt t"
    using Cons.prems by (simp_all add: handle_input_def handle_message_def handle_call_request_def)
  then show ?case using Cons.IH [of ?t] Cons.prems by (auto simp: router_in_def)
qed

lemma posted_forwards:
  assumes "effects t' = effects t @ map (\<lambda>r. SendForward b r a) rs"
  shows "posted src b t t' = map (\<lambda>r. MForward r a) rs"
proof -
  have "concat (map (mail_of src \<circ> (\<lambda>r. SendForward b r a)) rs) = map (\<lambda>r. (b, MForward r a)) rs"
    by (induction rs) simp_all
  then show ?thesis by (simp add: posted_def assms filter_map comp_def)
qed

text \<open>The first messages of a client: its greeting, and the registration of a free name.\<close>

lemma hello_turn:
  assumes "instance_id (act t) = None"
  shows "act (router_in x [Hello h] t) = (act t)\<lparr>last_packet := now x, instance_id := Some (hl_instance_id h)\<rparr>"
    and "owner (rt (router_in x [Hello h] t)) = owner (rt t)"
proof -
  obtain old r where new: "new_connection (hl_instance_id h) (address x) (rt t) = (old, r)" by (metis surj_pair)
  moreover have "owner (snd (new_connection (hl_instance_id h) (address x) (rt t))) = owner (rt t)" by simp
  ultimately show "act (router_in x [Hello h] t) = (act t)\<lparr>last_packet := now x, instance_id := Some (hl_instance_id h)\<rparr>"
    "owner (rt (router_in x [Hello h] t)) = owner (rt t)"
    using assms by (cases old; simp add: router_in_def handle_input_def handle_message_def handle_hello_def Let_def)+
qed

lemma register_turn:
  fixes x :: "nat ctx"
  assumes "writable (act t)" and "owner (rt t) name = None"
  defines "t1 \<equiv> router_in x [RegisterRequest \<lparr>rrq_service_id = name\<rparr>] t"
  shows "queued (act t1) = queued (act t) @ [RegisterReply default_register_reply]"
    and "owner (rt t1) = (owner (rt t))(name \<mapsto> address x)" and "hold_queue (act t1) = hold_queue (act t)"
    and "writable (act t1)" and "cn_config (act t1) = cn_config (act t)"
  using assms(1,2) register_service_effect [of name "address x" "rt t"]
  by (auto simp: t1_def router_in_def handle_input_def handle_message_def handle_register_request_def send_reply_def Let_def
      split_beta split: option.splits)

lemma router_in_echoes:
  assumes "\<not> sender_closed x a" and "distinct (map crq_request_id rs)"
    and "\<forall>r \<in> set rs. hm_get (reply_map (act t)) (crq_request_id r) = Some a"
  shows "effects (router_in x (map (CallReply \<circ> echoed) rs) t) = effects t @ map (SendResponse a \<circ> echoed) rs"
  using assms(2,3)
proof (induction rs arbitrary: t)
  case (Cons r rs)
  let ?t = "snd (handle_input x (Inr (CallReply (echoed r))) t)"
  have t: "effects ?t = effects t @ [SendResponse a (echoed r)]"
    "\<And>k. k \<noteq> crq_request_id r \<Longrightarrow> hm_get (reply_map (act ?t)) k = hm_get (reply_map (act t)) k"
    using Cons.prems assms(1)
    by (auto simp: handle_input_def handle_message_def handle_call_reply_def Let_def split_beta)
  have "\<forall>r' \<in> set rs. hm_get (reply_map (act ?t)) (crq_request_id r') = Some a"
    using Cons.prems t(2) by (auto simp: image_iff)
  with Cons.IH [of ?t] Cons.prems t(1) show ?case by (simp add: router_in_def)
qed (simp add: router_in_def)

lemma echo_recv_done: "echo_recv rs (map (Inr \<circ> CallReply \<circ> echoed) rs) = Done []"
  by (induction rs) (simp_all add: check_reply_def echoed_def Let_def)

section \<open>Properties\<close>

definition echo_server_opening :: "gsb_message list" where
  "echo_server_opening = [Hello \<lparr>hl_name = ''echo-server'', hl_version = ''0.0'', hl_instance_id = [1, 2, 3, 4]\<rparr>,
     RegisterRequest \<lparr>rrq_service_id = ''echo''\<rparr>, RegisterRequest \<lparr>rrq_service_id = ''echo2''\<rparr>]"

definition echo_client_opening :: "bytes \<Rightarrow> gsb_message list" where
  "echo_client_opening uuid = [Hello \<lparr>hl_name = ''echo-client'', hl_version = ''0.0'', hl_instance_id = uuid\<rparr>]"

text \<open>
  Both programs over two connections \<open>tb\<close> and \<open>ta\<close> of one router: the server starts and registers, the
  client starts, its requests go to the server's connection one by one, the server's answers back to the
  client's. The result has what the server sent and how it ended, and the same for the client.
\<close>

definition echo_session where
  "echo_session xa out_a xb out_b uuid ids ta tb =
     (let tb1 = router_in xb echo_server_opening (input_started tb);
          ta1 = router_in xa (echo_client_opening uuid) (input_started (ta\<lparr>rt := rt tb1\<rparr>));
          requests = drop 1 (fst (echo_client_run uuid ids (map Inr (queued (act ta1)))));
          ta2 = router_in xa requests ta1;
          (asked, tb2) = hops out_b xb (posted (address xa) (address xb) ta1 ta2) (tb1\<lparr>rt := rt ta2\<rparr>);
          server = echo_server_run (map Inr (queued (act tb1) @ asked));
          tb3 = router_in xb (drop 3 (fst server)) tb2;
          (answers, ta3) = hop_in out_a xa (posted (address xb) (address xa) tb2 tb3) (ta2\<lparr>rt := rt tb3\<rparr>)
      in (server, echo_client_run uuid ids (map Inr (queued (act ta1) @ answers))))"

lemma greeted:
  assumes "takes_messages x ops t" and "queued (act t) = []" and "instance_id (act t) = None"
  shows "queued (act (router_in x [Hello h] (input_started t))) = [Hello (ic_hello (cn_config (act t)))]"
    and "owner (rt (router_in x [Hello h] (input_started t))) = owner (rt t)"
    and "takes_messages x ops (router_in x [Hello h] (input_started t))"
proof -
  have "instance_id (act (input_started t)) = None" using assms(3) by (simp add: input_started_def)
  from hello_turn [OF this, of x h] assms(1,2)
  show "queued (act (router_in x [Hello h] (input_started t))) = [Hello (ic_hello (cn_config (act t)))]"
    and "owner (rt (router_in x [Hello h] (input_started t))) = owner (rt t)"
    and "takes_messages x ops (router_in x [Hello h] (input_started t))"
    by (auto simp: input_started_def takes_messages_def)
qed

lemma echo_server_starts:
  assumes "takes_messages x ops t" and "queued (act t) = []" and "instance_id (act t) = None"
    and "owner (rt t) ''echo'' = None" and "owner (rt t) ''echo2'' = None"
  defines "t1 \<equiv> router_in x echo_server_opening (input_started t)"
  shows "queued (act t1) = [Hello (ic_hello (cn_config (act t))), RegisterReply default_register_reply, RegisterReply default_register_reply]"
    and "owner (rt t1) = (owner (rt t))(''echo'' \<mapsto> address x, ''echo2'' \<mapsto> address x)"
    and "takes_messages x ops t1"
proof -
  let ?h = "\<lparr>hl_name = ''echo-server'', hl_version = ''0.0'', hl_instance_id = [1, 2, 3, 4]\<rparr>"
  let ?a = "router_in x [Hello ?h] (input_started t)"
  let ?b = "router_in x [RegisterRequest \<lparr>rrq_service_id = ''echo''\<rparr>] ?a"
  note a = greeted [OF assms(1-3), of ?h]
  have wr: "writable (act ?a)" using a(3) by (simp add: takes_messages_def)
  note b = register_turn [of ?a "''echo''" x, OF wr]
  note c = register_turn [of ?b "''echo2''" x]
  have t1: "t1 = router_in x [RegisterRequest \<lparr>rrq_service_id = ''echo2''\<rparr>] ?b"
    by (simp add: t1_def echo_server_opening_def router_in_def)
  show "queued (act t1) = [Hello (ic_hello (cn_config (act t))), RegisterReply default_register_reply, RegisterReply default_register_reply]"
    and "owner (rt t1) = (owner (rt t))(''echo'' \<mapsto> address x, ''echo2'' \<mapsto> address x)"
    and "takes_messages x ops t1"
    unfolding t1 using a b c assms(4,5) by (simp_all add: takes_messages_def)
qed

text \<open>What the two programs do when they are given what they wait for.\<close>

lemma echo_programs:
  "echo_server_run (map Inr ([Hello h, RegisterReply default_register_reply, RegisterReply default_register_reply] @ map CallRequest rs))
     = (echo_server_opening @ map (CallReply \<circ> echoed) rs, Done ())"
  "echo_client_run uuid ids (map Inr (Hello h # map (CallReply \<circ> echoed) (echo_requests ids)))
     = (echo_client_opening uuid @ map CallRequest (echo_requests ids), Done [])"
  "drop 1 (fst (echo_client_run uuid ids [Inr (Hello h)])) = map CallRequest (echo_requests ids)"
  using echo_replies [of rs] echo_recv_done [of "echo_requests ids"]
  by (simp_all add: echo_server_run_def echo_client_run_def echo_server_opening_def echo_client_opening_def more_def
      registered_ok_def default_register_reply_def comp_def Let_def)

text \<open>
  C37. The echo example works over the router. Let the router have two new connections and the names
  \<^verbatim>\<open>echo\<close>, \<^verbatim>\<open>echo2\<close> and \<^verbatim>\<open>echo/test\<close> free. The server says hello and registers, the client says hello and
  sends its requests, to \<^verbatim>\<open>echo/test\<close>. The transports work and the high marks of the buffers are at least
  two. However many requests there are, even if most of them have to be held back, every request reaches the server once and in order, the server ends well having
  answered each of them, and the client, which reads the replies in the order of its requests, finds
  nothing to complain about.
\<close>

theorem echo_example_works:
  assumes names: "owner (rt tb) ''echo'' = None" "owner (rt tb) ''echo2'' = None" "owner (rt tb) ''echo/test'' = None"
    and ids: "\<forall>u \<in> set ids. length u = 36" and alive: "\<not> sender_closed xb (address xa)"
    and new_a: "takes_messages xa out_a ta" "queued (act ta) = []" "instance_id (act ta) = None"
    and new_b: "takes_messages xb out_b tb" "queued (act tb) = []" "instance_id (act tb) = None"
  shows "echo_session xa out_a xb out_b uuid ids ta tb =
    ((echo_server_opening @ map (CallReply \<circ> echoed) (echo_requests ids), Done ()),
     (echo_client_opening uuid @ map CallRequest (echo_requests ids), Done []))"
proof -
  let ?rs = "echo_requests ids"
  let ?tb1 = "router_in xb echo_server_opening (input_started tb)"
  note b1 = echo_server_starts [OF new_b names(1,2)]
  let ?ta1 = "router_in xa (echo_client_opening uuid) (input_started (ta\<lparr>rt := rt ?tb1\<rparr>))"
  have a1: "queued (act ?ta1) = [Hello (ic_hello (cn_config (act ta)))]" "owner (rt ?ta1) = owner (rt ?tb1)" "takes_messages xa out_a ?ta1"
    using greeted [of xa out_a "ta\<lparr>rt := rt ?tb1\<rparr>"] new_a by (simp_all add: takes_messages_def echo_client_opening_def)
  let ?ta2 = "router_in xa (map CallRequest ?rs) ?ta1"
  have "resolve_node (rt ?ta1) ''echo/test'' = Some (address xb)"
    using a1(2) b1(2) names(3) by (intro echo_resolves) simp_all
  then have "\<forall>r \<in> set ?rs. resolve_node (rt ?ta1) (crq_address r) = Some (address xb) \<and> \<not> crq_no_reply r"
    using echo_requests_fields by fastforce
  note fwd = forward_requests [OF this, of xa]
  have posted1: "posted (address xa) (address xb) ?ta1 ?ta2 = map (\<lambda>r. MForward r (address xa)) ?rs"
    by (rule posted_forwards) (use fwd in simp)
  have a2: "takes_messages xa out_a ?ta2" using a1(3) fwd by (auto simp: takes_messages_def)
  obtain asked tb2 where b2: "hops out_b xb (map (\<lambda>r. MForward r (address xa)) ?rs) (?tb1\<lparr>rt := rt ?ta2\<rparr>) = (asked, tb2)"
    by (metis surj_pair)
  have "takes_messages xb out_b (?tb1\<lparr>rt := rt ?ta2\<rparr>)" using b1(3) by (simp add: takes_messages_def)
  from hops_forwards [OF this, of ?rs "address xa"] echo_requests_fields b2
  have asked: "asked = map CallRequest ?rs"
    "\<forall>r \<in> set ?rs. hm_get (reply_map (act tb2)) (crq_request_id r) = Some (address xa)"
    by auto
  let ?tb3 = "router_in xb (map (CallReply \<circ> echoed) ?rs) tb2"
  have "effects ?tb3 = effects tb2 @ map (SendResponse (address xa)) (map echoed ?rs)"
    using router_in_echoes [OF alive echo_request_ids [OF ids] asked(2)] by simp
  then have posted2: "posted (address xb) (address xa) tb2 ?tb3 = map (MResponse (address xb)) (map echoed ?rs)"
    by (rule posted_responses)
  have "takes_messages xa out_a (?ta2\<lparr>rt := rt ?tb3\<rparr>)" using a2 by (simp add: takes_messages_def)
  from hop_responses [OF this, of "address xb" "map echoed ?rs"]
  have "fst (hop_in out_a xa (map (MResponse (address xb)) (map echoed ?rs)) (?ta2\<lparr>rt := rt ?tb3\<rparr>)) = map (CallReply \<circ> echoed) ?rs"
    by (simp add: comp_def)
  then obtain ta3 where a3: "hop_in out_a xa (map (MResponse (address xb)) (map echoed ?rs)) (?ta2\<lparr>rt := rt ?tb3\<rparr>)
      = (map (CallReply \<circ> echoed) ?rs, ta3)"
    by (metis fst_conv surj_pair)
  have rest: "drop 3 (echo_server_opening @ ms) = ms" for ms by (simp add: echo_server_opening_def)
  have items: "map Inr (queued (act ?ta1)) = [Inr (Hello (ic_hello (cn_config (act ta))))]"
    "map Inr (queued (act ?ta1) @ map (CallReply \<circ> echoed) ?rs) = map Inr (Hello (ic_hello (cn_config (act ta))) # map (CallReply \<circ> echoed) ?rs)"
    by (simp_all add: a1(1))
  show ?thesis
    unfolding echo_session_def Let_def items(1) echo_programs(3) posted1 b2 prod.case asked(1) b1(1) echo_programs(1)
      fst_conv rest posted2 a3 items(2) echo_programs(2) ..
qed

lemma tight_turn_new [simp]: "instance_id (act tight_turn) = None" "topic_map (act tight_turn) = []"
  by (simp_all add: tight_turn_def sample_turn_def connection_new_def)

theorem echo_example_works_witness:
  "echo_session sample_ctx ready_sink (sample_ctx\<lparr>address := 2\<rparr>) ready_sink [7] [replicate 36 (CHR ''a''), replicate 36 (CHR ''b'')]
       tight_turn tight_turn =
    ((echo_server_opening @ map (CallReply \<circ> echoed) (echo_requests [replicate 36 (CHR ''a''), replicate 36 (CHR ''b'')]), Done ()),
     (echo_client_opening [7] @ map CallRequest (echo_requests [replicate 36 (CHR ''a''), replicate 36 (CHR ''b'')]), Done []))"
proof (rule echo_example_works)
  show "owner (rt tight_turn) ''echo'' = None" "owner (rt tight_turn) ''echo2'' = None" "owner (rt tight_turn) ''echo/test'' = None"
    by simp_all
  show "takes_messages sample_ctx ready_sink tight_turn" "takes_messages (sample_ctx\<lparr>address := 2\<rparr>) ready_sink tight_turn"
    by (simp_all add: takes_messages_def sample_ctx_def)
qed (simp_all add: sample_ctx_def)

text \<open>
  The router's side of a broadcast client, whose connection spawns a stream on the channel of the topic:
  what is published on that channel comes round as the stream's next item. The result is what the
  client reads.
\<close>

definition spawned_channel :: "(nat, 's) turn \<Rightarrow> (nat, 's) turn \<Rightarrow> nat option" where
  "spawned_channel t t' = find_map (\<lambda>e. case e of SpawnTopic _ ch \<Rightarrow> Some ch | _ \<Rightarrow> None) (drop (length (effects t)) (effects t'))"

definition published_on :: "nat option \<Rightarrow> (nat, 's) turn \<Rightarrow> (nat, 's) turn \<Rightarrow> broadcast_request list" where
  "published_on ch t t' =
     List.map_filter (\<lambda>e. case e of Publish c req \<Rightarrow> if Some c = ch then Some req else None | _ \<Rightarrow> None)
       (drop (length (effects t)) (effects t'))"

fun broadcast_turns where
  "broadcast_turns out_ops x ch req 0 t = ([], t)"
| "broadcast_turns out_ops x ch req (Suc n) t =
     (let t1 = router_in x [BroadcastRequest req] t;
          (news, t2) = hop out_ops x (map News (published_on ch t t1)) t1;
          (later, t3) = broadcast_turns out_ops x ch req n t2
      in (queued (act t1) @ news @ later, t3))"

definition broadcast_session where
  "broadcast_session out_ops x uuid payload_size n t =
     (let t0 = router_in x [Hello \<lparr>hl_name = ''broadcast-client'', hl_version = ''0.0'', hl_instance_id = uuid\<rparr>] (input_started t);
          t1 = router_in x [SubscribeRequest \<lparr>srq_topic = ''test''\<rparr>] t0;
          (seen, t2) = broadcast_turns out_ops x (spawned_channel t0 t1) (own_broadcast payload_size) n t1;
          t3 = router_in x [UnsubscribeRequest \<lparr>usrq_topic = ''test''\<rparr>] t2
      in seen @ queued (act t3))"

lemma broadcast_turn:
  assumes "takes_messages x ops t" and "find_topic (rt t) (brq_topic req) = Some ch"
  defines "t1 \<equiv> router_in x [BroadcastRequest req] t"
  shows "queued (act t1) = queued (act t) @ [BroadcastReply default_broadcast_reply]" and "published_on (Some ch) t t1 = [req]"
    and "takes_messages x ops t1" and "rt t1 = rt t" and "topic_map (act t1) = topic_map (act t)"
  using assms
  by (auto simp: takes_messages_def router_in_def handle_input_def handle_message_def handle_broadcast_request_def published_on_def
      send_reply_def emit_def map_filter_simps)

lemma broadcast_turns_seen:
  assumes "takes_messages x ops t" and "find_topic (rt t) (brq_topic req) = Some ch"
  shows "fst (broadcast_turns ops x (Some ch) req n t) @ queued (act (snd (broadcast_turns ops x (Some ch) req n t))) =
       queued (act t) @ concat (replicate n [BroadcastReply default_broadcast_reply, BroadcastRequest req])
     \<and> takes_messages x ops (snd (broadcast_turns ops x (Some ch) req n t))
     \<and> topic_map (act (snd (broadcast_turns ops x (Some ch) req n t))) = topic_map (act t)"
  using assms
proof (induction n arbitrary: t)
  case (Suc n)
  let ?t1 = "router_in x [BroadcastRequest req] t"
  note t1 = broadcast_turn [OF Suc.prems]
  obtain news t2 where t2: "hop ops x [News req] ?t1 = (news, t2)" by (metis surj_pair)
  have "news = [BroadcastRequest req]" "takes_messages x ops t2" "queued (act t2) = []" "rt t2 = rt t"
    "topic_map (act t2) = topic_map (act t)"
    using hop_news [OF t1(3), of req] t2 t1(4,5) by simp_all
  with Suc.IH [of t2] Suc.prems(2) t1(1,2) t2 show ?case by (simp add: Let_def split_beta)
qed simp

lemma broadcast_rounds_done:
  "broadcast_rounds payload_size n (map Inr (concat (replicate n [BroadcastReply default_broadcast_reply, BroadcastRequest (own_broadcast payload_size)]) @ rest)) =
     (replicate n (BroadcastRequest (own_broadcast payload_size)), Done (map Inr rest))"
  by (induction n) (simp_all add: more_def default_broadcast_reply_def)

text \<open>
  The broadcast example works over the router: for any number of rounds, and any buffer of its connection
  with a high mark of at least two, a client that goes through its program reads exactly what it waits for (its reply before
  its own broadcast, since the router answers before the topic's channel comes round), so none of its
  assertions fails and it ends by itself, having sent the broadcasts it was asked for.
\<close>

lemma broadcast_example_works:
  assumes "takes_messages x ops t" and "queued (act t) = []" and "instance_id (act t) = None" and "topic_map (act t) = []"
  shows "broadcast_client_run uuid payload_size (Some n) (map Inr (broadcast_session ops x uuid payload_size n t)) =
      ([Hello \<lparr>hl_name = ''broadcast-client'', hl_version = ''0.0'', hl_instance_id = uuid\<rparr>, SubscribeRequest \<lparr>srq_topic = ''test''\<rparr>]
       @ replicate n (BroadcastRequest (own_broadcast payload_size)) @ [UnsubscribeRequest \<lparr>usrq_topic = ''test''\<rparr>], Done ())"
proof -
  let ?req = "own_broadcast payload_size" and ?greet = "Hello (ic_hello (cn_config (act t)))"
  let ?hello = "\<lparr>hl_name = ''broadcast-client'', hl_version = ''0.0'', hl_instance_id = uuid\<rparr>"
  let ?t0 = "router_in x [Hello ?hello] (input_started t)"
  let ?t1 = "router_in x [SubscribeRequest \<lparr>srq_topic = ''test''\<rparr>] ?t0"
  let ?ch = "fst (subscribe_topic (fresh_channel x) ''test'' (rt ?t0))"
  note t0 = greeted [OF assms(1-3), of ?hello]
  have "topic_map (act ?t0) = []"
    using hello_turn(1) [of "input_started t" x ?hello] assms(3,4) by (simp add: input_started_def)
  then have t1: "queued (act ?t1) = [?greet, SubscribeReply default_subscribe_reply]" "takes_messages x ops ?t1"
    "hm_get (topic_map (act ?t1)) ''test'' = Some (fresh_handle x)" "find_topic (rt ?t1) (brq_topic ?req) = Some ?ch"
    "spawned_channel ?t0 ?t1 = Some ?ch"
    using t0 subscribe_topic_effect(2) [of "fresh_channel x" "''test''" "rt ?t0"]
    by (simp_all add: router_in_def [of x "[SubscribeRequest _]"] takes_messages_def handle_input_def handle_message_def
        handle_subscribe_request_def send_reply_def emit_def own_broadcast_def spawned_channel_def find_topic_def Let_def split_beta hm_get_def)
  obtain seen t2 where t2: "broadcast_turns ops x (Some ?ch) ?req n ?t1 = (seen, t2)" by (metis surj_pair)
  then have rounds: "seen @ queued (act t2) = [?greet, SubscribeReply default_subscribe_reply]
       @ concat (replicate n [BroadcastReply default_broadcast_reply, BroadcastRequest ?req])" "takes_messages x ops t2"
    "hm_get (topic_map (act t2)) ''test'' = Some (fresh_handle x)"
    using broadcast_turns_seen [OF t1(2,4), of n] t1(1,3) by simp_all
  have "queued (act (router_in x [UnsubscribeRequest \<lparr>usrq_topic = ''test''\<rparr>] t2)) =
      queued (act t2) @ [UnsubscribeReply default_unsubscribe_reply]"
    using rounds(2,3)
    by (simp add: takes_messages_def router_in_def handle_input_def handle_message_def handle_unsubscribe_request_def split_beta
        split: option.splits)
  then have "broadcast_session ops x uuid payload_size n t = [?greet, SubscribeReply default_subscribe_reply]
      @ concat (replicate n [BroadcastReply default_broadcast_reply, BroadcastRequest ?req]) @ [UnsubscribeReply default_unsubscribe_reply]"
    using rounds(1) by (simp add: broadcast_session_def t1(5) t2 flip: append_assoc)
  then show ?thesis
    using broadcast_rounds_done [of payload_size n "[UnsubscribeReply default_unsubscribe_reply]"]
    by (simp add: broadcast_client_run_def more_def subscribed_ok_def default_subscribe_reply_def default_unsubscribe_reply_def)
qed

lemma broadcast_example_works_example:
  "snd (broadcast_client_run [7] 10 (Some 6) (map Inr (broadcast_session ready_sink sample_ctx [7] 10 6 tight_turn))) = Done ()"
proof -
  have "takes_messages sample_ctx ready_sink tight_turn" by (simp add: takes_messages_def sample_ctx_def)
  then show ?thesis using broadcast_example_works [of sample_ctx ready_sink tight_turn "[7]" 10 6] by simp
qed

text \<open>The example program as a whole, with any number of clients, each on a connection of its own.\<close>

lemma broadcast_main_done:
  assumes "\<And>i. takes_messages (x i) ops (t i)" and "\<And>i. queued (act (t i)) = []"
    and "\<And>i. instance_id (act (t i)) = None" and "\<And>i. topic_map (act (t i)) = []"
  shows "broadcast_main parallel (\<lambda>i. snd (broadcast_client_run (uuid i) payload_size (Some n)
     (map Inr (broadcast_session ops (x i) (uuid i) payload_size n (t i))))) = Done ()"
proof -
  have "snd (broadcast_client_run (uuid i) payload_size (Some n)
      (map Inr (broadcast_session ops (x i) (uuid i) payload_size n (t i)))) = Done ()" for i
    by (subst broadcast_example_works) (simp_all add: assms)
  moreover have "find_map (\<lambda>_. None :: string option) xs = None" for xs :: "nat list" by (simp add: find_map_None)
  ultimately show ?thesis by (simp add: broadcast_main_def split: option.splits)
qed

end
