(* ===== verification/Futures.thy ===== *)
theory Futures
  imports Local_Router Config
begin

text \<open>
  The two small adapters for futures: \<^verbatim>\<open>Flatten\<close> of \<^verbatim>\<open>crates/util/src/futures.rs\<close>, which the endpoints of
  the local router use to turn a failed mailbox into an error of the bus, and \<^verbatim>\<open>timeout\<close> of
  \<^verbatim>\<open>src/timeout.rs\<close> with its conversions of numbers to durations.

  A future is a state with a function that polls it: \<open>None\<close> is \<^verbatim>\<open>Poll::Pending\<close>.
\<close>

section \<open>Polling\<close>

type_synonym ('f, 'a) poll_fun = "'f \<Rightarrow> 'a option \<times> 'f"

text \<open>A future polled at most \<open>n\<close> times: what it was ready with, and after how many polls.\<close>

fun await_within :: "('f, 'a) poll_fun \<Rightarrow> nat \<Rightarrow> 'f \<Rightarrow> ('a \<times> nat) option" where
  "await_within poll 0 f = None"
| "await_within poll (Suc n) f =
     (case poll f of
        (Some v, _) \<Rightarrow> Some (v, 0)
      | (None, f1) \<Rightarrow> map_option (map_prod id Suc) (await_within poll n f1))"

section \<open>Flatten\<close>

definition flatten_poll :: "('e \<Rightarrow> 'g) \<Rightarrow> ('f, 'e + ('g + 'a)) poll_fun \<Rightarrow> ('f, 'g + 'a) poll_fun" where
  "flatten_poll from_error try_poll inner =
     (case try_poll inner of
        (Some (Inr v), inner1) \<Rightarrow> (Some v, inner1)
      | (Some (Inl e), inner1) \<Rightarrow> (Some (Inl (from_error e)), inner1)
      | (None, inner1) \<Rightarrow> (None, inner1))"

section \<open>Durations\<close>

text \<open>\<^verbatim>\<open>u64\<close>, and the macro for the other unsigned and for the signed widths.\<close>

definition into_duration_u64 :: "u64 \<Rightarrow> duration" where
  "into_duration_u64 secs = from_secs (unat secs)"

definition into_duration_unsigned :: "'w::len word \<Rightarrow> duration" where
  "into_duration_unsigned w = (if w > 0 then into_duration_u64 (ucast w) else Nanos 0)"

definition into_duration_signed :: "'w::len word \<Rightarrow> duration" where
  "into_duration_signed w = (if 0 <s w then into_duration_u64 (scast w) else Nanos 0)"

text \<open>
  A floating-point number of either width: a finite one is \<open>m * 2 ^ e\<close>. The conversion of the standard
  library rounds to the nearest nanosecond, ties to the even one, and panics (\<open>Inl\<close>) on a negative
  number, on a number of seconds that does not fit 64 bits, and on what is not a number.
\<close>

datatype float = Finite int int | Infinite bool | NaN

definition round_half_even :: "int \<Rightarrow> int \<Rightarrow> int" where
  "round_half_even n d =
     (let q = n div d; r = n mod d in if d < 2 * r \<or> (d = 2 * r \<and> odd q) then q + 1 else q)"

definition scaled :: "int \<Rightarrow> int \<Rightarrow> int \<Rightarrow> int" where
  "scaled k m e = (if 0 \<le> e then k * m * 2 ^ nat e else round_half_even (k * m) (2 ^ nat (- e)))"

definition secs_fit :: "int \<Rightarrow> int \<Rightarrow> bool" where
  "secs_fit m e = (if 0 \<le> e then m * 2 ^ nat e < 2 ^ 64 else m < 2 ^ 64 * 2 ^ nat (- e))"

definition from_secs_float :: "float \<Rightarrow> string + duration" where
  "from_secs_float f =
     (let refuse = (\<lambda>why. Inl (''cannot convert float seconds to Duration: value is '' @ why))
      in case f of
           NaN \<Rightarrow> refuse ''either too big or NaN''
         | Infinite negative \<Rightarrow> refuse (if negative then ''negative'' else ''either too big or NaN'')
         | Finite m e \<Rightarrow>
             if m < 0 then refuse ''negative''
             else if \<not> secs_fit m e then refuse ''either too big or NaN''
             else Inr (Nanos (nat (scaled 1000000000 m e))))"

definition into_duration_f32 :: "float \<Rightarrow> string + duration" where
  "into_duration_f32 = from_secs_float"

definition into_duration_f64 :: "float \<Rightarrow> string + duration" where
  "into_duration_f64 = from_secs_float"

section \<open>Timeouts\<close>

text \<open>\<^verbatim>\<open>Either<Timeout<Self>, MapType<Self>>\<close>; \<open>tokio_timeout\<close> wraps a future, and what polling the wrapped
  one does is tokio's, the argument \<open>timeout_poll\<close>.\<close>

datatype elapsed = Elapsed

datatype ('g, 'f) timed = LeftTimeout 'g | RightMap 'f

definition with_timeout :: "(duration \<Rightarrow> 'f \<Rightarrow> 'g) \<Rightarrow> ('d \<Rightarrow> duration) \<Rightarrow> 'd option \<Rightarrow> 'f \<Rightarrow> ('g, 'f) timed" where
  "with_timeout tokio_timeout into_duration duration f =
     (case duration of
        Some d \<Rightarrow> LeftTimeout (tokio_timeout (into_duration d) f)
      | None \<Rightarrow> RightMap f)"

definition timed_poll :: "('g, elapsed + 'a) poll_fun \<Rightarrow> ('f, 'a) poll_fun \<Rightarrow> (('g, 'f) timed, elapsed + 'a) poll_fun" where
  "timed_poll timeout_poll poll t =
     (case t of
        LeftTimeout g \<Rightarrow> map_prod id LeftTimeout (timeout_poll g)
      | RightMap f \<Rightarrow> map_prod (map_option Inr) RightMap (poll f))"

section \<open>Properties\<close>

lemma await_map:
  assumes "\<And>f. poll' (h f) = (map_option g (fst (poll f)), h (snd (poll f)))"
  shows "await_within poll' n (h f) = map_option (map_prod g id) (await_within poll n f)"
proof (induction n arbitrary: f)
  case (Suc n)
  obtain r f1 where p: "poll f = (r, f1)" by (metis surj_pair)
  have "poll' (h f) = (map_option g r, h f1)" using assms [of f] p by simp
  then show ?case
  proof (cases r)
    case None
    with p assms [of f] Suc [of f1] show ?thesis by (cases "await_within poll n f1") auto
  qed (use p assms [of f] in simp)
qed simp

text \<open>Flattening takes as many polls as the future inside, and ends as \<open>flatten_answer\<close> says.\<close>

lemma flatten_is_flatten_answer:
  "await_within (flatten_poll (from_addr addr) try_poll) n f =
     map_option (map_prod (flatten_answer addr) id) (await_within try_poll n f)"
  using await_map [of "flatten_poll (from_addr addr) try_poll" id "flatten_answer addr" try_poll n f]
  by (auto simp: flatten_poll_def flatten_answer_def split: prod.splits option.splits sum.splits)

text \<open>Without a limit a future is as it was: it is ready when it was, and never elapsed.\<close>

lemma no_timeout_no_limit:
  "await_within (timed_poll timeout_poll poll) n (with_timeout tokio_timeout into_duration None f) =
     map_option (map_prod Inr id) (await_within poll n f)"
  using await_map [of "timed_poll timeout_poll poll" RightMap Inr poll n f]
  by (simp add: with_timeout_def timed_poll_def prod_eq_iff)

lemma with_limit:
  "with_timeout tokio_timeout into_duration (Some d) f = LeftTimeout (tokio_timeout (into_duration d) f)"
  by (simp add: with_timeout_def)

text \<open>
  C20. A number of seconds means the same whatever its width: for every unsigned and every signed
  type of at most 64 bits, a positive number is that many seconds, exact to the nanosecond, with nothing
  cut off and no sign lost by the detour through 64 bits, and a number that is not positive is no time at
  all.
\<close>

theorem durations_are_exact:
  assumes "LENGTH('w::len) \<le> 64"
  shows "nanos (into_duration_unsigned (w :: 'w word)) = unat w * 1000000000
     \<and> nanos (into_duration_signed w) = (if 0 < sint w then nat (sint w) * 1000000000 else 0)"
proof -
  have "unat w < 2 ^ LENGTH('w)" by (rule unsigned_less)
  also have "\<dots> \<le> (2 :: nat) ^ 64" using assms by (intro power_increasing) simp_all
  finally have "unat (ucast w :: u64) = unat w"
    by (simp add: unsigned_ucast_eq take_bit_nat_eq_self_iff)
  moreover have "unat (scast w :: u64) = nat (sint w)" if "0 < sint w"
  proof -
    have "sint w < 2 ^ (LENGTH('w) - 1)" using sint_lt [of w] by simp
    also have "\<dots> \<le> (2 :: int) ^ 64" using assms by (intro power_increasing) simp_all
    finally have "take_bit 64 (sint w) = sint w" using that by (simp add: take_bit_int_eq_self_iff)
    then have "uint (word_of_int (sint w) :: u64) = sint w" by (subst uint_word_of_int_eq) simp
    then have "uint (scast w :: u64) = sint w" by (subst scast_eq)
    then show ?thesis by (simp add: unat_eq_nat_uint)
  qed
  moreover have "(0 <s w) = (0 < sint w)" by (simp add: word_sless_alt)
  ultimately show ?thesis
    by (auto simp: into_duration_unsigned_def into_duration_signed_def into_duration_u64_def from_secs_def word_less_nat_alt)
qed

theorem durations_are_exact_witness:
  "nanos (into_duration_signed (- 5 :: 8 word)) = 0 \<and> nanos (into_duration_unsigned (200 :: 8 word)) = 200000000000
   \<and> nanos (into_duration_signed (120 :: 8 word)) = 120000000000"
  using durations_are_exact [of "- 5 :: 8 word"] durations_are_exact [of "200 :: 8 word"] durations_are_exact [of "120 :: 8 word"]
  by simp

text \<open>
  A floating-point duration is off by at most half a nanosecond, a whole number of seconds is exact,
  and it is refused exactly when it is negative, infinite, not a number or at least \<open>2 ^ 64\<close> seconds.
\<close>

lemma round_half_even_close:
  assumes "0 < d"
  shows "2 * \<bar>round_half_even n d * d - n\<bar> \<le> d"
proof -
  have n: "n = n div d * d + n mod d" by simp
  have "round_half_even n d * d - n = (if round_half_even n d = n div d then - (n mod d) else d - n mod d)"
    using n by (auto simp: round_half_even_def Let_def algebra_simps)
  moreover have "round_half_even n d = n div d \<longrightarrow> 2 * (n mod d) \<le> d" "round_half_even n d \<noteq> n div d \<longrightarrow> d \<le> 2 * (n mod d)"
    by (auto simp: round_half_even_def Let_def)
  ultimately show ?thesis
    using pos_mod_bound [OF assms, of n] pos_mod_sign [OF assms, of n] by auto
qed

lemma float_duration_rounds:
  "from_secs_float (Finite m e) = Inr d \<Longrightarrow> e < 0 \<Longrightarrow> 2 * \<bar>int (nanos d) * 2 ^ nat (- e) - 1000000000 * m\<bar> \<le> 2 ^ nat (- e)"
  "from_secs_float (Finite m e) = Inr d \<Longrightarrow> 0 \<le> e \<Longrightarrow> d = from_secs (nat (m * 2 ^ nat e))"
proof -
  assume d: "from_secs_float (Finite m e) = Inr d"
  then have "0 \<le> m" by (auto simp: from_secs_float_def Let_def split: if_splits)
  then have "0 \<le> scaled 1000000000 m e" by (auto simp: scaled_def round_half_even_def Let_def pos_imp_zdiv_nonneg_iff)
  with d have n: "int (nanos d) = scaled 1000000000 m e" by (auto simp: from_secs_float_def Let_def split: if_splits)
  show "2 * \<bar>int (nanos d) * 2 ^ nat (- e) - 1000000000 * m\<bar> \<le> 2 ^ nat (- e)" if "e < 0"
    using round_half_even_close [of "2 ^ nat (- e)" "1000000000 * m"] that by (simp add: n scaled_def)
  show "d = from_secs (nat (m * 2 ^ nat e))" if "0 \<le> e"
    using d that \<open>0 \<le> m\<close>
    by (auto simp: from_secs_float_def Let_def scaled_def from_secs_def nat_mult_distrib algebra_simps split: if_splits)
qed

lemma float_duration_refused:
  "(\<exists>d. from_secs_float f = Inr d) \<longleftrightarrow> (\<exists>m e. f = Finite m e \<and> 0 \<le> m \<and> secs_fit m e)"
  by (cases f) (auto simp: from_secs_float_def Let_def)

lemma float_duration_example:
  "into_duration_f64 (Finite 3 (- 1)) = Inr (Nanos 1500000000) \<and> into_duration_f32 (Finite 1 (- 40)) = Inr (Nanos 0)
   \<and> into_duration_f64 (Finite (- 1) 0) = Inl ''cannot convert float seconds to Duration: value is negative''"
  by (simp add: into_duration_f64_def into_duration_f32_def from_secs_float_def secs_fit_def scaled_def
      round_half_even_def Let_def)

end
