(* ===== verification/Portability.thy ===== *)
theory Portability
  imports Launch Call_Handler
begin

text \<open>
  The branches of the sources for systems without Unix sockets (\<^verbatim>\<open>#[cfg(not(unix))]\<close>): the default
  address in \<^verbatim>\<open>crates/proto/src/lib.rs\<close>, the binding of a router in \<^verbatim>\<open>crates/router/src/router.rs\<close>, and
  the two ways to connect to one, in \<^verbatim>\<open>crates/router/src/lib.rs\<close> and \<^verbatim>\<open>src/connection.rs\<close>. Everything else
  is the same for all systems. The names end in \<open>_other\<close>.
\<close>

section \<open>Addresses\<close>

definition for_data_dir_other :: "string \<Rightarrow> bool \<Rightarrow> generated_gsb_endpoint" where
  "for_data_dir_other data_dir is_default_data_dir = GeneratedTcp (''127.0.0.1:'' @ show_nat default_gsb_port)"

definition generated_default_other :: generated_gsb_endpoint where
  "generated_default_other = GeneratedTcp (''127.0.0.1:'' @ show_nat default_gsb_port)"

definition parse_unix_url_other :: "'u \<Rightarrow> string + string" where
  "parse_unix_url_other url = Inl ''Unix sockets not supported on this OS''"

definition addr_from_url_other :: "'u url_ops \<Rightarrow> string option \<Rightarrow> 'u option \<Rightarrow> string + gsb_addr" where
  "addr_from_url_other ops gsb_url_var gsb_url =
     (case requested_url ops gsb_url_var gsb_url of
        Inl panic \<Rightarrow> Inl panic
      | Inr None \<Rightarrow> Inr (into_addr generated_default_other)
      | Inr (Some u) \<Rightarrow>
          if url_scheme ops u = ''tcp'' then map_sum id Tcp (parse_tcp_url ops u)
          else if url_scheme ops u = ''unix'' then map_sum id Unix (parse_unix_url_other u)
          else Inl (''unimplemented protocol for GSB URL: '' @ url_scheme ops u))"

section \<open>Binding and connecting\<close>

text \<open>TCP is bound without a look at the configuration of TLS.\<close>

definition bind_url_other :: "'u host \<Rightarrow> 'u option \<Rightarrow> 'u launch \<Rightarrow> unit outcome \<times> 'u launch" where
  "bind_url_other h gsb_url st =
     (case addr_from_url_other (ho_url h) (ho_gsb_url_var h) gsb_url of
        Inl panic \<Rightarrow> (Panicked panic, st)
      | Inr (Tcp addr) \<Rightarrow> bind_tcp h addr st
      | Inr (Unix _) \<Rightarrow> (Panicked ''Unix sockets not supported on this OS'', st))"

definition router_connect_other :: "(string \<Rightarrow> string + 's) \<Rightarrow> gsb_addr \<Rightarrow> 's outcome" where
  "router_connect_other open_tcp addr =
     (case addr of
        Tcp a \<Rightarrow> tcp_connect open_tcp a
      | Unix _ \<Rightarrow> Panicked ''Unix sockets not supported on this OS'')"

text \<open>The transport is the framed TCP socket itself; an error of the socket is returned.\<close>

definition open_transport_other ::
  "(string \<Rightarrow> io_error_kind + 's) \<Rightarrow> gsb_addr \<Rightarrow> (io_error_kind + 's framed) outcome" where
  "open_transport_other connect_tcp addr =
     (case addr of
        Tcp a \<Rightarrow> Done (tcp_transport connect_tcp a)
      | Unix _ \<Rightarrow> Panicked ''Unix sockets not supported on this OS'')"

section \<open>Facts\<close>

lemma map_sum_Inr: "map_sum f g s = Inr y \<longleftrightarrow> (\<exists>x. s = Inr x \<and> y = g x)"
  by (cases s) auto

lemma addr_other_is_tcp: "addr_from_url_other ops var url = Inr addr \<Longrightarrow> \<exists>a. addr = Tcp a"
  by (auto simp: addr_from_url_other_def generated_default_other_def into_addr_def parse_unix_url_other_def
      map_sum_Inr split: sum.splits option.splits if_splits)

text \<open>Where both kinds of system accept a request, they agree on its address.\<close>

lemma addr_other_agrees:
  assumes "requested_url ops var url = Inr (Some u)" and "url_scheme ops u \<noteq> ''unix''"
  shows "addr_from_url_other ops var url = addr_from_url ops generated var url"
  using assms by (simp add: addr_from_url_other_def addr_from_url_def)

text \<open>
  Without Unix sockets no selected address is a Unix socket, so that neither binding nor connecting to
  a selected address ends in the panic they have for one; without a request the address is the
  loopback address with the default port, for the router and its clients alike.
\<close>

lemma other_system_stays_on_tcp:
  assumes "addr_from_url_other (ho_url h) (ho_gsb_url_var h) url = Inr addr"
  shows "\<exists>a. addr = Tcp a
     \<and> bind_url_other h url st = bind_tcp h a st
     \<and> router_connect_other open_tcp addr = tcp_connect open_tcp a
     \<and> open_transport_other connect addr = Done (tcp_transport connect a)
     \<and> (ho_gsb_url_var h = None \<and> url = None \<longrightarrow> a = ''127.0.0.1:7464'')"
proof -
  obtain a where a: "addr = Tcp a" using addr_other_is_tcp [OF assms] by blast
  have "into_addr generated_default_other = Tcp ''127.0.0.1:7464''"
    by (simp add: generated_default_other_def into_addr_def default_gsb_port_def show_nat.simps char_of_def bit_0)
  then have "a = ''127.0.0.1:7464''" if "ho_gsb_url_var h = None" "url = None"
    using assms that a by (simp add: addr_from_url_other_def requested_url_def)
  moreover have "bind_url_other h url st = bind_tcp h a st"
    using assms a by (simp add: bind_url_other_def)
  ultimately show ?thesis
    by (intro exI [of _ a]) (simp add: a router_connect_other_def open_transport_other_def)
qed

section \<open>Properties\<close>

text \<open>
  C40. A router without Unix sockets ignores its TLS configuration. With a certificate configured, the
  same request for a TCP address that gives a TLS listener on a Unix system gives a listener in plain
  text on a system without Unix sockets, where the configuration is not consulted; both report success.
\<close>

theorem other_system_ignores_tls:
  assumes "requested_url (ho_url h) (ho_gsb_url_var h) url = Inr (Some u)" and "url_scheme (ho_url h) u = ''tcp''"
    and "parse_tcp_url (ho_url h) u = Inr a" and "ho_bind h a = None"
    and "tls (ic_config (la_instance st)) = Some config"
  shows "fst (bind_url h url st) = Done () \<and> fst (bind_url_other h url st) = Done ()
     \<and> la_listeners (snd (bind_url h url st)) = la_listeners st @ [TlsListener a (Some config)]
     \<and> la_listeners (snd (bind_url_other h url st)) = la_listeners st @ [TcpListener a]"
proof -
  have "addr_from_url (ho_url h) g (ho_gsb_url_var h) url = Inr (Tcp a)"
    "addr_from_url_other (ho_url h) (ho_gsb_url_var h) url = Inr (Tcp a)" for g
    using assms(1-3) by (simp_all add: addr_from_url_def addr_from_url_other_def)
  then show ?thesis
    using assms(4,5) by (simp add: bind_url_def bind_url_other_def bind_tls_def bind_tcp_def Let_def)
qed

definition certified_launch :: "string launch" where
  "certified_launch = start_with (instance_new ''router'' ''1'' [1] (default_config\<lparr>tls := Some ([[1]], [2])\<rparr>)) stale_socket"

definition loopback_host :: "string host" where
  "loopback_host = plain_host\<lparr>ho_url := text_urls\<lparr>url_host_str := (\<lambda>_. Some ''127.0.0.1''), url_port := (\<lambda>_. Some 1)\<rparr>\<rparr>"

theorem other_system_ignores_tls_witness:
  "la_listeners (snd (bind_url loopback_host (Some ''tcp://127.0.0.1:1'') certified_launch))
       = [TlsListener ''127.0.0.1:1'' (Some ([[1]], [2]))]
   \<and> la_listeners (snd (bind_url_other loopback_host (Some ''tcp://127.0.0.1:1'') certified_launch))
       = [TcpListener ''127.0.0.1:1'']"
proof -
  have "requested_url (ho_url loopback_host) (ho_gsb_url_var loopback_host) (Some ''tcp://127.0.0.1:1'') = Inr (Some ''tcp://127.0.0.1:1'')"
    by (simp add: requested_url_def)
  moreover have "url_scheme (ho_url loopback_host) ''tcp://127.0.0.1:1'' = ''tcp''"
    "parse_tcp_url (ho_url loopback_host) ''tcp://127.0.0.1:1'' = Inr ''127.0.0.1:1''" "ho_bind loopback_host ''127.0.0.1:1'' = None"
    by (simp_all add: loopback_host_def plain_host_def text_urls_def parse_tcp_url_def show_nat.simps char_of_def bit_0)
  moreover have "tls (ic_config (la_instance certified_launch)) = Some ([[1]], [2])" "la_listeners certified_launch = []"
    by (simp_all add: certified_launch_def start_with_def instance_new_def with_app_def)
  ultimately show ?thesis
    using other_system_ignores_tls [of loopback_host "Some ''tcp://127.0.0.1:1''" "''tcp://127.0.0.1:1''" "''127.0.0.1:1''"
        certified_launch "([[1]], [2])"] by simp
qed

end
