(* ===== verification/Unit_Tests.thy ===== *)
theory Unit_Tests
  imports Portability
begin

text \<open>
  The tests that the sources carry (\<^verbatim>\<open>#[cfg(test)] mod tests\<close> and \<^verbatim>\<open>tests/test_streaming.rs\<close>), run on the
  model: one truth value per test function, named after it, which says that the test passes, and one
  lemma that it does. What a test takes from outside the repository (a URL, a compressed stream, a
  fresh directory or UUID) is an argument, with what the test relies on as hypothesis of its lemma.

  The helper \<^verbatim>\<open>zlib_bomb\<close> of the tests of \<^verbatim>\<open>serialization.rs\<close> packs bits by hand in 32-bit words; its
  layout, bit for bit, is the subject of the section on it.
\<close>

unbundle bit_operations_syntax

section \<open>\<^verbatim>\<open>crates/util/src/lib.rs\<close>\<close>

definition test_rev :: bool where
  "test_rev \<longleftrightarrow>
     RevPrefixes ''/net/0x1212xx/from/0x123/exeunit/exec'' =
       [''/net/0x1212xx/from/0x123/exeunit/exec'',
        ''/net/0x1212xx/from/0x123/exeunit'',
        ''/net/0x1212xx/from/0x123'',
        ''/net/0x1212xx/from'',
        ''/net/0x1212xx'',
        ''/net'']
     \<and> RevPrefixes '''' = []"

definition test_prefix_bag :: bool where
  "test_prefix_bag \<longleftrightarrow>
     (let (_, bag) = pb_insert ''/ala/ma/kota'' (1 :: nat) pb_default;
          (_, bag) = pb_insert ''/ala/ma/psa'' 2 bag;
          (_, bag) = pb_insert ''/ala'' 7 bag
      in pb_get bag ''/ala/ma/smoka'' = Some 7
       \<and> pb_get bag ''/ala/ma/kota'' = Some 1
       \<and> pb_get bag ''/jola/ma/psa'' = None)"

lemma test_rev_passes: "test_rev"
  by (simp add: test_rev_def RevPrefixes.simps rev_prefixes_next_def)

lemma test_prefix_bag_passes: "test_prefix_bag"
  by (simp add: test_prefix_bag_def pb_insert_def pb_default_def pb_get_def hm_insert_def hm_get_def
      RevPrefixes.simps rev_prefixes_next_def)

section \<open>\<^verbatim>\<open>crates/proto/src/lib.rs\<close>\<close>

subsection \<open>Default endpoints\<close>

text \<open>\<^verbatim>\<open>Path\<close> compares paths by their components: repeated separators and \<^verbatim>\<open>.\<close> after them do not count.\<close>

definition path_components :: "string \<Rightarrow> string list" where
  "path_components p =
     (case split_on (CHR ''/'') p of
        [] \<Rightarrow> []
      | s # ss \<Rightarrow> (if s = [] then [] else [s]) @ filter (\<lambda>t. t \<noteq> [] \<and> t \<noteq> ''.'') ss)"

definition path_eq :: "string \<Rightarrow> string \<Rightarrow> bool" where
  "path_eq p q \<longleftrightarrow> is_absolute p = is_absolute q \<and> path_components p = path_components q"

definition path_starts_with :: "string \<Rightarrow> string \<Rightarrow> bool" where
  "path_starts_with p base \<longleftrightarrow> is_absolute p = is_absolute base
     \<and> take (length (path_components base)) (path_components p) = path_components base"

definition check_default_gsb_url :: "'u url_ops \<Rightarrow> string option \<Rightarrow> string option \<Rightarrow> bool" where
  "check_default_gsb_url ops xdg project_dir \<longleftrightarrow>
     (case addr_from_url ops (generated_default xdg project_dir) None None of
        Inr addr \<Rightarrow>
          addr = into_addr (generated_default xdg project_dir)
          \<and> (case addr of
               Unix path \<Rightarrow> path_eq path
                 (socket_path (default_unix_gsb_endpoint xdg (default_yagna_data_dir project_dir) True))
             | _ \<Rightarrow> False)
      | Inl _ \<Rightarrow> False)"

definition linux_defaults_match_yagna_layout :: bool where
  "linux_defaults_match_yagna_layout \<longleftrightarrow>
     (let runtime_dir = ''/run/user/1000'';
          data_dir = ''/home/user/.local/share/yagna'';
          runtime = linux_default_gsb_endpoint data_dir True (Some runtime_dir);
          fallback = linux_default_gsb_endpoint data_dir True None
      in path_eq (socket_path runtime) ''/run/user/1000/yagna/gsb.sock''
       \<and> path_eq (socket_path fallback) ''/home/user/.local/share/yagna/run/gsb.sock'')"

definition custom_data_dirs_get_distinct_runtime_endpoints :: bool where
  "custom_data_dirs_get_distinct_runtime_endpoints \<longleftrightarrow>
     (let runtime_dir = ''/run/user/1000'';
          first = linux_default_gsb_endpoint ''/data/one'' False (Some runtime_dir);
          second = linux_default_gsb_endpoint ''/data/two'' False (Some runtime_dir)
      in \<not> path_eq (socket_path first) (socket_path second)
       \<and> path_starts_with (socket_path first) (path_join runtime_dir gsb_app_dir)
       \<and> path_starts_with (socket_path second) (path_join runtime_dir gsb_app_dir))"

definition macos_defaults_match_linux_runtime_layout :: bool where
  "macos_defaults_match_linux_runtime_layout \<longleftrightarrow>
     (let temp_dir = ''/var/folders/user/T'';
          data_dir = ''/Users/user/Library/Application Support/GolemFactory/yagna'';
          dflt = macos_default_gsb_endpoint data_dir True temp_dir;
          custom = macos_default_gsb_endpoint ''/data/custom'' False temp_dir
      in path_eq (socket_path dflt) ''/var/folders/user/T/yagna/gsb.sock''
       \<and> path_starts_with (socket_path custom) (path_join temp_dir gsb_app_dir)
       \<and> \<not> path_eq (socket_path custom) (socket_path dflt))"

lemma check_default_gsb_url_passes: "check_default_gsb_url ops xdg project_dir"
  by (simp add: check_default_gsb_url_def addr_from_url_def requested_url_def generated_default_def for_data_dir_def into_addr_def path_eq_def)

lemma linux_defaults_match_yagna_layout_passes: "linux_defaults_match_yagna_layout"
  by code_simp

lemma custom_data_dirs_get_distinct_runtime_endpoints_passes: "custom_data_dirs_get_distinct_runtime_endpoints"
  by code_simp

lemma macos_defaults_match_linux_runtime_layout_passes: "macos_defaults_match_linux_runtime_layout"
  by code_simp

subsection \<open>Addresses from URLs\<close>

text \<open>How the URL crate reads a text: the parts that the code asks for.\<close>

definition url_is :: "'u url_ops \<Rightarrow> string \<Rightarrow> string \<Rightarrow> string option \<Rightarrow> nat option \<Rightarrow> string option \<Rightarrow> bool" where
  "url_is ops text scheme host port path \<longleftrightarrow>
     (case url_parse ops text of
        Inr u \<Rightarrow> url_scheme ops u = scheme \<and> url_host_str ops u = host \<and> url_port ops u = port \<and> url_to_file_path ops u = path
      | Inl _ \<Rightarrow> False)"

lemma url_isD:
  "url_is ops text scheme host port path \<Longrightarrow> \<exists>u. url_parse ops text = Inr u
     \<and> url_scheme ops u = scheme \<and> url_host_str ops u = host \<and> url_port ops u = port \<and> url_to_file_path ops u = path"
  by (simp add: url_is_def split: sum.splits)

text \<open>\<^verbatim>\<open>GsbAddr::from_url(Some(text.parse().unwrap()))\<close> and \<^verbatim>\<open>#[should_panic(expected = ..)]\<close>.\<close>

definition from_text :: "'u url_ops \<Rightarrow> generated_gsb_endpoint \<Rightarrow> string option \<Rightarrow> string \<Rightarrow> string + gsb_addr" where
  "from_text ops generated var text =
     (case url_parse ops text of
        Inl _ \<Rightarrow> Inl ''called `Result::unwrap()` on an `Err` value''
      | Inr u \<Rightarrow> addr_from_url ops generated var (Some u))"

definition from_text_other :: "'u url_ops \<Rightarrow> string option \<Rightarrow> string \<Rightarrow> string + gsb_addr" where
  "from_text_other ops var text =
     (case url_parse ops text of
        Inl _ \<Rightarrow> Inl ''called `Result::unwrap()` on an `Err` value''
      | Inr u \<Rightarrow> addr_from_url_other ops var (Some u))"

definition should_panic :: "string \<Rightarrow> string + 'a \<Rightarrow> bool" where
  "should_panic expected r \<longleftrightarrow>
     (case r of
        Inl panic \<Rightarrow> list_ex (\<lambda>i. starts_with (drop i panic) expected) [0..<Suc (length panic)]
      | Inr _ \<Rightarrow> False)"

lemma should_panic_starts: "should_panic expected (Inl (expected @ rest))"
  by (cases expected) (auto simp: should_panic_def list_ex_iff starts_with_def intro!: bexI [of _ 0])

definition check_env_var :: "'u url_ops \<Rightarrow> generated_gsb_endpoint \<Rightarrow> bool" where
  "check_env_var ops generated \<longleftrightarrow>
     addr_from_url ops generated (Some ''tcp://10.9.8.7:2345'') None = Inr (Tcp ''10.9.8.7:2345'')"

definition check_no_tcp_protocol_gsb_url :: "'u url_ops \<Rightarrow> generated_gsb_endpoint \<Rightarrow> bool" where
  "check_no_tcp_protocol_gsb_url ops generated \<longleftrightarrow>
     addr_from_url ops generated (Some ''10.9.8.7:1234'') None = Inr (Tcp ''10.9.8.7:1234'')"

definition panic_env_var_http :: "'u url_ops \<Rightarrow> generated_gsb_endpoint \<Rightarrow> bool" where
  "panic_env_var_http ops generated \<longleftrightarrow>
     should_panic ''unimplemented protocol for GSB URL: http''
       (addr_from_url ops generated (Some ''http://10.9.8.7:2345'') None)"

definition check_ip_port_gsb_url :: "'u url_ops \<Rightarrow> generated_gsb_endpoint \<Rightarrow> string option \<Rightarrow> bool" where
  "check_ip_port_gsb_url ops generated var \<longleftrightarrow>
     from_text ops generated var ''tcp://10.9.8.7:2345'' = Inr (Tcp ''10.9.8.7:2345'')"

text \<open>The path of the test has letters outside ASCII and a space; these are its bytes.\<close>

definition turtle_path :: string where
  "turtle_path = ''/tmp/'' @ [CHR 0xC5, CHR 0x9B] @ ''mig'' @ [CHR 0xC5, CHR 0x82] @ ''y ''
     @ [CHR 0xC5, CHR 0xBC, CHR 0xC3, CHR 0xB3, CHR 0xC5, CHR 0x82] @ ''w/socket''"

definition check_unix_gsb_url :: "'u url_ops \<Rightarrow> generated_gsb_endpoint \<Rightarrow> string option \<Rightarrow> bool" where
  "check_unix_gsb_url ops generated var \<longleftrightarrow>
     (case from_text ops generated var (''unix:'' @ turtle_path) of
        Inr (Unix path) \<Rightarrow> path_eq path turtle_path
      | _ \<Rightarrow> False)"

definition panic_http_gsb_url :: "'u url_ops \<Rightarrow> generated_gsb_endpoint \<Rightarrow> string option \<Rightarrow> bool" where
  "panic_http_gsb_url ops generated var \<longleftrightarrow>
     should_panic ''unimplemented protocol for GSB URL: http'' (from_text ops generated var ''http://10.9.8.7'')"

definition panic_no_host_gsb_url :: "'u url_ops \<Rightarrow> generated_gsb_endpoint \<Rightarrow> string option \<Rightarrow> bool" where
  "panic_no_host_gsb_url ops generated var \<longleftrightarrow>
     should_panic ''need host for GSB URL'' (from_text ops generated var ''tcp:'')"

text \<open>The two tests for systems without Unix sockets.\<close>

definition check_default_gsb_url_other :: "'u url_ops \<Rightarrow> bool" where
  "check_default_gsb_url_other ops \<longleftrightarrow>
     (case addr_from_url_other ops None None of
        Inr addr \<Rightarrow> addr = into_addr generated_default_other
          \<and> (case addr of Tcp a \<Rightarrow> a = ''127.0.0.1:7464'' | _ \<Rightarrow> False)
      | Inl _ \<Rightarrow> False)"

definition check_unix_gsb_url_other :: "'u url_ops \<Rightarrow> string option \<Rightarrow> bool" where
  "check_unix_gsb_url_other ops var \<longleftrightarrow>
     should_panic ''Unix sockets not supported on this OS'' (from_text_other ops var ''unix:/tmp/socket'')"

lemma show_port [simp]: "show_nat 2345 = ''2345''" "show_nat 1234 = ''1234''" "show_nat 7464 = ''7464''"
  by (simp_all add: show_nat.simps char_of_def bit_0)

lemmas address_test_defs = check_env_var_def check_no_tcp_protocol_gsb_url_def check_ip_port_gsb_url_def
  check_unix_gsb_url_def panic_env_var_http_def panic_http_gsb_url_def panic_no_host_gsb_url_def
  check_unix_gsb_url_other_def from_text_def from_text_other_def addr_from_url_def addr_from_url_other_def
  requested_url_def env_url_def parse_tcp_url_def parse_unix_url_def parse_unix_url_other_def path_eq_def

lemma address_tests_pass:
  "url_is ops ''tcp://10.9.8.7:2345'' ''tcp'' (Some ''10.9.8.7'') (Some 2345) None \<Longrightarrow> check_env_var ops g"
  "url_parse ops ''10.9.8.7:1234'' = Inl RelativeUrlWithoutBase \<Longrightarrow>
     url_is ops ''tcp://10.9.8.7:1234'' ''tcp'' (Some ''10.9.8.7'') (Some 1234) None \<Longrightarrow> check_no_tcp_protocol_gsb_url ops g"
  "url_is ops ''http://10.9.8.7:2345'' ''http'' (Some ''10.9.8.7'') (Some 2345) None \<Longrightarrow> panic_env_var_http ops g"
  "url_is ops ''tcp://10.9.8.7:2345'' ''tcp'' (Some ''10.9.8.7'') (Some 2345) None \<Longrightarrow> check_ip_port_gsb_url ops g var"
  "url_is ops (''unix:'' @ turtle_path) ''unix'' None None (Some turtle_path) \<Longrightarrow> check_unix_gsb_url ops g var"
  "url_is ops ''http://10.9.8.7'' ''http'' (Some ''10.9.8.7'') None None \<Longrightarrow> panic_http_gsb_url ops g var"
  "url_is ops ''tcp:'' ''tcp'' None None None \<Longrightarrow> panic_no_host_gsb_url ops g var"
  "url_is ops ''unix:/tmp/socket'' ''unix'' None None (Some ''/tmp/socket'') \<Longrightarrow> check_unix_gsb_url_other ops var"
  using should_panic_starts [of "''unimplemented protocol for GSB URL: http''" "[]"]
    should_panic_starts [of "''need host for GSB URL''" "[]"] should_panic_starts [of "''Unix sockets not supported on this OS''" "[]"]
  by (auto simp: address_test_defs dest!: url_isD)

lemma check_default_gsb_url_other_passes: "check_default_gsb_url_other ops"
  by (simp add: check_default_gsb_url_other_def addr_from_url_other_def requested_url_def generated_default_other_def
      into_addr_def default_gsb_port_def)

section \<open>\<^verbatim>\<open>crates/router/src/unix_socket.rs\<close>\<close>

text \<open>
  What the tests do to the file system besides. The bytes of a file belong to its inode, \<open>data\<close> says
  which; \<open>tempdir\<close> is a directory in which the names that a test uses are free and can be used. Nobody
  else acts in it.
\<close>

definition tempdir :: "string \<Rightarrow> unix_fs \<Rightarrow> bool" where
  "tempdir dir f \<longleftrightarrow> list_all (\<lambda>name. let p = path_join dir name
     in fs_entry f p = None \<and> fs_denied f p = None \<and> fs_target f p = p) [''gsb.sock'', ''target'']"

definition drop_listener :: "string \<Rightarrow> unix_fs \<Rightarrow> unix_fs" where
  "drop_listener path f = f\<lparr>fs_accepts := (fs_accepts f)(path := False)\<rparr>"

definition path_exists :: "string \<Rightarrow> unix_fs \<Rightarrow> bool" where
  "path_exists path f \<longleftrightarrow> (case fs_look (fs_target f path) f of Inr _ \<Rightarrow> True | Inl _ \<Rightarrow> False)"

definition file_write ::
  "metadata \<Rightarrow> string \<Rightarrow> bytes \<Rightarrow> unix_fs \<times> (u64 \<Rightarrow> bytes) \<Rightarrow> unix_fs \<times> (u64 \<Rightarrow> bytes)" where
  "file_write fresh path content w =
     (case w of (f, data) \<Rightarrow>
        (f\<lparr>fs_entry := (fs_entry f)(path \<mapsto> fresh\<lparr>md_type := RegularFile\<rparr>)\<rparr>, data(md_ino fresh := content)))"

definition make_symlink :: "metadata \<Rightarrow> string \<Rightarrow> string \<Rightarrow> unix_fs \<Rightarrow> unix_fs" where
  "make_symlink fresh target path f =
     f\<lparr>fs_entry := (fs_entry f)(path \<mapsto> fresh\<lparr>md_type := SymlinkFile\<rparr>), fs_target := (fs_target f)(path := fs_target f target)\<rparr>"

definition file_read :: "(u64 \<Rightarrow> bytes) \<Rightarrow> string \<Rightarrow> unix_fs \<Rightarrow> io_error + bytes" where
  "file_read data path f =
     (case fs_look (fs_target f path) f of
        Inl e \<Rightarrow> Inl e
      | Inr m \<Rightarrow> if md_type m = RegularFile then Inr (data (md_ino m)) else Inl (system_error f OtherKind))"

definition alone :: "nat \<Rightarrow> unix_fs \<Rightarrow> unix_fs" where
  "alone k f = f"

text \<open>\<^verbatim>\<open>prepare_for_bind(&path).await.unwrap_err().kind()\<close>\<close>

definition error_kind :: "io_error + 'a \<Rightarrow> io_error_kind option" where
  "error_kind r = (case r of Inl e \<Rightarrow> Some (ie_kind e) | Inr _ \<Rightarrow> None)"

definition removes_stale_same_user_socket :: "u32 \<Rightarrow> metadata \<Rightarrow> string \<Rightarrow> unix_fs \<Rightarrow> bool" where
  "removes_stale_same_user_socket euid fresh dir f \<longleftrightarrow>
     (let path = path_join dir ''gsb.sock'';
          (bound, f1) = listener_bind euid fresh path f;
          f2 = drop_listener path f1;
          (res, f3) = prepare_for_bind euid alone path f2
      in bound = Inr () \<and> res = Inr () \<and> \<not> path_exists path f3)"

definition rejects_live_socket_without_removing_it :: "u32 \<Rightarrow> metadata \<Rightarrow> string \<Rightarrow> unix_fs \<Rightarrow> bool" where
  "rejects_live_socket_without_removing_it euid fresh dir f \<longleftrightarrow>
     (let path = path_join dir ''gsb.sock'';
          (bound, f1) = listener_bind euid fresh path f;
          (res, f2) = prepare_for_bind euid alone path f1
      in bound = Inr () \<and> error_kind res = Some AddrInUse \<and> path_exists path f2)"

definition rejects_regular_file_without_removing_it ::
  "u32 \<Rightarrow> metadata \<Rightarrow> string \<Rightarrow> unix_fs \<Rightarrow> (u64 \<Rightarrow> bytes) \<Rightarrow> bool" where
  "rejects_regular_file_without_removing_it euid fresh dir f data \<longleftrightarrow>
     (let path = path_join dir ''gsb.sock'';
          (f1, data1) = file_write fresh path (as_bytes ''not a socket'') (f, data);
          (res, f2) = prepare_for_bind euid alone path f1
      in error_kind res = Some AlreadyExists \<and> file_read data1 path f2 = Inr (as_bytes ''not a socket''))"

definition rejects_symlink_without_removing_it_or_its_target ::
  "u32 \<Rightarrow> metadata \<Rightarrow> metadata \<Rightarrow> string \<Rightarrow> unix_fs \<Rightarrow> (u64 \<Rightarrow> bytes) \<Rightarrow> bool" where
  "rejects_symlink_without_removing_it_or_its_target euid fresh fresh' dir f data \<longleftrightarrow>
     (let target = path_join dir ''target'';
          path = path_join dir ''gsb.sock'';
          (f1, data1) = file_write fresh target (as_bytes ''keep me'') (f, data);
          f2 = make_symlink fresh' target path f1;
          (res, f3) = prepare_for_bind euid alone path f2
      in error_kind res = Some AlreadyExists
       \<and> (case symlink_metadata path f3 of Inr m \<Rightarrow> md_type m = SymlinkFile | Inl _ \<Rightarrow> False)
       \<and> file_read data1 target f3 = Inr (as_bytes ''keep me''))"

definition applies_owner_only_socket_permissions :: "u32 \<Rightarrow> metadata \<Rightarrow> string \<Rightarrow> unix_fs \<Rightarrow> bool" where
  "applies_owner_only_socket_permissions euid fresh dir f \<longleftrightarrow>
     (let path = path_join dir ''gsb.sock'';
          (bound, f1) = listener_bind euid fresh path f;
          (res, f2) = set_owner_only_permissions euid alone path f1
      in bound = Inr () \<and> res = Inr ()
       \<and> (case symlink_metadata path f2 of Inr m \<Rightarrow> md_mode m AND 0x1FF = 0x180 | Inl _ \<Rightarrow> False))"

lemma target_not_socket [simp]: "path_join dir ''target'' \<noteq> path_join dir ''gsb.sock''"
  by (auto simp: path_join_def is_absolute_def starts_with_def)

lemmas socket_test_defs = removes_stale_same_user_socket_def rejects_live_socket_without_removing_it_def
  rejects_regular_file_without_removing_it_def rejects_symlink_without_removing_it_or_its_target_def
  applies_owner_only_socket_permissions_def tempdir_def drop_listener_def path_exists_def file_write_def make_symlink_def
  file_read_def alone_def error_kind_def prepare_for_bind_def set_owner_only_permissions_def listener_bind_def
  inspect_owned_socket_def symlink_metadata_def fs_look_def unix_connect_def remove_file_def set_permissions_def
  path_error_def system_error_def si_matches_def from_metadata_def Let_def

lemma socket_tests_pass:
  assumes "tempdir dir f"
  shows "removes_stale_same_user_socket euid fresh dir f"
    and "rejects_live_socket_without_removing_it euid fresh dir f"
    and "rejects_regular_file_without_removing_it euid fresh dir f data"
    and "rejects_symlink_without_removing_it_or_its_target euid fresh fresh' dir f data"
    and "applies_owner_only_socket_permissions euid fresh dir f"
  using assms by (simp_all add: socket_test_defs owner_only_mode)

section \<open>\<^verbatim>\<open>src/actix_rpc.rs\<close>\<close>

text \<open>
  \<^verbatim>\<open>RawActor\<close> has one handler, which returns the body; \<open>others\<close> fills the places of the handlers it does
  not have. It is started once, and its address is used for each binding.
\<close>

definition raw_actor :: "('v, 'r) user_actor \<Rightarrow> ('v, 'r) actor" where
  "raw_actor others = UserActor (others\<lparr>on_raw_call := (\<lambda>message. Inr (rc_body message))\<rparr>)"

definition checked_raw_binding_never_replaces_and_exact_unbind_allows_rebind ::
  "('v, 'r) user_actor \<Rightarrow> string \<Rightarrow> ('ty, 'v, 'r) process \<Rightarrow> bool" where
  "checked_raw_binding_never_replaces_and_exact_unbind_allows_rebind others uuid p \<longleftrightarrow>
     (let (service, p0) = start_actor (raw_actor others) p;
          address = ''/local/test/'' @ uuid;
          (r1, p1) = ar_try_bind_raw address service p0;
          (r2, p2) = ar_try_bind_raw address service p1;
          (u1, p3) = ar_unbind_raw address p2;
          (r3, p4) = ar_try_bind_raw address service p3;
          (u2, p5) = ar_unbind_raw address p4;
          (u3, p6) = ar_unbind_raw address p5
      in r1 = Inr ()
       \<and> (case r2 of Inl (GsbAlreadyRegistered _) \<Rightarrow> True | _ \<Rightarrow> False)
       \<and> u1 \<and> r3 = Inr () \<and> u2 \<and> \<not> u3)"

lemma checked_raw_binding_passes:
  assumes "bound_in p (''/local/test/'' @ uuid) = None"
  shows "checked_raw_binding_never_replaces_and_exact_unbind_allows_rebind others uuid p"
proof -
  obtain a p0 where s: "start_actor (raw_actor others) p = (a, p0)" by (metis surj_pair)
  then have "bound_in p0 = bound_in p" by (auto simp: start_actor_def bound_in_def fun_eq_iff)
  with assms show ?thesis
    by (simp add: checked_raw_binding_never_replaces_and_exact_unbind_allows_rebind_def s Let_def split_beta
        try_bind_raw_effect unbind_raw_effect)
qed

section \<open>\<^verbatim>\<open>tests/test_streaming.rs\<close>\<close>

text \<open>An item of the stream is \<^verbatim>\<open>Result<String, ()>\<close>; the intervals of a second are left out.\<close>

definition reference :: "(unit + string) list" where
  "reference = take (5000 * 3) (concat (replicate 3 (map (\<lambda>n. Inr (''hello '' @ show_nat n)) [0..<5000])))"

text \<open>\<^verbatim>\<open>try_collect\<close>: the values up to the first error, which is the result if there is one.\<close>

fun try_collect :: "('e + 'a) list \<Rightarrow> 'e + 'a list" where
  "try_collect [] = Inr []"
| "try_collect (Inl e # items) = Inl e"
| "try_collect (Inr x # items) = map_sum id ((#) x) (try_collect items)"

definition unwrap_or_default :: "'e + string \<Rightarrow> string" where
  "unwrap_or_default r = (case r of Inr v \<Rightarrow> v | Inl _ \<Rightarrow> [])"

definition test_streaming ::
  "(unit, unit + string) serde \<Rightarrow> 'ty \<Rightarrow> ('ty, unit, unit + string) process
   \<Rightarrow> (rpc_raw_call \<Rightarrow> mailbox_error + (gsb_error + bytes)) \<Rightarrow> (string \<Rightarrow> string \<Rightarrow> bytes \<Rightarrow> mailbox_error + chunks) \<Rightarrow> bool" where
  "test_streaming sd ping p remote remote_stream \<longleftrightarrow>
     (let p1 = typed_bind_stream ping ''ping'' ''/local/test'' (closure_stream_handler (\<lambda>_. reference)) p
      in case ep_call_streaming sd (process_actors remote remote_stream p1) ping ''ping'' ''/local/test'' () (pr_router p1) of
           None \<Rightarrow> False
         | Some items \<Rightarrow>
             (case (try_collect (map (map_sum id unwrap_or_default) items), try_collect reference) of
                (Inr x, Inr y) \<Rightarrow> x = y
              | _ \<Rightarrow> False))"

lemma try_collect_Inr [simp]: "try_collect (map (\<lambda>x. Inr (g x)) xs) = Inr (map g xs)"
  by (induction xs) simp_all

lemma try_collect_ok:
  "\<forall>r \<in> set rs. \<exists>v. r = Inr v \<Longrightarrow> try_collect rs = Inr (map unwrap_or_default rs)"
  by (induction rs) (auto simp: unwrap_or_default_def)

lemma reference_ok: "try_collect reference = Inr (map unwrap_or_default reference)"
  by (rule try_collect_ok) (auto simp: reference_def dest!: in_set_takeD)

lemma test_streaming_passes: "test_streaming sd ping p remote remote_stream"
proof -
  let ?p = "typed_bind_stream ping ''ping'' ''/local/test'' (closure_stream_handler (\<lambda>_. reference)) p"
  let ?a = "length (pr_actors p)"
  have "slot_at (pr_router ?p) (''/local/test'' @ ''/'' @ ''ping'') = Some (TypedStream ping ?a)"
    "actor_at ?p ?a = Some (RpcStreamHandlerWrapper (closure_stream_handler (\<lambda>_. reference)))"
    using typed_bind_stream_offers [of ping "''ping''" "''/local/test''" "closure_stream_handler (\<lambda>_. reference)" p]
    by (auto simp: offers_actor_def intro: slot_at_bound)
  then have "ep_call_streaming sd (process_actors remote remote_stream ?p) ping ''ping'' ''/local/test'' () (pr_router ?p)
      = Some (map Inr reference)"
    by (simp add: ep_call_streaming_def lr_streaming_forward_def slot_streaming_forward_def process_actors_def
        stream_wrapper_handle_def closure_stream_handler_def Let_def)
  then show ?thesis
    by (simp add: test_streaming_def reference_ok Let_def comp_def)
qed

section \<open>\<^verbatim>\<open>src/serialization.rs\<close>\<close>

record test_msg =
  tm_name :: string
  tm_data :: bytes

definition test_message :: test_msg where
  "test_message = \<lparr>tm_name = ''hello'', tm_data = replicate 4096 7\<rparr>"

text \<open>\<open>crate\<close> is the serialization crate, \<open>fm\<close> the module that wraps it.\<close>

definition decodes_uncompressed_body :: "zlib \<Rightarrow> test_msg serde_crate \<Rightarrow> test_msg format \<Rightarrow> bool" where
  "decodes_uncompressed_body z crate fm \<longleftrightarrow>
     (case sc_to_vec crate test_message of
        Inr body \<Rightarrow> ser_from_slice z fm body = Inr test_message
      | Inl _ \<Rightarrow> False)"

definition decodes_compressed_body :: "zlib \<Rightarrow> test_msg serde_crate \<Rightarrow> test_msg format \<Rightarrow> bool" where
  "decodes_compressed_body z crate fm \<longleftrightarrow>
     (case sc_to_vec crate test_message of
        Inr body \<Rightarrow> ser_from_slice z fm (zl_compress z body) = Inr test_message
      | Inl _ \<Rightarrow> False)"

lemma decode_tests_pass:
  assumes "reads_back crate test_message body" and "plain_body z body" and "zlib_ok z" and "fm = flex crate \<or> fm = json crate"
  shows "decodes_uncompressed_body z crate fm" and "decodes_compressed_body z crate fm"
  using assms
  by (auto simp: decodes_uncompressed_body_def decodes_compressed_body_def ser_from_slice_def reads_back_def plain_body_def
      zlib_ok_def flex_def json_def)

subsection \<open>A stream that inflates to zeros\<close>

text \<open>
  \<^verbatim>\<open>zlib_bomb\<close>: the state of its closure \<^verbatim>\<open>put\<close> is the output, the accumulator and the number of bits in
  it. \<open>None\<close> is the underflow of \<^verbatim>\<open>len - 1\<close>.
\<close>

fun flush_bytes :: "bytes \<Rightarrow> u32 \<Rightarrow> nat \<Rightarrow> bytes \<times> u32 \<times> nat" where
  "flush_bytes dst acc nbits =
     (if 8 \<le> nbits then flush_bytes (dst @ [ucast acc]) (drop_bit 8 acc) (nbits - 8) else (dst, acc, nbits))"

declare flush_bytes.simps [simp del]

definition put_code :: "u32 \<Rightarrow> nat \<Rightarrow> bool \<Rightarrow> bytes \<times> u32 \<times> nat \<Rightarrow> bytes \<times> u32 \<times> nat" where
  "put_code code n reverse st =
     (case st of (dst, acc, nbits) \<Rightarrow>
        let code' = (if reverse then drop_bit (32 - n) (word_reverse code) else code)
        in flush_bytes dst (acc OR push_bit nbits code') (nbits + n))"

definition zlib_bomb :: "nat \<Rightarrow> bytes option" where
  "zlib_bomb len =
     (if len = 0 then None else
      let st = put_code 3 3 False ([0x78, 0x01], 0, 0);
          st = put_code 0x30 8 True st;
          st = fold (\<lambda>_ st. put_code 0 5 True (put_code 0xc5 8 True st)) [0..<(len - 1) div 258] st;
          st = put_code 0 7 True st;
          st = put_code 0 7 False st;
          total = 1 + (len - 1) div 258 * 258;
          adler = push_bit 16 (of_nat (total mod 65521)) OR 1
      in Some (fst st @ put_u32 adler))"

text \<open>The bits of a sequence of bytes, the least significant first; what has been put so far.\<close>

definition bits_of :: "bytes \<Rightarrow> bool list" where
  "bits_of bs = concat (map (\<lambda>b. map (bit b) [0..<8]) bs)"

definition put_so_far :: "bytes \<times> u32 \<times> nat \<Rightarrow> bool list" where
  "put_so_far st = (case st of (dst, acc, nbits) \<Rightarrow> bits_of dst @ map (bit acc) [0..<nbits])"

definition put_ok :: "bytes \<times> u32 \<times> nat \<Rightarrow> bool" where
  "put_ok st \<longleftrightarrow> (case st of (dst, acc, nbits) \<Rightarrow> nbits < 8 \<and> (\<forall>i \<ge> nbits. \<not> bit acc i))"

lemma bits_of_append [simp]: "bits_of (xs @ ys) = bits_of xs @ bits_of ys"
  by (simp add: bits_of_def)

lemma length_bits_of [simp]: "length (bits_of bs) = 8 * length bs"
  by (induction bs) (simp_all add: bits_of_def)

lemma flush_bytes_keeps:
  "(\<forall>i \<ge> nbits. \<not> bit acc i) \<Longrightarrow>
     put_so_far (flush_bytes dst acc nbits) = put_so_far (dst, acc, nbits) \<and> put_ok (flush_bytes dst acc nbits)"
proof (induction dst acc nbits rule: flush_bytes.induct)
  case (1 dst acc nbits)
  show ?case
  proof (cases "8 \<le> nbits")
    case True
    have "map (bit (drop_bit 8 acc)) [0..<nbits - 8] = map (bit acc) [8..<nbits]"
      by (rule nth_equalityI) (simp_all add: bit_simps)
    moreover have "bits_of [ucast acc] = map (bit acc) [0..<8]"
      by (simp add: bits_of_def bit_simps)
    ultimately have "bits_of [ucast acc] @ map (bit (drop_bit 8 acc)) [0..<nbits - 8] = map (bit acc) [0..<nbits]"
      using upt_add_eq_append [of 0 8 "nbits - 8"] True by (simp flip: map_append)
    with 1 True show ?thesis
      by (simp add: flush_bytes.simps [of dst acc nbits] put_so_far_def bit_simps)
  qed (use 1 in \<open>simp add: flush_bytes.simps [of dst acc nbits] put_ok_def\<close>)
qed

text \<open>The bits of a Huffman code go out with the most significant one first.\<close>

definition huffman :: "u32 \<Rightarrow> nat \<Rightarrow> bool list" where
  "huffman code n = map (bit code) (rev [0..<n])"

lemma put_code_adds:
  assumes "put_ok st" and "n \<le> 8" and "take_bit n code = code"
  shows "put_so_far (put_code code n reverse st) =
      put_so_far st @ (if reverse then huffman code n else map (bit code) [0..<n])"
    and "put_ok (put_code code n reverse st)"
proof -
  obtain dst acc nbits where st: "st = (dst, acc, nbits)" by (metis surj_pair)
  let ?code = "if reverse then drop_bit (32 - n) (word_reverse code) else code"
  let ?acc = "acc OR push_bit nbits ?code"
  have nbits: "nbits < 8" "\<And>i. nbits \<le> i \<Longrightarrow> \<not> bit acc i" using assms(1) by (simp_all add: put_ok_def st)
  have small: "bit code i \<Longrightarrow> i < n" for i using assms(3) by (metis bit_take_bit_iff)
  have code: "bit ?code i = (i < n \<and> bit code (if reverse then n - Suc i else i))" for i
    using assms(2) small by (auto simp: bit_simps Suc_diff_le)
  have acc: "bit ?acc i = (if i < nbits then bit acc i else bit ?code (i - nbits))" for i
    using nbits assms(2) code by (auto simp: bit_simps)
  have put: "flush_bytes dst ?acc (nbits + n) = put_code code n reverse st" by (simp add: put_code_def st Let_def)
  have "\<forall>i \<ge> nbits + n. \<not> bit ?acc i" using acc code by auto
  note flush = flush_bytes_keeps [OF this, of dst, unfolded put]
  have "map (bit ?acc) [0..<nbits + n] = map (bit acc) [0..<nbits] @ map (bit ?code) [0..<n]"
    by (rule nth_equalityI) (auto simp: acc nth_append)
  moreover have "map (bit ?code) [0..<n] = (if reverse then huffman code n else map (bit code) [0..<n])"
    by (rule nth_equalityI) (auto simp: code huffman_def rev_nth)
  ultimately show "put_so_far (put_code code n reverse st) =
      put_so_far st @ (if reverse then huffman code n else map (bit code) [0..<n])"
    using flush by (simp add: st put_so_far_def)
  show "put_ok (put_code code n reverse st)" using flush by simp
qed

text \<open>One literal 0, then references of length 258 to the byte before, then the end of the block.\<close>

definition zeros_block :: "nat \<Rightarrow> bool list" where
  "zeros_block k = [True, True, False] @ huffman 0x30 8 @ concat (replicate k (huffman 0xc5 8 @ huffman 0 5)) @ huffman 0 7"

text \<open>Adler-32 as RFC 1950 has it.\<close>

definition adler32 :: "bytes \<Rightarrow> u32" where
  "adler32 bs = (case fold (\<lambda>x (a, b). let a' = (a + unat x) mod 65521 in (a', (b + a') mod 65521)) bs (1, 0 :: nat) of
     (a, b) \<Rightarrow> push_bit 16 (of_nat b) OR of_nat a)"

lemma adler32_zeros: "adler32 (replicate n 0) = push_bit 16 (of_nat (n mod 65521)) OR 1"
proof -
  have "fold (\<lambda>x (a, b). let a' = (a + unat x) mod 65521 in (a', (b + a') mod 65521)) (replicate n (0 :: u8)) (1, b mod 65521)
      = (1, (b + n) mod 65521)" for b :: nat
    by (induction n arbitrary: b) (simp_all add: mod_Suc_eq flip: add_Suc)
  from this [of 0] show ?thesis by (simp add: adler32_def)
qed

text \<open>A zlib stream of such a block: its header, the block with its padding, the checksum of the zeros.\<close>

definition zeros_stream :: "nat \<Rightarrow> bytes \<Rightarrow> bool" where
  "zeros_stream k bs \<longleftrightarrow> (\<exists>deflated pad. pad < 8 \<and> bs = [0x78, 0x01] @ deflated @ put_u32 (adler32 (replicate (1 + 258 * k) 0))
     \<and> bits_of deflated = zeros_block k @ replicate pad False)"

lemma huffman_length [simp]: "length (huffman code n) = n"
  by (simp add: huffman_def)

lemma zeros_block_length: "length (zeros_block k) = 18 + 13 * k"
  by (simp add: zeros_block_def length_concat sum_list_replicate)

lemma put_matches:
  "put_ok st \<Longrightarrow>
     put_ok (fold (\<lambda>_ st. put_code 0 5 True (put_code 0xc5 8 True st)) xs st)
     \<and> put_so_far (fold (\<lambda>_ st. put_code 0 5 True (put_code 0xc5 8 True st)) xs st) =
         put_so_far st @ concat (replicate (length xs) (huffman 0xc5 8 @ huffman 0 5))"
  by (induction xs arbitrary: st) (simp_all add: put_code_adds)

lemma strip_padding:
  assumes "xs @ ys = zs @ replicate 7 b" and "length ys < 8"
  shows "xs = zs @ replicate (7 - length ys) b"
proof -
  have "length xs = length zs + (7 - length ys)"
    using arg_cong [OF assms(1), of length] assms(2) by simp
  moreover from assms(1) have "take (length xs) (xs @ ys) = take (length xs) (zs @ replicate 7 b)" by simp
  ultimately show ?thesis by simp
qed

lemma bits_of_prefix: "bits_of xs = bits_of ys @ zs \<Longrightarrow> \<exists>d. xs = ys @ d \<and> bits_of d = zs"
proof (induction ys arbitrary: xs)
  case (Cons y ys)
  then obtain x xs' where xs: "xs = x # xs'" by (cases xs) (simp_all add: bits_of_def)
  with Cons.prems have "map (bit x) [0..<8] = map (bit y) [0..<8]" "bits_of xs' = bits_of ys @ zs"
    by (simp_all add: bits_of_def)
  moreover from this(1) have "x = y" by (auto intro!: bit_word_eqI)
  ultimately show ?case using Cons.IH [of xs'] xs by auto
qed (simp add: bits_of_def)

text \<open>
  What \<^verbatim>\<open>zlib_bomb\<close> makes is such a stream, for every length; and it is more than 150 times shorter than
  what it stands for.
\<close>

lemma zlib_bomb_layout:
  assumes "0 < len"
  shows "\<exists>bs. zlib_bomb len = Some bs \<and> zeros_stream ((len - 1) div 258) bs
     \<and> 8 * length bs \<le> 73 + 13 * ((len - 1) div 258)"
proof -
  define k where "k = (len - 1) div 258"
  let ?s1 = "put_code 0x30 8 True (put_code 3 3 False ([0x78, 0x01], 0, 0))"
  let ?s2 = "fold (\<lambda>_ st. put_code 0 5 True (put_code 0xc5 8 True st)) [0..<k] ?s1"
  let ?s = "put_code 0 7 False (put_code 0 7 True ?s2)"
  have start: "put_ok ([0x78, 0x01], 0, 0)" by (simp add: put_ok_def)
  have s1: "put_ok ?s1" "put_so_far ?s1 = bits_of [0x78, 0x01] @ [True, True, False] @ huffman 0x30 8"
    using start by (simp_all add: put_code_adds) (simp add: put_so_far_def upt_conv_Cons)
  have "put_ok ?s2" "put_so_far ?s2 = put_so_far ?s1 @ concat (replicate k (huffman 0xc5 8 @ huffman 0 5))"
    using put_matches [OF s1(1), of "[0..<k]"] by simp_all
  then have s: "put_ok ?s" "put_so_far ?s = bits_of [0x78, 0x01] @ zeros_block k @ replicate 7 False"
    by (simp_all add: put_code_adds s1(2) zeros_block_def bot_fun_def map_replicate_trivial)
  obtain dst acc nbits where st: "?s = (dst, acc, nbits)" by (metis surj_pair)
  have nbits: "nbits < 8" using s(1) by (simp add: st put_ok_def)
  have "bits_of dst = bits_of [0x78, 0x01] @ zeros_block k @ replicate (7 - nbits) False"
    using s(2) nbits strip_padding [of "bits_of dst" "map (bit acc) [0..<nbits]" "bits_of [0x78, 0x01] @ zeros_block k" False]
    by (simp add: st put_so_far_def)
  then obtain d where d: "dst = [0x78, 0x01] @ d" "bits_of d = zeros_block k @ replicate (7 - nbits) False"
    using bits_of_prefix by blast
  let ?bs = "dst @ put_u32 (adler32 (replicate (1 + 258 * k) 0))"
  have "zlib_bomb len = Some ?bs"
    using assms unfolding zlib_bomb_def Let_def k_def [symmetric] st adler32_zeros by (simp add: mult.commute)
  moreover have "zeros_stream k ?bs"
    unfolding zeros_stream_def using d by (intro exI [of _ d] exI [of _ "7 - nbits"]) simp
  moreover have "8 * length ?bs \<le> 73 + 13 * k"
    using arg_cong [OF d(2), of length] d(1) by (simp add: zeros_block_length)
  ultimately show ?thesis unfolding k_def [symmetric] by blast
qed

text \<open>
  The two tests over it. About zlib they rely on RFC 1951: a block of that form stands for one zero byte
  and 258 more for each reference; what exceeds the limit is reported as such.
\<close>

definition inflates_zeros :: "zlib \<Rightarrow> bool" where
  "inflates_zeros z \<longleftrightarrow> (\<forall>k bs limit. zeros_stream k bs \<longrightarrow>
     zl_decompress_with_limit z bs limit =
       (if 1 + 258 * k \<le> limit then Inr (replicate (1 + 258 * k) 0) else Inl HasMoreOutput))"

text \<open>\<^verbatim>\<open>decompress_to_vec_zlib\<close> has the largest \<^verbatim>\<open>usize\<close> as its limit.\<close>

definition zlib_bomb_is_valid :: "zlib \<Rightarrow> bool" where
  "zlib_bomb_is_valid z \<longleftrightarrow>
     (case zlib_bomb (1 + 258 * 1000) of
        Some bomb \<Rightarrow> zl_decompress_with_limit z bomb (2 ^ 64 - 1) = Inr (replicate (1 + 258 * 1000) 0)
      | None \<Rightarrow> False)"

definition rejects_zlib_bomb :: "zlib \<Rightarrow> test_msg format \<Rightarrow> bool" where
  "rejects_zlib_bomb z fm \<longleftrightarrow>
     (case zlib_bomb (200 * 1024 * 1024) of
        Some bomb \<Rightarrow> length bomb < 2 * 1024 * 1024
          \<and> ser_from_slice z fm bomb = Inl (TooLarge max_decompressed_size)
      | None \<Rightarrow> False)"

lemma bomb_tests_pass:
  assumes "inflates_zeros z"
  shows "zlib_bomb_is_valid z" and "rejects_zlib_bomb z fm"
proof -
  obtain small where small: "zlib_bomb (1 + 258 * 1000) = Some small" "zeros_stream 1000 small"
    using zlib_bomb_layout [of "1 + 258 * 1000"] by auto
  have "zl_decompress_with_limit z small (2 ^ 64 - 1) = Inr (replicate (1 + 258 * 1000) 0)"
    using assms [unfolded inflates_zeros_def, rule_format, OF small(2), of "2 ^ 64 - 1"] by simp
  with small(1) show "zlib_bomb_is_valid z" by (simp add: zlib_bomb_is_valid_def)
  obtain big where big: "zlib_bomb (200 * 1024 * 1024) = Some big" "zeros_stream 812849 big" "8 * length big \<le> 73 + 13 * 812849"
    using zlib_bomb_layout [of "200 * 1024 * 1024"] by auto
  have "zl_decompress_with_limit z big max_decompressed_size = Inl HasMoreOutput"
    using assms [unfolded inflates_zeros_def, rule_format, OF big(2), of max_decompressed_size]
    by (simp add: max_decompressed_size_def)
  with big show "rejects_zlib_bomb z fm" by (simp add: rejects_zlib_bomb_def ser_from_slice_def)
qed

text \<open>The hypothesis can be met: the length of such a stream tells how many references it has.\<close>

definition zeros_zlib :: zlib where
  "zeros_zlib = \<lparr>zl_compress = id,
     zl_decompress_with_limit = (\<lambda>bs limit. let n = 1 + 258 * ((8 * (length bs - 6) - 18) div 13)
       in if n \<le> limit then Inr (replicate n 0) else Inl HasMoreOutput)\<rparr>"

lemma zeros_zlib_inflates: "inflates_zeros zeros_zlib"
proof -
  have "(8 * (length bs - 6) - 18) div 13 = k" if stream: "zeros_stream k bs" for k bs
  proof -
    obtain d pad where d: "pad < 8" "bs = [0x78, 0x01] @ d @ put_u32 (adler32 (replicate (1 + 258 * k) 0))"
        "bits_of d = zeros_block k @ replicate pad False"
      using stream unfolding zeros_stream_def by blast
    from arg_cong [OF d(3), of length] d(2) have "8 * (length bs - 6) - 18 = 13 * k + pad" by (simp add: zeros_block_length)
    with d(1) show ?thesis by simp
  qed
  then show ?thesis by (simp add: inflates_zeros_def zeros_zlib_def Let_def)
qed

lemma bomb_tests_pass_example: "zlib_bomb_is_valid zeros_zlib \<and> rejects_zlib_bomb zeros_zlib fm"
  using bomb_tests_pass [OF zeros_zlib_inflates] by simp

end
