(* ===== verification/Web.thy ===== *)
theory Web
  imports Router_Connection Rpc_Types
begin

text \<open>
  \<^verbatim>\<open>crates/router/src/web.rs\<close>: what the status pages of the router show. The HTTP server and JSON are
  outside; a page is the value that is rendered. \<open>answers\<close> are the results of asking every registered
  connection for its \<^verbatim>\<open>NodeInfo\<close>, in the order of the table.
\<close>

section \<open>Events and health\<close>

text \<open>An item of the broadcast receiver is an event, or the number of events it missed.\<close>

definition rest_events :: "(nat + node_event) list \<Rightarrow> node_event list" where
  "rest_events items = map (\<lambda>it. case it of Inl n \<Rightarrow> Lag n | Inr e \<Rightarrow> e) items"

fun sse_event :: "node_event \<Rightarrow> string" where
  "sse_event (New node_id) = ''event: new-node'' @ [CHR 0x0A] @ ''data: '' @ node_id @ [CHR 0x0A, CHR 0x0A]"
| "sse_event (Lost node_id) = ''event: lost-node'' @ [CHR 0x0A] @ ''data: '' @ node_id @ [CHR 0x0A, CHR 0x0A]"
| "sse_event (Lag n) = ''event: drop'' @ [CHR 0x0A] @ ''data: '' @ show_nat n @ [CHR 0x0A, CHR 0x0A]"

definition web_events :: "(nat + node_event) list \<Rightarrow> string list" where
  "web_events items = map sse_event (rest_events items)"

record health_page =
  hp_service :: string
  hp_status :: string
  hp_connections :: nat
  hp_endpoints :: nat
  hp_topics :: nat

definition health :: "'a router \<Rightarrow> health_page" where
  "health r = \<lparr>hp_service = ''ya-sb-router'', hp_status = ''healthy'',
     hp_connections = registered_instances_count r, hp_endpoints = registered_endpoints_count r,
     hp_topics = topics_count r\<rparr>"

section \<open>Nodes\<close>

record nodes_response =
  nr_nodes :: "(string, node_info list) hmap"
  nr_count :: nat

text \<open>\<^verbatim>\<open>acc.entry(key).or_insert_with(Vec::new).push(node)\<close>\<close>

definition push_node :: "node_info \<Rightarrow> (string, node_info list) hmap \<Rightarrow> (string, node_info list) hmap" where
  "push_node node acc =
     (let key = the (ni_id node);
          nodes = (case hm_get acc key of Some ns \<Rightarrow> ns | None \<Rightarrow> [])
      in snd (hm_insert key (nodes @ [node]) acc))"

definition has_prefix :: "string option \<Rightarrow> node_info \<Rightarrow> bool" where
  "has_prefix prefix node =
     (case prefix of None \<Rightarrow> True
      | Some p \<Rightarrow> list_ex (\<lambda>identity. starts_with identity p) (ni_identities node))"

definition get_prefixed_nodes ::
  "(mailbox_error + (string + node_info)) list \<Rightarrow> string option \<Rightarrow> nodes_response" where
  "get_prefixed_nodes results prefix =
     (let count = length results;
          prefix = map_option (\<lambda>p. ''0x'' @ p) prefix;
          infos = List.map_filter (\<lambda>res. case res of Inr (Inr node) \<Rightarrow> Some node | _ \<Rightarrow> None) results;
          shown = filter (\<lambda>node. ni_id node \<noteq> None) (filter (has_prefix prefix) infos)
      in \<lparr>nr_nodes = fold push_node shown [], nr_count = count\<rparr>)"

text \<open>The whole page: a connection that is gone answers with a mailbox error.\<close>

definition nodes_page ::
  "(bytes \<Rightarrow> string) \<Rightarrow> 'a ctx \<Rightarrow> ('a \<Rightarrow> ('a, 's) connection option) \<Rightarrow> 'a router \<Rightarrow> string option \<Rightarrow> nodes_response" where
  "nodes_page hex x conns r prefix =
     get_prefixed_nodes
       (map (\<lambda>a. case conns a of
                   Some c \<Rightarrow> Inr (Inr (get_node_info hex x c))
                 | None \<Rightarrow> Inl MailboxErrorClosed) (get_connection_recipients r)) prefix"

section \<open>The server\<close>

text \<open>
  The table of routes and what is served for a path. \<open>matches\<close> is the matching of actix-web: it gives
  the values of the pattern's parameters if the path fits. The first route that fits answers; a
  missing one is the server's 404, here \<open>None\<close>.
\<close>

datatype web_page = EventsPage "string list" | HealthPage health_page | NodesPage nodes_response

datatype web_route = ToEvents | ToHealth | ToNodes | ToNodesPrefix

definition configure_routes :: "(string \<times> web_route) list" where
  "configure_routes = [(''/events'', ToEvents), (''/health'', ToHealth), (''/nodes'', ToNodes),
     (''/nodes/{prefix}'', ToNodesPrefix)]"

definition web_answer where
  "web_answer matches hex x conns r items path =
     map_option (\<lambda>(route, params). case route of
         ToEvents \<Rightarrow> EventsPage (web_events items)
       | ToHealth \<Rightarrow> HealthPage (health r)
       | ToNodes \<Rightarrow> NodesPage (nodes_page hex x conns r None)
       | ToNodesPrefix \<Rightarrow> NodesPage (nodes_page hex x conns r (Some (hd params))))
     (find_map (\<lambda>(pattern, route). map_option (Pair route) (matches pattern path)) configure_routes)"

text \<open>
  The address is the first that the URL resolves to; \<open>socket_addrs\<close> and \<open>bind\<close> are the calls of the
  \<^verbatim>\<open>url\<close> crate and of the server. The result is the address that is served.
\<close>

definition start_web_server :: "('u \<Rightarrow> string) \<Rightarrow> ('u \<Rightarrow> string + 'sock list) \<Rightarrow> ('sock \<Rightarrow> string option) \<Rightarrow> 'u \<Rightarrow> string + 'sock" where
  "start_web_server show_url socket_addrs bind web_url =
     (case socket_addrs web_url of
        Inl e \<Rightarrow> Inl e
      | Inr [] \<Rightarrow> Inl (''Invalid web-addr URL '' @ [CHR 0x27] @ show_url web_url @ [CHR 0x27] @ '': must include host and port'')
      | Inr (bind_addr # _) \<Rightarrow> (case bind bind_addr of Some e \<Rightarrow> Inl e | None \<Rightarrow> Inr bind_addr))"

text \<open>
  What actix-web documents of the matching: a pattern without parameters fits itself only; \<^verbatim>\<open>{prefix}\<close>
  stands for one segment that is not empty.
\<close>

definition segment_matching :: "(string \<Rightarrow> string \<Rightarrow> string list option) \<Rightarrow> bool" where
  "segment_matching matches =
     (\<forall>path. (\<forall>pattern \<in> {''/events'', ''/health'', ''/nodes''}. matches pattern path = (if path = pattern then Some [] else None))
       \<and> (\<forall>seg. matches ''/nodes/{prefix}'' path = Some [seg] \<longleftrightarrow>
             path = ''/nodes/'' @ seg \<and> seg \<noteq> [] \<and> CHR ''/'' \<notin> set seg)
       \<and> (\<forall>params. matches ''/nodes/{prefix}'' path = Some params \<longrightarrow> length params = 1))"

lemma pages_by_path:
  assumes "segment_matching matches"
  shows "web_answer matches hex x conns r items ''/events'' = Some (EventsPage (web_events items))"
    and "web_answer matches hex x conns r items ''/health'' = Some (HealthPage (health r))"
    and "web_answer matches hex x conns r items ''/nodes'' = Some (NodesPage (nodes_page hex x conns r None))"
    and "seg \<noteq> [] \<Longrightarrow> CHR ''/'' \<notin> set seg \<Longrightarrow>
      web_answer matches hex x conns r items (''/nodes/'' @ seg) = Some (NodesPage (nodes_page hex x conns r (Some seg)))"
proof -
  have eq: "matches ''/events'' path = (if path = ''/events'' then Some [] else None)"
    "matches ''/health'' path = (if path = ''/health'' then Some [] else None)"
    "matches ''/nodes'' path = (if path = ''/nodes'' then Some [] else None)" for path
    using assms by (simp_all add: segment_matching_def)
  show "web_answer matches hex x conns r items ''/events'' = Some (EventsPage (web_events items))"
    and "web_answer matches hex x conns r items ''/health'' = Some (HealthPage (health r))"
    and "web_answer matches hex x conns r items ''/nodes'' = Some (NodesPage (nodes_page hex x conns r None))"
    by (simp_all add: web_answer_def configure_routes_def eq)
  assume seg: "seg \<noteq> []" "CHR ''/'' \<notin> set seg"
  then have "matches ''/nodes/{prefix}'' (''/nodes/'' @ seg) = Some [seg]"
    using assms by (simp add: segment_matching_def)
  then show "web_answer matches hex x conns r items (''/nodes/'' @ seg) = Some (NodesPage (nodes_page hex x conns r (Some seg)))"
    by (simp add: web_answer_def configure_routes_def eq)
qed

definition plain_matching :: "string \<Rightarrow> string \<Rightarrow> string list option" where
  "plain_matching pattern path =
     (if pattern = ''/nodes/{prefix}''
      then (let seg = drop 7 path in if path = ''/nodes/'' @ seg \<and> seg \<noteq> [] \<and> CHR ''/'' \<notin> set seg then Some [seg] else None)
      else if path = pattern then Some [] else None)"

lemma plain_matching_segments: "segment_matching plain_matching"
  by (auto simp: segment_matching_def plain_matching_def Let_def split: if_splits)

section \<open>Grouping\<close>

lemma hm_get_push_node:
  "ni_id node = Some k' \<Longrightarrow> hm_get (push_node node acc) k =
     (if k = k' then Some ((case hm_get acc k of Some ns \<Rightarrow> ns | None \<Rightarrow> []) @ [node]) else hm_get acc k)"
  by (simp add: push_node_def Let_def)

lemma fold_push_node:
  assumes "\<And>n. n \<in> set ns \<Longrightarrow> ni_id n \<noteq> None"
  shows "hm_get (fold push_node ns acc) k =
     (case hm_get acc k of
        Some old \<Rightarrow> Some (old @ filter (\<lambda>n. ni_id n = Some k) ns)
      | None \<Rightarrow> (let new = filter (\<lambda>n. ni_id n = Some k) ns in if new = [] then None else Some new))"
  using assms
proof (induction ns arbitrary: acc)
  case (Cons n ns)
  then obtain k' where k': "ni_id n = Some k'" by fastforce
  show ?case
    using Cons.IH [of "push_node n acc"] Cons.prems k'
    by (auto simp: hm_get_push_node Let_def split: option.split)
qed (simp split: option.split)

lemma answering_connections:
  "List.map_filter (\<lambda>res. case res of Inr (Inr node) \<Rightarrow> Some node | _ \<Rightarrow> None)
     (map (\<lambda>a. case conns a of Some c \<Rightarrow> Inr (Inr (g c)) | None \<Rightarrow> Inl e) as) = map g (List.map_filter conns as)"
  by (induction as) (auto simp: map_filter_simps split: option.split)

lemma node_info_id [simp]: "ni_id (get_node_info hex x c) = default_id c"
  by (simp add: get_node_info_def Let_def)

section \<open>Properties\<close>

text \<open>
  The page of nodes groups the registered connections by their node id: under an id it lists,
  in the order of the table and once each, the information of exactly those registered and live
  connections that have that id and, if a prefix is asked for, an identity that starts with it; an
  id nobody has is not on the page. The count is that of the registered instances, whatever the
  prefix.
\<close>

lemma nodes_page_groups_connections:
  assumes "router_ok r"
  shows "hm_get (nr_nodes (nodes_page hex x conns r prefix)) k =
       (let listed = map (get_node_info hex x) (filter
              (\<lambda>c. default_id c = Some k \<and> has_prefix (map_option (\<lambda>p. ''0x'' @ p) prefix) (get_node_info hex x c))
              (List.map_filter conns (get_connection_recipients r)))
        in if listed = [] then None else Some listed)
     \<and> set (get_connection_recipients r) = ran (instance_of r)
     \<and> nr_count (nodes_page hex x conns r prefix) = card (dom (instance_of r))"
proof -
  let ?p = "map_option (\<lambda>p. ''0x'' @ p) prefix"
  let ?cs = "List.map_filter conns (get_connection_recipients r)"
  let ?shown = "filter (\<lambda>n. ni_id n \<noteq> None) (filter (has_prefix ?p) (map (get_node_info hex x) ?cs))"
  have nodes: "nr_nodes (nodes_page hex x conns r prefix) = fold push_node ?shown []"
    by (simp add: nodes_page_def get_prefixed_nodes_def Let_def answering_connections)
  have grouped: "hm_get (fold push_node ?shown []) k = (let new = filter (\<lambda>n. ni_id n = Some k) ?shown
      in if new = [] then None else Some new)"
    by (subst fold_push_node) auto
  have listed: "filter (\<lambda>n. ni_id n = Some k) ?shown = map (get_node_info hex x)
      (filter (\<lambda>c. default_id c = Some k \<and> has_prefix ?p (get_node_info hex x c)) ?cs)"
    by (auto simp: filter_map o_def intro!: arg_cong [of _ _ "map _"] filter_cong)
  have "nr_count (nodes_page hex x conns r prefix) = length (get_connection_recipients r)"
    by (simp add: nodes_page_def get_prefixed_nodes_def Let_def)
  with status_counts [OF assms] show ?thesis
    by (intro conjI) (simp_all only: nodes grouped listed)
qed

definition web_conns :: "nat \<Rightarrow> (nat, nat) connection option" where
  "web_conns = [2 \<mapsto> (act sample_turn)\<lparr>default_id := Some ''0xab'', services := [''/net/0xab'']\<rparr>]"

lemma nodes_page_groups_connections_example:
  "nr_count (nodes_page (\<lambda>_. []) sample_ctx web_conns (snd (new_connection [9] 2 empty_router)) (Some ''ab'')) = 1
   \<and> hm_get (nr_nodes (nodes_page (\<lambda>_. []) sample_ctx web_conns (snd (new_connection [9] 2 empty_router)) (Some ''ab'')))
       ''0xab'' \<noteq> None
   \<and> hm_get (nr_nodes (nodes_page (\<lambda>_. []) sample_ctx web_conns (snd (new_connection [9] 2 empty_router)) (Some ''cd'')))
       ''0xab'' = None"
proof -
  let ?r = "snd (new_connection [9] 2 empty_router)"
  have ok: "router_ok ?r" by simp
  have inst: "dom (instance_of ?r) = {[9]}"
    and recs: "get_connection_recipients ?r = [2]"
    by (simp_all add: new_connection_def get_connection_recipients_def hm_values_def instance_of_def hm_insert_def
        empty_router_def new_router_def hm_get_map_of)
  show ?thesis
    using nodes_page_groups_connections [OF ok, of "\<lambda>_. []" sample_ctx web_conns "Some ''ab''" "''0xab''"]
      nodes_page_groups_connections [OF ok, of "\<lambda>_. []" sample_ctx web_conns "Some ''cd''" "''0xab''"] inst
    by (simp add: recs map_filter_simps web_conns_def has_prefix_def get_node_info_def parse_node_id_def
        starts_with_def Let_def)
qed

end
