(* ===== verification/Spec2Isabelle.thy ===== *)
theory Spec2Isabelle
  imports Announce Examples Futures Unit_Tests Web
begin

text \<open>
  Golem Service Bus: a development of the router, the client library and the wire protocol.

  \<^bold>\<open>The program.\<close> A router process (\<^verbatim>\<open>crates/router\<close>) accepts connections and keeps three tables:
  the instances that said hello, the service names each connection registered, and the broadcast
  topics. A call carries an address; the router forwards it to the connection that registered the
  longest prefix of the address, and that connection's reply travels back by the request's id. In
  every other process the client library (\<^verbatim>\<open>src\<close>) keeps a local table of bound services, calls
  those directly, and passes everything else to one actor, the remote router, that owns the
  connection to the router process. Both ends share the message types and the codec
  (\<^verbatim>\<open>crates/proto\<close>) and the prefix table and the buffered writer (\<^verbatim>\<open>crates/util\<close>).

  \<^bold>\<open>Theories.\<close> In the order of their imports:

  \<^item> \<open>Prelude\<close>: words and bytes, \<^verbatim>\<open>HashMap\<close> as an association list with distinct keys behind the
    locale \<open>hash_map\<close>, sets, string operations of the standard library.
  \<^item> \<open>PrefixBag\<close> (\<^verbatim>\<open>crates/util/src/lib.rs\<close>): \<^verbatim>\<open>RevPrefixes\<close> as a terminating function and
    \<^verbatim>\<open>PrefixLookupBag\<close>; lookup is the longest registered ancestor (locale \<open>prefix_lookup\<close>).
  \<^item> \<open>Proto\<close> (\<^verbatim>\<open>gsb_api.proto\<close>, \<^verbatim>\<open>crates/proto/src/lib.rs\<close>): one record per message, the reply codes
    with their numbers (locale \<open>wire_enum\<close>, seven instances), the defaults.
  \<^item> \<open>Codec\<close> (\<^verbatim>\<open>crates/proto/src/codec.rs\<close>): framing. The protobuf library is the record \<open>prost\<close>.
    Decoding does not depend on how the bytes arrive, and it inverts encoding.
  \<^item> \<open>SinkWriter\<close> (\<^verbatim>\<open>crates/util/src/writer.rs\<close>): the buffered writer against any sink \<open>sink_ops\<close>;
    order, completeness, the assertion in \<^verbatim>\<open>poll\<close>.
  \<^item> \<open>Config\<close> (\<^verbatim>\<open>crates/router/src/config.rs\<close>, \<^verbatim>\<open>InstanceConfig\<close> of \<^verbatim>\<open>router.rs\<close>): durations with
    their order, the configuration and its reading from the environment.
  \<^item> \<open>Router\<close> (\<^verbatim>\<open>Router\<close> of \<^verbatim>\<open>crates/router/src/router.rs\<close>): the tables, the garbage collector, and
    a specification \<open>bus\<close> over partial functions that they refine (locale \<open>service_registry\<close>).
  \<^item> \<open>Router_Connection\<close> (\<^verbatim>\<open>crates/router/src/connection.rs\<close>): the connection actor. A handler maps
    a \<open>turn\<close> (the actor, the shared tables, the effects so far) to a turn; \<open>ctx\<close> is what it can see
    of the world: its address, the time, which addresses are connected.
  \<^item> \<open>Reader\<close> (\<^verbatim>\<open>crates/router/src/connection/reader.rs\<close>): \<^verbatim>\<open>ActorStream::poll\<close> over any
    \<^verbatim>\<open>InputHandler\<close> (locale \<open>handler_contract\<close>), interpreted with the connection's two handlers.
  \<^item> \<open>Flow\<close>: the reader of the replies, the senders (locale \<open>flow_sender\<close>) and the writer of a connection
    together, under back-pressure.
  \<^item> \<open>Senders\<close>: the callers and topics that send through a connection, each waiting for its own message
    or giving up on it, so that no more messages are held for those who wait than there are senders.
  \<^item> \<open>Router_System\<close>: tables, live connections and the mail between them as a transition system,
    with invariants over all reachable states (locale \<open>invariant\<close>), and an executable scheduler
    whose runs are runs of the system.
  \<^item> \<open>Unix_Socket\<close> (\<^verbatim>\<open>crates/router/src/unix_socket.rs\<close>): how the router takes over the path of its
    socket, over a model of the file system calls, with other processes acting in between.
  \<^item> \<open>Web\<close> (\<^verbatim>\<open>crates/router/src/web.rs\<close>): the values the status pages show, the routes to them and the
    start of the server.
  \<^item> \<open>Gsb_Addr\<close> (\<^verbatim>\<open>crates/proto/src/lib.rs\<close>): where the router's socket is.
  \<^item> \<open>Tls\<close> (\<^verbatim>\<open>crates/util/src/tls.rs\<close>, \<^verbatim>\<open>tls\<close> of \<^verbatim>\<open>crates/router/src/bin.rs\<close> and \<^verbatim>\<open>tls.rs\<close>): pinned
    certificates and the loading of the server's own.
  \<^item> \<open>Launch\<close> (\<^verbatim>\<open>bind_*\<close> and \<^verbatim>\<open>run_*\<close> of \<^verbatim>\<open>router.rs\<close>, \<^verbatim>\<open>lib.rs\<close>, \<^verbatim>\<open>bin.rs\<close>): from the command line to the
    listeners, and the labels of accepted connections.
  \<^item> \<open>Rpc_Types\<close> (\<^verbatim>\<open>src/lib.rs\<close>, \<^verbatim>\<open>error.rs\<close>, \<^verbatim>\<open>serialization.rs\<close>): envelopes, chunks, errors,
    the formats, compression with its switch and its limit.
  \<^item> \<open>Client_Connection\<close> (\<^verbatim>\<open>src/connection.rs\<close>): the client's connection actor and \<^verbatim>\<open>ConnectionRef\<close>.
  \<^item> \<open>Local_Router\<close> (\<^verbatim>\<open>src/local_router.rs\<close>, \<^verbatim>\<open>typed.rs\<close>, \<^verbatim>\<open>untyped.rs\<close>): the table of bound services
    and every path a call can take.
  \<^item> \<open>Services\<close> (\<^verbatim>\<open>typed.rs\<close>, \<^verbatim>\<open>untyped.rs\<close>, \<^verbatim>\<open>actix_rpc.rs\<close>, \<^verbatim>\<open>into_actix.rs\<close>): a process with its table and
    its actors, the ways to bind a closure or an actor, and what then answers (locale \<open>service_host\<close>).
  \<^item> \<open>Futures\<close> (\<^verbatim>\<open>timeout.rs\<close>, \<^verbatim>\<open>crates/util/src/futures.rs\<close>): the two adapters for futures.
  \<^item> \<open>Call_Handler\<close> (the rest of \<^verbatim>\<open>src/connection.rs\<close>): the handlers of incoming calls and the transport,
    which is invisible to the writer (locale \<open>wrapped_sink\<close>).
  \<^item> \<open>Remote_Router\<close> (\<^verbatim>\<open>src/remote_router.rs\<close>): connecting, waiting calls, announced bindings.
  \<^item> \<open>Routes\<close>: the whole way of a call, a stream and a broadcast through both clients and the router,
    every hop fed with what the one before put out, the hops to clients with back-pressure.
  \<^item> \<open>Announce\<close>: a process, its remote router and both ends of its connection; what the process binds
    and what the router then has in its table, through connections and disconnections and with other
    clients active.
  \<^item> \<open>Examples\<close> (\<^verbatim>\<open>crates/router/examples\<close>): the echo and broadcast programs over the router, from their
    greeting to their end.
  \<^item> \<open>Portability\<close>: the branches for systems without Unix sockets.
  \<^item> \<open>Unit_Tests\<close>: the repository's own tests, run on the model.
  \<^item> this theory: from a binding in one process to a call from another.

  \<^bold>\<open>What is shown.\<close> End to end: what a process has bound is in the router's table, a call from another
  process reaches the closure and its result comes back, a stream of any length arrives complete and in
  order, a broadcast reaches the subscriber (\<open>Routes\<close> and below), and the example programs do what they
  wait for. For
  the router as a system: with clients that say hello first, names always point to live connections,
  and for all clients the tables agree with the connections and no reply reaches someone who did not
  ask. For the parts: lookup, framing, the writer and the tables meet their specifications on all
  inputs; decoding always ends and the writer always drains; each handler does what its reply says;
  flow control keeps order, and loses nothing while there are fewer senders than the high mark; commands
  are answered once and in order, and no call waiting for a connection is lost or answered twice; what a
  process has bound answers and is what it announces; the executable listens where clients connect; a
  pinned client accepts one certificate; the router replaces only a stale socket of its own user. Every
  test of the repository passes on the model. Some
  lemmas record where the code falls short of its intention: a client that never says hello leaves its
  names behind, held messages beyond the high mark are dropped, the collector races with a
  subscriber, a malformed reply stops the caller's connection, a remote push never fails, a
  repeated subscription is reported as a success, an oversized frame gets a wrong length, a raw
  service's stream loses its error, a router without Unix sockets ignores its TLS configuration.

  \<^bold>\<open>Time, order, effects.\<close> An actor's handler runs to its end before the next one, so handlers are
  functions and interleaving is the order of turns. What a handler does to others (mail, waking a
  held sender, stopping itself, spawning a stream) is a list of effects. \<open>Router_System\<close> allows more
  than the actor runtime does: mail may be delivered in any order or lost, any client item may come
  at any time, any set of topics may be collected; its invariants hold all the more for the program.
  \<open>Flow\<close> and \<open>Senders\<close> take the events of one connection in any order; whoever gives up on a held
  message has it dropped when the queue is drained, the one time the program looks. \<open>Routes\<close>,
  \<open>Announce\<close> and \<open>Examples\<close> follow one schedule: each hop is done before the next. Futures the code
  awaits are values (\<open>future\<close>) that are resumed by \<open>poll_future\<close>. No definition needs fuel: the loops over
  prefixes, frames, queues and drained messages are total functions with measures; \<open>decode_loop\<close> is
  the decoding loop as a partial function, shown to return. Lengths and codes are words of the width
  the code has; sizes of vectors are \<open>nat\<close>.

  \<^bold>\<open>Parameters.\<close> The protobuf encoding, the sink under the writer, the URL parser, the serializer,
  zlib, the forwarding of a stream into a sink, hashing, hexadecimal encoding and signatures, reading of certificate files, sockets and their
  errors, and the actors and closures of the user are records of functions or arguments. What a
  theorem assumes of them is among its hypotheses, and its witness satisfies them with a concrete
  instance.

  \<^bold>\<open>Not modelled.\<close> The sockets and TLS sessions themselves, the HTTP server under the status pages,
  the parsing of command lines, and logging, which belong to other crates or have no effect on the bus;
  the capacity of the channels of \<^verbatim>\<open>futures\<close> that carry a stream inside a process, which only delays its
  sender; the byte buffer wrapper \<^verbatim>\<open>crates/util/src/bytes.rs\<close> (pure delegation between two versions of a
  crate, behind a feature that cannot be built); the build script, and the programs under \<^verbatim>\<open>examples\<close> at
  the top level, which are command line drivers of modelled operations.
\<close>

section \<open>Properties that span processes and router\<close>

text \<open>
  C1. What a process binds can be called. Let a process bind a closure, before or after it got its
  connection to the router, whatever it binds or unbinds elsewhere, and however often it was connected
  and disconnected before; let the name be free at the router when the connection is made, and let other
  clients of the router do what they like with other names in the meantime. Another process, which has nothing bound at the address, calls it: the message is encoded, goes through the
  caller's client connection, the router's two connections and the service's client connection to the
  local table of the serving process; what the closure returns for the caller and the message comes back
  the same way, and is what the call returns. Each process may have switched compression on or off for
  itself. The format must read back what it writes for the message and for the result, and the encoded
  result must not be empty.
  The connections are open, have no command unanswered and hold nothing back at first, their transports
  work, and the high marks of their buffers are at least two.
\<close>

theorem bound_service_can_be_called:
  assumes link: "link_ready l" "takes_messages (ln_ctx l) out_b (ln_turn l)" "owner (rt (ln_turn l)) (addr @ ''/'' @ ident) = None"
    and others: "quiet (addr @ ''/'' @ ident) evs (node_step (Connected l) (node_run pre (node_new info)))"
    and binds: "acts (pre @ Connected l # evs) = before @ PBind tyb ident addr (caller_handler f) # later"
      "list_all (\<lambda>op. \<not> touches op (addr @ ''/'' @ ident)) later"
    and caller: "slot_at (pr_router pa) (addr @ ''/'' @ ident) = None" "cl_open ca" "takes_messages xa out_a ta"
      "\<not> sender_closed (ln_ctx l) (address xa)"
    and fmt: "(fv, fr) = (flex cv, flex cr) \<or> (fv, fr) = (json cv, json cr)" and z: "zlib_ok z"
    and msg: "reads_back cv v body" "plain_body z body"
    and res: "reads_back cr (f caller v) reply" "plain_body z reply" "reply \<noteq> []"
    and shown: "\<forall>e. utf8_valid (as_bytes (display e))"
  shows "let nd = node_run (pre @ Connected l # evs) (node_new info);
             pb = nd_process nd;
             do_call = local_do_call (body_serde z fv fr cfgb) (process_actors r rs pb) (pr_router pb)
         in \<exists>l'. nd_link nd = Some l'
          \<and> (let ps = \<lparr>caller_client = ca, caller_turn = ta\<lparr>rt := rt (ln_turn l')\<rparr>,
                       service_turn = ln_turn l', service_client = ln_client l', caller_out = out_a, service_out = out_b\<rparr>;
                 wa = process_actors (remote_answer conn xa (ln_ctx l) display do_call random ch ps) rs' pa
             in ep_call_as (body_serde z fv fr cfga) wa ty ident addr caller v (pr_router pa) = Some (Inr (f caller v)))"
proof -
  let ?full = "addr @ ''/'' @ ident"
  let ?evs = "pre @ Connected l # evs" and ?p = "fold process_step before process_new"
  let ?nd = "node_run ?evs (node_new info)"
  have pb: "nd_process ?nd = fold process_step later (bind_with_caller tyb ident addr f ?p)"
    by (simp add: node_run_process binds(1) node_new_def bind_with_caller_def)
  have "bound_in (nd_process ?nd) ?full \<noteq> None"
    using host.still_offers [OF typed_bind_offers [of tyb ident addr "caller_handler f" ?p] binds(2)]
    by (simp add: pb offers_actor_def bind_with_caller_def)
  then obtain l' where l': "nd_link ?nd = Some l'" and ready: "ready_route xa (ln_ctx l) ?full
      \<lparr>caller_client = ca, caller_turn = ta\<lparr>rt := rt (ln_turn l')\<rparr>,
        service_turn = ln_turn l', service_client = ln_client l', caller_out = out_a, service_out = out_b\<rparr>"
    using linked_route [OF link _ others refl _ caller(2-4)] by auto
  show ?thesis
    using remote_call_reaches_closure [where f = f and caller = caller and v = v and tyb = tyb and p = ?p and r = r and rs = rs
        and rs' = rs' and conn = conn and random = random and ch = ch and cfga = cfga and cfgb = cfgb and ty = ty,
        OF binds(2) caller(1) fmt z msg res ready shown] l'
    by (simp add: Let_def pb)
qed

definition sample_link :: "(unit, nat) link" where
  "sample_link = \<lparr>ln_conn = 7, ln_ctx = sample_ctx\<lparr>address := 2\<rparr>, ln_client = idle_client, ln_turn = tight_turn, ln_heard = []\<rparr>"

lemma owner_empty [simp]: "owner empty_router = (\<lambda>_. None)"
  by (simp add: owner_def empty_router_def new_router_def)

lemma sample_link_new:
  "link_ready sample_link" "not_ours k sample_link" "takes_messages (ln_ctx sample_link) ready_sink (ln_turn sample_link)"
  "owner (rt (ln_turn sample_link)) k = None" "ln_ctx sample_link = sample_ctx\<lparr>address := 2\<rparr>"
  by (simp_all add: sample_link_def link_ready_def not_ours_def takes_messages_def sample_ctx_def)

lemma sample_caller:
  "takes_messages sample_ctx ready_sink tight_turn" "\<not> sender_closed sample_ctx a"
  by (simp_all add: takes_messages_def sample_ctx_def)

text \<open>Another client registers a name, the service binds one and unbinds another. The caller compresses, the service
  does not.\<close>

definition sample_events_after :: "(unit, nat, nat, unit, nat) node_event list" where
  "sample_events_after = [Others (snd (register_service ''/x'' 9 empty_router)),
     Does (PBind () ''Add'' ''/a'' (caller_handler (\<lambda>c n. n + length c))), Does (PUnbind ''/b'')]"

lemma sample_quiet: "quiet ''/a/Add'' sample_events_after (node_step (Connected sample_link) (node_run [] (node_new info)))"
  using sample_link_new
  by (simp add: sample_events_after_def connected_step node_run_def node_new_def remote_router_default_def Let_def
      register_service_effect)

theorem bound_service_can_be_called_witness:
  "let nd = node_run (Connected sample_link # sample_events_after) (node_new (client_info_new ''0.8'' [1] ''demo''));
       pb = nd_process nd;
       sd = body_serde mark_zlib (flex byte_crate) (flex byte_crate); pa = process_new :: (unit, nat, nat) process;
       do_call = local_do_call (sd ser_config_default) (process_actors (\<lambda>_. Inl MailboxErrorClosed) (\<lambda>_ _ _. Inr []) pb) (pr_router pb)
   in \<exists>l'. nd_link nd = Some l'
    \<and> (let ps = \<lparr>caller_client = idle_client, caller_turn = tight_turn\<lparr>rt := rt (ln_turn l')\<rparr>,
                 service_turn = ln_turn l', service_client = ln_client l', caller_out = ready_sink, service_out = ready_sink\<rparr>;
           wa = process_actors (remote_answer 0 sample_ctx (sample_ctx\<lparr>address := 2\<rparr>) (\<lambda>_. []) do_call 5 3 ps) (\<lambda>_ _ _. Inr []) pa
       in ep_call_as (sd (set_compress True ser_config_default)) wa () ''Add'' ''/a'' ''me'' 40 (pr_router pa) = Some (Inr 42))"
proof -
  let ?f = "\<lambda>c n. n + length c :: nat"
  have later: "list_all (\<lambda>op. \<not> touches op (''/a'' @ ''/'' @ ''Add'')) [PUnbind ''/b'' :: (unit, nat, nat) process_op]"
    by (simp add: unbind_pattern_def ends_with_char_def starts_with_def)
  show ?thesis
    using bound_service_can_be_called [where l = sample_link and out_b = ready_sink and addr = "''/a''" and ident = "''Add''"
        and pre = "[]" and evs = sample_events_after and before = "[]" and tyb = "()" and f = ?f and later = "[PUnbind ''/b'']"
        and pa = process_new and ca = idle_client and xa = sample_ctx and out_a = ready_sink and ta = tight_turn
        and fv = "flex byte_crate" and fr = "flex byte_crate" and cv = byte_crate and cr = byte_crate and z = mark_zlib
        and v = 40 and body = "[40]" and caller = "''me''" and reply = "[42]" and display = "\<lambda>_. []"
        and info = "client_info_new ''0.8'' [1] ''demo''" and cfgb = ser_config_default and cfga = "set_compress True ser_config_default"
        and r = "\<lambda>_. Inl MailboxErrorClosed" and rs = "\<lambda>_ _ _. Inr []" and rs' = "\<lambda>_ _ _. Inr []" and conn = 0 and random = 5
        and ch = 3 and ty = "()"]
      sample_link_new sample_quiet later byte_crate_reads_back(1) [of 40] byte_crate_reads_back(1) [of 42]
    by (simp add: sample_events_after_def Let_def nothing_bound as_bytes_def mark_zlib_ok byte_crate_reads_back(2) sample_caller)
qed

text \<open>
  C10. The router's table follows the process. After any history of bindings, connections and
  disconnections, a new connection announces everything that is bound, and from then on every binding
  and unbinding is passed on: if a name was free when the connection was made, the router has it for this
  connection exactly while it is bound in the process; if it was somebody else's, it stays so. This holds
  for every name that other clients leave alone in the meantime. No command is left without an answer. If
  one of the announced names was taken, the remote router gives the connection up again, otherwise it
  keeps it.
\<close>

theorem router_follows_process:
  assumes "link_ready l" and "not_ours k l"
    and "quiet k evs (node_step (Connected l) (node_run pre (node_new info)))"
  shows "let nd0 = node_run pre (node_new info); nd1 = node_step (Connected l) nd0; nd = node_run evs nd1
         in (\<exists>l'. nd_link nd = Some l'
               \<and> owner (rt (ln_turn l')) k = (case owner (rt (ln_turn l)) k of
                    Some holder \<Rightarrow> Some holder
                  | None \<Rightarrow> if bound_in (nd_process nd) k \<noteq> None then Some (address (ln_ctx l)) else None)
               \<and> cc_register_reply (ln_client l') = [] \<and> cc_unregister_reply (ln_client l') = [])
          \<and> (nd_restart nd1 \<longleftrightarrow>
               (\<exists>k. bound_in (nd_process nd0) k \<noteq> None \<and> owner (rt (ln_turn l)) k \<noteq> None))"
proof -
  let ?nd = "node_run (pre @ Connected l # evs) (node_new info)"
  have nd: "?nd = node_run evs (node_step (Connected l) (node_run pre (node_new info)))"
    by (simp add: node_run_def)
  obtain l' where l': "nd_link ?nd = Some l'" "mirrors {k} l (dom (bound_in (nd_process ?nd))) l'"
    using linked_mirror [OF assms refl] by blast
  have "owner (rt (ln_turn l')) k = (case owner (rt (ln_turn l)) k of
      Some holder \<Rightarrow> Some holder
    | None \<Rightarrow> if bound_in (nd_process ?nd) k \<noteq> None then Some (address (ln_ctx l)) else None)"
    using mirrorsD(6) [OF l'(2)] by (auto simp: domIff split: option.split)
  moreover have "cc_register_reply (ln_client l') = []" "cc_unregister_reply (ln_client l') = []"
    using mirrorsD(1) [OF l'(2)] by (simp_all add: link_ready_def)
  ultimately show ?thesis
    using connected_mirror(2) [OF assms(1) node_run_ok [of pre info]] l'(1) unfolding nd Let_def by blast
qed

lemma bind_raw_effect: "bound_in (ar_bind_raw addr a p) = (bound_in p)(addr \<mapsto> RawCall a)"
  by (simp add: ar_bind_raw_def lr_bind_raw_def bound_in_def [of p])

lemma nothing_bound_new: "bound_in process_new = (\<lambda>_. None)"
  by (simp add: process_new_def bound_in_def local_router_new_def bound_def)

text \<open>Bound before the connection, announced with it, and unbound again.\<close>

theorem router_follows_process_witness:
  "let nd0 = node_run [Does (PBindRaw ''/a'' 0)] (node_new (client_info_new ''0.8'' [1] ''demo'') :: (unit, nat, nat, unit, nat) node);
       nd1 = node_step (Connected sample_link) nd0
   in (\<exists>l'. nd_link nd1 = Some l' \<and> owner (rt (ln_turn l')) ''/a'' = Some 2) \<and> \<not> nd_restart nd1
    \<and> (\<exists>l'. nd_link (node_run [Does (PUnbindRaw ''/a'')] nd1) = Some l' \<and> owner (rt (ln_turn l')) ''/a'' = None)"
proof -
  let ?pre = "[Does (PBindRaw ''/a'' 0)] :: (unit, nat, nat, unit, nat) node_event list"
  let ?info = "client_info_new ''0.8'' [1] ''demo''"
  let ?nd = "node_step (Connected sample_link) (node_run ?pre (node_new ?info))"
  have "bound_in (nd_process (node_run ?pre (node_new ?info))) ''/a'' = Some (RawCall 0)" "nd_process ?nd = nd_process (node_run ?pre (node_new ?info))"
    by (simp_all add: node_run_process node_new_def bind_raw_effect connected_step Let_def)
  moreover have "bound_in (nd_process (node_run [Does (PUnbindRaw ''/a'')] ?nd)) ''/a'' = None"
    by (simp add: node_run_process unbind_raw_effect)
  ultimately show ?thesis
    using router_follows_process [of sample_link "''/a''" "[]" ?pre ?info]
      router_follows_process [of sample_link "''/a''" "[Does (PUnbindRaw ''/a'')]" ?pre ?info] sample_link_new
    by (auto simp: Let_def node_run_def)
qed

text \<open>
  C11. What a process streams arrives complete and in order. As for calls, let a process bind a closure
  that answers with a stream, before or after it got its connection: a streaming call from another process
  yields exactly the items of the closure's stream, and then ends, however many they are. What the buffer
  of the caller's connection has no room for is held back and sent later. The two processes may encode
  differently as long as each reads what the other writes.
  The connections are open, have no command unanswered and hold nothing back at first, their transports
  work, and the high marks of their buffers are at least two.
\<close>

theorem bound_stream_arrives_in_order:
  assumes link: "link_ready l" "takes_messages (ln_ctx l) out_b (ln_turn l)" "owner (rt (ln_turn l)) (addr @ ''/'' @ ident) = None"
    and others: "quiet (addr @ ''/'' @ ident) evs (node_step (Connected l) (node_run pre (node_new info)))"
    and binds: "acts (pre @ Connected l # evs) = before @ PBindStream tyb ident addr h # later"
      "list_all (\<lambda>op. \<not> touches op (addr @ ''/'' @ ident)) later"
    and caller: "slot_at (pr_router pa) (addr @ ''/'' @ ident) = None" "cl_open ca" "takes_messages xa out_a ta"
      "\<not> sender_closed (ln_ctx l) (address xa)"
    and msg: "enc_msg sda v = Inr body" "dec_msg sdb body = Inr v"
    and res: "\<And>r. r \<in> set (h ''local'' v) \<Longrightarrow> enc_res sdb r = Inr (e r) \<and> dec_res sda (e r) = Inr r"
    and shown: "\<forall>e. utf8_valid (as_bytes (display e))"
  shows "let nd = node_run (pre @ Connected l # evs) (node_new info);
             pb = nd_process nd;
             do_call = local_do_call sdb (process_actors rb rs pb) (pr_router pb)
         in \<exists>l'. nd_link nd = Some l'
          \<and> (let ps = \<lparr>caller_client = ca, caller_turn = ta\<lparr>rt := rt (ln_turn l')\<rparr>,
                       service_turn = ln_turn l', service_client = ln_client l', caller_out = out_a, service_out = out_b\<rparr>;
                 wa = process_actors ra (remote_stream_answer conn xa (ln_ctx l) display do_call random ch ps) pa
             in ep_call_streaming sda wa ty ident addr v (pr_router pa) = Some (map Inr (h ''local'' v)))"
proof -
  let ?full = "addr @ ''/'' @ ident"
  let ?evs = "pre @ Connected l # evs" and ?p = "fold process_step before process_new"
  let ?nd = "node_run ?evs (node_new info)"
  have pb: "nd_process ?nd = fold process_step later (typed_bind_stream tyb ident addr h ?p)"
    by (simp add: node_run_process binds(1) node_new_def)
  have "bound_in (nd_process ?nd) ?full \<noteq> None"
    using host.still_offers [OF typed_bind_stream_offers [of tyb ident addr h ?p] binds(2)]
    by (simp add: pb offers_actor_def)
  then obtain l' where l': "nd_link ?nd = Some l'" and ready: "ready_route xa (ln_ctx l) ?full
      \<lparr>caller_client = ca, caller_turn = ta\<lparr>rt := rt (ln_turn l')\<rparr>,
        service_turn = ln_turn l', service_client = ln_client l', caller_out = out_a, service_out = out_b\<rparr>"
    using linked_route [OF link _ others refl _ caller(2-4)] by auto
  show ?thesis
    using remote_stream_arrives_in_order [where h = h and e = e and v = v and tyb = tyb and p = ?p and rb = rb and rs = rs
        and ra = ra and conn = conn and random = random and ch = ch and ty = ty,
        OF binds(2) caller(1) msg res ready shown] l'
    by (simp add: Let_def pb)
qed

text \<open>A stream of twenty items through buffers of two.\<close>

theorem bound_stream_arrives_in_order_witness:
  "let nd = node_run (Does (PBindStream () ''Add'' ''/a'' (closure_stream_handler (\<lambda>n. replicate 20 n))) # [Connected sample_link])
              (node_new (client_info_new ''0.8'' [1] ''demo''));
       pb = nd_process nd; pa = process_new :: (unit, nat, nat) process;
       do_call = local_do_call nat_serde (process_actors (\<lambda>_. Inl MailboxErrorClosed) (\<lambda>_ _ _. Inr []) pb) (pr_router pb)
   in \<exists>l'. nd_link nd = Some l'
    \<and> (let ps = \<lparr>caller_client = idle_client, caller_turn = tight_turn\<lparr>rt := rt (ln_turn l')\<rparr>,
                 service_turn = ln_turn l', service_client = ln_client l', caller_out = ready_sink, service_out = ready_sink\<rparr>;
           wa = process_actors (\<lambda>_. Inl MailboxErrorClosed)
                  (remote_stream_answer 0 sample_ctx (sample_ctx\<lparr>address := 2\<rparr>) (\<lambda>_. []) do_call 5 3 ps) pa
       in ep_call_streaming nat_serde wa () ''Add'' ''/a'' 7 (pr_router pa) = Some (map Inr (replicate 20 7)))"
  using bound_stream_arrives_in_order [where l = sample_link and out_b = ready_sink and addr = "''/a''" and ident = "''Add''"
      and pre = "[Does (PBindStream () ''Add'' ''/a'' (closure_stream_handler (\<lambda>n. replicate 20 n)))]" and evs = "[]"
      and before = "[]" and tyb = "()" and h = "closure_stream_handler (\<lambda>n. replicate 20 n)" and later = "[]"
      and pa = process_new and ca = idle_client and xa = sample_ctx and out_a = ready_sink and ta = tight_turn
      and sda = nat_serde and sdb = nat_serde and v = 7 and body = "replicate 7 0" and e = "\<lambda>n. replicate n 0"
      and display = "\<lambda>_. []" and info = "client_info_new ''0.8'' [1] ''demo''"
      and rb = "\<lambda>_. Inl MailboxErrorClosed" and rs = "\<lambda>_ _ _. Inr []" and ra = "\<lambda>_. Inl MailboxErrorClosed" and conn = 0
      and random = 5 and ch = 3 and ty = "()"]
    sample_link_new
  by (simp add: Let_def nothing_bound as_bytes_def nat_serde_def closure_stream_handler_def sample_caller)

end
